(* ===== verification/Prelude.thy ===== *)
theory Prelude
  imports Main
begin

text \<open>
  Shared vocabulary of the development.  Python exceptions are the values of
  \<open>pyexc\<close>; a computation that may raise is a value of \<open>'a res\<close> (\<open>Inl\<close> the
  exception), sequenced with \<open>bind_res\<close>, which stops at the first exception
  as the interpreter does.  A computation whose effects on a host object
  survive an exception (the import operator appends subsets to the scene
  before it fails) returns an \<open>'s outcome\<close>: the state reached, tagged with
  the exception that stopped it, if any.  \<open>map_res\<close> is a list
  comprehension whose element function may raise, \<open>py_index\<close> and
  \<open>py_setitem\<close> are Python's \<open>xs[i]\<close> and \<open>xs[i] = v\<close> with negative
  indices counted from the end, and \<open>spaced\<close> is the accumulation
  \<open>out += str(x) + " "\<close> used by every writer of the exporter.
\<close>

named_theorems res_simps "evaluation rules of the exception monad"

datatype pyexc = ValueError | IndexError | KeyError | TypeError | AttributeError

type_synonym 'a res = "pyexc + 'a"

definition bind_res :: "'a res \<Rightarrow> ('a \<Rightarrow> 'b res) \<Rightarrow> 'b res" where
  "bind_res x f = (case x of Inl e \<Rightarrow> Inl e | Inr a \<Rightarrow> f a)"

fun map_res :: "('a \<Rightarrow> 'b res) \<Rightarrow> 'a list \<Rightarrow> 'b list res" where
  "map_res f [] = Inr []"
| "map_res f (x # xs) = bind_res (f x) (\<lambda>y. bind_res (map_res f xs) (\<lambda>ys. Inr (y # ys)))"

text \<open>Python's index normalisation: \<open>i < 0\<close> counts from the end, once.\<close>

definition py_pos :: "nat \<Rightarrow> int \<Rightarrow> nat option" where
  "py_pos n i = (let j = (if i < 0 then int n + i else i)
                 in if 0 \<le> j \<and> j < int n then Some (nat j) else None)"

definition py_index :: "'a list \<Rightarrow> int \<Rightarrow> 'a res" where
  "py_index xs i = (case py_pos (length xs) i of None \<Rightarrow> Inl IndexError | Some j \<Rightarrow> Inr (xs ! j))"

definition py_setitem :: "'a list \<Rightarrow> int \<Rightarrow> 'a \<Rightarrow> 'a list res" where
  "py_setitem xs i v = (case py_pos (length xs) i of None \<Rightarrow> Inl IndexError | Some j \<Rightarrow> Inr (xs[j := v]))"

definition spaced :: "('a \<Rightarrow> string) \<Rightarrow> 'a list \<Rightarrow> string" where
  "spaced f xs = concat (map (\<lambda>x. f x @ '' '') xs)"

text \<open>Outcome of a computation whose effects persist through an exception.\<close>

datatype 's outcome = Ok 's | Raised pyexc 's

primrec state_of :: "'s outcome \<Rightarrow> 's" where
  "state_of (Ok s) = s"
| "state_of (Raised e s) = s"

definition ok_then :: "'s outcome \<Rightarrow> ('s \<Rightarrow> 's outcome) \<Rightarrow> 's outcome" where
  "ok_then r f = (case r of Ok s \<Rightarrow> f s | Raised e s \<Rightarrow> Raised e s)"

definition lift_res :: "'s \<Rightarrow> 's res \<Rightarrow> 's outcome" where
  "lift_res s r = (case r of Inl e \<Rightarrow> Raised e s | Inr s' \<Rightarrow> Ok s')"

subsection \<open>Rules of the exception monad\<close>

lemma bind_res_Inl [simp, res_simps]: "bind_res (Inl e) f = Inl e"
  by (simp add: bind_res_def)

lemma bind_res_Inr [simp, res_simps]: "bind_res (Inr a) f = f a"
  by (simp add: bind_res_def)

lemma bind_res_eq_Inr:
  "bind_res x f = Inr b \<longleftrightarrow> (\<exists>a. x = Inr a \<and> f a = Inr b)"
  by (cases x) auto

lemma bind_res_eq_Inl:
  "bind_res x f = Inl e \<longleftrightarrow> x = Inl e \<or> (\<exists>a. x = Inr a \<and> f a = Inl e)"
  by (cases x) auto

lemma ok_then_Ok [simp, res_simps]: "ok_then (Ok s) f = f s"
  by (simp add: ok_then_def)

lemma ok_then_Raised [simp, res_simps]: "ok_then (Raised e s) f = Raised e s"
  by (simp add: ok_then_def)

lemma lift_res_Inl [simp, res_simps]: "lift_res s (Inl e) = Raised e s"
  by (simp add: lift_res_def)

lemma lift_res_Inr [simp, res_simps]: "lift_res s (Inr s') = Ok s'"
  by (simp add: lift_res_def)

subsection \<open>List comprehensions that may raise\<close>

lemma map_res_Inr_iff:
  "map_res f xs = Inr ys \<longleftrightarrow> list_all2 (\<lambda>x y. f x = Inr y) xs ys"
proof (induction xs arbitrary: ys)
  case Nil
  then show ?case by auto
next
  case (Cons x xs)
  then show ?case
    by (cases ys) (auto simp: bind_res_eq_Inr)
qed

lemma map_res_map:
  "(\<And>x. x \<in> set xs \<Longrightarrow> f x = Inr (g x)) \<Longrightarrow> map_res f xs = Inr (map g xs)"
  by (induction xs) auto

lemma map_res_length:
  "map_res f xs = Inr ys \<Longrightarrow> length ys = length xs"
  by (auto simp: map_res_Inr_iff dest: list_all2_lengthD)

lemma map_res_append:
  "map_res f (xs @ ys) =
     bind_res (map_res f xs) (\<lambda>as. bind_res (map_res f ys) (\<lambda>bs. Inr (as @ bs)))"
proof (induction xs)
  case Nil
  then show ?case by (cases "map_res f ys") auto
next
  case (Cons x xs)
  then show ?case
    by (cases "f x"; cases "map_res f xs"; cases "map_res f ys") auto
qed

lemma map_res_snoc_Inl:
  "f x = Inl e \<Longrightarrow> \<exists>e'. map_res f (xs @ [x]) = Inl e'"
  by (cases "map_res f xs") (auto simp: map_res_append)

subsection \<open>Python indexing\<close>

lemma py_pos_nonneg [simp]:
  "py_pos n (int i) = (if i < n then Some i else None)"
  by (simp add: py_pos_def)

lemma py_pos_neg:
  "i < 0 \<Longrightarrow> py_pos n i = (if - int n \<le> i then Some (nat (int n + i)) else None)"
  by (simp add: py_pos_def)

lemma py_pos_Some_less: "py_pos n i = Some j \<Longrightarrow> j < n"
  by (auto simp: py_pos_def Let_def split: if_splits)

lemma py_index_nat [simp]:
  "py_index xs (int i) = (if i < length xs then Inr (xs ! i) else Inl IndexError)"
  by (simp add: py_index_def)

lemma py_setitem_nat [simp]:
  "py_setitem xs (int i) v = (if i < length xs then Inr (xs[i := v]) else Inl IndexError)"
  by (simp add: py_setitem_def)

lemma py_setitem_length:
  "py_setitem xs i v = Inr ys \<Longrightarrow> length ys = length xs"
  by (auto simp: py_setitem_def split: option.splits)

subsection \<open>Space-terminated writers\<close>

lemma spaced_Nil [simp]: "spaced f [] = []"
  by (simp add: spaced_def)

lemma spaced_Cons [simp]: "spaced f (x # xs) = f x @ CHR '' '' # spaced f xs"
  by (simp add: spaced_def)

lemma spaced_append [simp]: "spaced f (xs @ ys) = spaced f xs @ spaced f ys"
  by (simp add: spaced_def)

lemma spaced_concat: "concat (map (spaced f) xss) = spaced f (concat xss)"
  by (induction xss) auto

lemma spaced_last_space:
  "xs \<noteq> [] \<Longrightarrow> \<exists>w. spaced f xs = w @ '' ''"
  by (induction xs rule: rev_induct) auto

lemma bind_res_Inr_E:
  "bind_res x f = Inr b \<Longrightarrow> (\<And>a. x = Inr a \<Longrightarrow> f a = Inr b \<Longrightarrow> P) \<Longrightarrow> P"
  by (cases x) auto

lemma map_res_Inl_same:
  "(\<And>x e. f x = Inl e \<Longrightarrow> e = E) \<Longrightarrow> map_res f xs = Inl e \<Longrightarrow> e = E"
  by (induction xs) (auto simp: bind_res_eq_Inl)

lemma map_res_last_Inl:
  assumes "xs \<noteq> []" "f (last xs) = Inl e"
  shows "\<exists>e'. map_res f xs = Inl e'"
  using map_res_snoc_Inl [of f "last xs" e "butlast xs"] assms by simp

lemma subset_Un_single_trans: "A \<subseteq> B \<union> {t} \<Longrightarrow> B \<subseteq> C \<union> {t} \<Longrightarrow> A \<subseteq> C \<union> {t}"
  by blast

end
