(* ===== verification/PyStr.thy ===== *)
theory PyStr
  imports Prelude
begin

text \<open>
  The Python built-ins the codec relies on, for strings of Latin-1 characters
  (one \<open>char\<close> per code point): \<open>str.strip\<close>, \<open>str.split(sep)\<close>,
  \<open>str(int)\<close>, \<open>int(s)\<close>, \<open>float(s)\<close>, \<open>repr(float)\<close> and
  \<open>float.is_integer\<close>.  A double is represented by its shortest round-tripping
  decimal \<open>Fin m e\<close> (the value \<open>m * 10 ^ e\<close>, canonical when \<open>m\<close> has no
  trailing zero digit), which is the decimal \<open>repr\<close> prints; \<open>PInf\<close>,
  \<open>NInf\<close> and \<open>NaN\<close> are the non-finite doubles.  Parsing keeps the exact
  decimal of the text; this agrees with binary64 rounding on every text with
  at most 15 significant digits in the normal range, in particular on every text
  \<open>repr\<close> prints.  Negative zero is not represented.
\<close>

subsection \<open>Whitespace, strip and split\<close>

definition py_isspace :: "char \<Rightarrow> bool" where
  "py_isspace c \<longleftrightarrow> (of_char c :: nat) \<in> {9, 10, 11, 12, 13, 28, 29, 30, 31, 32, 133, 160}"

definition py_lstrip :: "string \<Rightarrow> string" where
  "py_lstrip s = dropWhile py_isspace s"

definition py_rstrip :: "string \<Rightarrow> string" where
  "py_rstrip s = rev (dropWhile py_isspace (rev s))"

definition py_strip :: "string \<Rightarrow> string" where
  "py_strip s = py_lstrip (py_rstrip s)"

text \<open>\<open>s.split(c)\<close> with an explicit one-character separator: every
  separator ends a field, so \<open>''''\<close> gives \<open>['''']\<close> and a trailing
  separator gives a trailing empty field.\<close>

fun py_split :: "char \<Rightarrow> string \<Rightarrow> string list" where
  "py_split c [] = [[]]"
| "py_split c (x # xs) = (let r = py_split c xs in if x = c then [] # r else (x # hd r) # tl r)"

subsection \<open>Decimal digits\<close>

definition is_digit :: "char \<Rightarrow> bool" where
  "is_digit c \<longleftrightarrow> 48 \<le> (of_char c :: nat) \<and> (of_char c :: nat) \<le> 57"

definition digit_val :: "char \<Rightarrow> nat" where
  "digit_val c = of_char c - 48"

definition digit_chr :: "nat \<Rightarrow> char" where
  "digit_chr d = char_of (48 + d)"

definition nat_of_digits :: "string \<Rightarrow> nat" where
  "nat_of_digits ds = foldl (\<lambda>acc c. 10 * acc + digit_val c) 0 ds"

fun digits_nat :: "nat \<Rightarrow> string" where
  "digits_nat n = (if n < 10 then [digit_chr n] else digits_nat (n div 10) @ [digit_chr (n mod 10)])"

declare digits_nat.simps [simp del]

text \<open>\<open>str(i)\<close> for a Python int.\<close>

definition py_str_int :: "int \<Rightarrow> string" where
  "py_str_int i = (if i < 0 then CHR ''-'' # digits_nat (nat (- i)) else digits_nat (nat i))"

text \<open>A digit part of a numeric literal, \<open>digit ("_"? digit)*\<close>: the
  maximal prefix of that shape, its digits without underscores, and the rest.\<close>

fun scan_more :: "string \<Rightarrow> string \<times> string" where
  "scan_more [] = ([], [])"
| "scan_more [c] = (if is_digit c then ([c], []) else ([], [c]))"
| "scan_more (c # d # cs) =
     (if is_digit c then (let (ds, r) = scan_more (d # cs) in (c # ds, r))
      else if c = CHR ''_'' \<and> is_digit d then (let (ds, r) = scan_more cs in (d # ds, r))
      else ([], c # d # cs))"

definition scan_digitpart :: "string \<Rightarrow> string \<times> string" where
  "scan_digitpart s =
     (case s of [] \<Rightarrow> ([], [])
      | c # cs \<Rightarrow> if is_digit c then (let (ds, r) = scan_more cs in (c # ds, r)) else ([], s))"

definition py_sign :: "string \<Rightarrow> bool \<times> string" where
  "py_sign s =
     (case s of [] \<Rightarrow> (False, [])
      | c # cs \<Rightarrow> if c = CHR ''-'' then (True, cs) else if c = CHR ''+'' then (False, cs) else (False, s))"

text \<open>\<open>int(s)\<close> in base 10: surrounding whitespace, an optional sign, a digit part.\<close>

definition py_int :: "string \<Rightarrow> int res" where
  "py_int s =
     (let (neg, u) = py_sign (py_strip s); (ds, r) = scan_digitpart u
      in if ds \<noteq> [] \<and> r = [] then Inr (if neg then - int (nat_of_digits ds) else int (nat_of_digits ds))
         else Inl ValueError)"

text \<open>Where a digit part ends: nothing follows, or a character that neither
  continues it nor is an underscore.\<close>

definition scan_stop :: "string \<Rightarrow> bool" where
  "scan_stop r \<longleftrightarrow> (case r of [] \<Rightarrow> True | c # _ \<Rightarrow> \<not> is_digit c \<and> c \<noteq> CHR ''_'')"

subsection \<open>Floats\<close>

datatype pyfloat = Fin int int | PInf | NInf | NaN

fun strip_zeros :: "nat \<Rightarrow> int \<Rightarrow> nat \<times> int" where
  "strip_zeros a e = (if a \<noteq> 0 \<and> a mod 10 = 0 then strip_zeros (a div 10) (e + 1) else (a, e))"

declare strip_zeros.simps [simp del]

text \<open>The double denoted by the decimal \<open>(-1)^neg * a * 10 ^ e\<close>.\<close>

definition pf_mk :: "bool \<Rightarrow> nat \<Rightarrow> int \<Rightarrow> pyfloat" where
  "pf_mk neg a e = (let (b, k) = strip_zeros a e in
                    if b = 0 then Fin 0 0 else Fin (if neg then - int b else int b) k)"

primrec pf_canon :: "pyfloat \<Rightarrow> bool" where
  "pf_canon (Fin m e) = (if m = 0 then e = 0 else \<not> 10 dvd m)"
| "pf_canon PInf = True"
| "pf_canon NInf = True"
| "pf_canon NaN = True"

text \<open>\<open>x.is_integer()\<close>, and \<open>int(x)\<close> (truncation towards zero), which the
  exporter applies only where \<open>is_integer\<close> holds, hence to finite values.\<close>

primrec pf_is_integer :: "pyfloat \<Rightarrow> bool" where
  "pf_is_integer (Fin m e) = (0 \<le> e \<or> (10::int) ^ nat (- e) dvd m)"
| "pf_is_integer PInf = False"
| "pf_is_integer NInf = False"
| "pf_is_integer NaN = False"

primrec pf_trunc :: "pyfloat \<Rightarrow> int" where
  "pf_trunc (Fin m e) = (if 0 \<le> e then m * 10 ^ nat e else sgn m * (\<bar>m\<bar> div 10 ^ nat (- e)))"
| "pf_trunc PInf = 0"
| "pf_trunc NInf = 0"
| "pf_trunc NaN = 0"

text \<open>\<open>repr(x)\<close> (which \<open>str\<close> is for floats), after CPython's
  \<open>format_float_short\<close> in mode \<open>'r'\<close>: the digits \<open>ds\<close> with the decimal
  point at position \<open>decpt\<close>; exponent notation when \<open>decpt \<le> -4\<close> or
  \<open>decpt > 16\<close>, with an exponent of at least two digits; \<open>.0\<close> appended
  when no point is printed otherwise.\<close>

definition exp_str :: "int \<Rightarrow> string" where
  "exp_str k = (if k < 0 then CHR ''-'' else CHR ''+'') #
     (let ds = digits_nat (nat \<bar>k\<bar>) in if length ds < 2 then CHR ''0'' # ds else ds)"

definition repr_digits :: "string \<Rightarrow> int \<Rightarrow> string" where
  "repr_digits ds decpt =
     (let n = int (length ds) in
      if decpt \<le> -4 \<or> 16 < decpt then
        hd ds # (if tl ds = [] then [] else CHR ''.'' # tl ds) @ CHR ''e'' # exp_str (decpt - 1)
      else if decpt \<le> 0 then CHR ''0'' # CHR ''.'' # replicate (nat (- decpt)) (CHR ''0'') @ ds
      else if n \<le> decpt then ds @ replicate (nat (decpt - n)) (CHR ''0'') @ ''.0''
      else take (nat decpt) ds @ CHR ''.'' # drop (nat decpt) ds)"

primrec py_repr :: "pyfloat \<Rightarrow> string" where
  "py_repr (Fin m e) = (if m < 0 then ''-'' else []) @
     (let ds = digits_nat (nat \<bar>m\<bar>) in repr_digits ds (int (length ds) + e))"
| "py_repr PInf = ''inf''"
| "py_repr NInf = ''-inf''"
| "py_repr NaN = ''nan''"

text \<open>\<open>float(s)\<close>: surrounding whitespace, an optional sign, then
  \<open>inf\<close>, \<open>infinity\<close> or \<open>nan\<close> in any ASCII case, or a decimal literal
  \<open>digitpart ["." [digitpart]] | "." digitpart\<close> with an optional exponent.\<close>

definition ascii_lower :: "string \<Rightarrow> string" where
  "ascii_lower s = map (\<lambda>c. if 65 \<le> (of_char c :: nat) \<and> (of_char c :: nat) \<le> 90
                             then char_of ((of_char c :: nat) + 32) else c) s"

definition parse_exponent :: "string \<Rightarrow> int option" where
  "parse_exponent r =
     (case r of [] \<Rightarrow> Some 0
      | c # r' \<Rightarrow>
          if c = CHR ''e'' \<or> c = CHR ''E'' then
            (let (neg, u) = py_sign r'; (ds, rest) = scan_digitpart u
             in if ds \<noteq> [] \<and> rest = []
                then Some (if neg then - int (nat_of_digits ds) else int (nat_of_digits ds))
                else None)
          else None)"

definition parse_decimal :: "string \<Rightarrow> (nat \<times> int) option" where
  "parse_decimal u =
     (let (ip, r1) = scan_digitpart u in
      case r1 of
        [] \<Rightarrow> if ip = [] then None else Some (nat_of_digits ip, 0)
      | c # r2 \<Rightarrow>
          if c = CHR ''.'' then
            (let (fp, r3) = scan_digitpart r2 in
             if ip = [] \<and> fp = [] then None
             else map_option (\<lambda>x. (nat_of_digits (ip @ fp), x - int (length fp))) (parse_exponent r3))
          else if ip = [] then None
          else map_option (\<lambda>x. (nat_of_digits ip, x)) (parse_exponent r1))"

definition py_float :: "string \<Rightarrow> pyfloat res" where
  "py_float s =
     (let (neg, u) = py_sign (py_strip s) in
      if ascii_lower u = ''inf'' \<or> ascii_lower u = ''infinity'' then Inr (if neg then NInf else PInf)
      else if ascii_lower u = ''nan'' then Inr NaN
      else case parse_decimal u of
             None \<Rightarrow> Inl ValueError
           | Some (a, e) \<Rightarrow> Inr (pf_mk neg a e))"

subsection \<open>Digits and their values\<close>

lemma is_digit_digit_chr [simp]: "d < 10 \<Longrightarrow> is_digit (digit_chr d)"
  by (simp add: is_digit_def digit_chr_def)

lemma digit_val_digit_chr [simp]: "d < 10 \<Longrightarrow> digit_val (digit_chr d) = d"
  by (simp add: digit_val_def digit_chr_def)

lemma digit_chr_0: "digit_chr 0 = CHR ''0''"
  by (simp add: digit_chr_def char_of_eq_iff)

lemma digits_nat_is_digit: "c \<in> set (digits_nat n) \<Longrightarrow> is_digit c"
proof (induction n rule: digits_nat.induct)
  case (1 n)
  then show ?case
    by (cases "n < 10") (auto simp: digits_nat.simps [of n])
qed

lemma digits_nat_ne [simp]: "digits_nat n \<noteq> []"
  by (simp add: digits_nat.simps)

lemma nat_of_digits_snoc [simp]:
  "nat_of_digits (ds @ [c]) = 10 * nat_of_digits ds + digit_val c"
  by (simp add: nat_of_digits_def)

lemma nat_of_digits_Nil [simp]: "nat_of_digits [] = 0"
  by (simp add: nat_of_digits_def)

lemma nat_of_digits_single [simp]: "nat_of_digits [c] = digit_val c"
  by (simp add: nat_of_digits_def)

lemma nat_of_digits_digits_nat [simp]: "nat_of_digits (digits_nat n) = n"
proof (induction n rule: digits_nat.induct)
  case (1 n)
  then show ?case
    by (cases "n < 10") (simp_all add: digits_nat.simps [of n])
qed

lemma nat_of_digits_append:
  "nat_of_digits (xs @ ys) = nat_of_digits xs * 10 ^ length ys + nat_of_digits ys"
proof (induction ys rule: rev_induct)
  case Nil
  then show ?case by simp
next
  case (snoc y ys)
  then show ?case
    by (simp only: append_assoc [symmetric] nat_of_digits_snoc) (simp add: algebra_simps)
qed

lemma nat_of_digits_zeros [simp]: "nat_of_digits (replicate k (CHR ''0'')) = 0"
  by (induction k) (simp_all add: replicate_append_same [symmetric] digit_val_def del: replicate_append_same)

lemma nat_of_digits_Cons_zero [simp]: "nat_of_digits (CHR ''0'' # ds) = nat_of_digits ds"
  using nat_of_digits_append [of "[CHR ''0'']" ds] by (simp add: digit_val_def)

lemma scan_more_digits:
  "list_all is_digit ds \<Longrightarrow> scan_stop r \<Longrightarrow> scan_more (ds @ r) = (ds, r)"
proof (induction ds)
  case Nil
  then show ?case
    by (cases r rule: scan_more.cases) (auto simp: scan_stop_def)
next
  case (Cons x xs)
  then show ?case
    by (cases "xs @ r") auto
qed

lemma scan_digitpart_digits:
  "ds \<noteq> [] \<Longrightarrow> list_all is_digit ds \<Longrightarrow> scan_stop r \<Longrightarrow> scan_digitpart (ds @ r) = (ds, r)"
  by (cases ds) (auto simp: scan_digitpart_def scan_more_digits)

lemma scan_digitpart_nondigit:
  "\<not> is_digit c \<Longrightarrow> scan_digitpart (c # cs) = ([], c # cs)"
  by (simp add: scan_digitpart_def)

lemma scan_digitpart_Nil [simp]: "scan_digitpart [] = ([], [])"
  by (simp add: scan_digitpart_def)

lemma scan_stop_simps [simp]:
  "scan_stop []"
  "scan_stop (CHR ''.'' # r)"
  "scan_stop (CHR ''e'' # r)"
  by (simp_all add: scan_stop_def is_digit_def)

lemma list_all_digits_nat [simp]: "list_all is_digit (digits_nat n)"
  by (simp add: list_all_iff digits_nat_is_digit)

lemma is_digit_zero [simp]: "is_digit (CHR ''0'')"
  by (simp add: is_digit_def)

lemma list_all_zeros [simp]: "list_all is_digit (replicate z (CHR ''0''))"
  by (simp add: list_all_iff)

lemma digit_not_space: "is_digit c \<Longrightarrow> \<not> py_isspace c"
  by (auto simp: is_digit_def py_isspace_def)

lemma py_strip_id:
  "(\<forall>c\<in>set s. \<not> py_isspace c) \<Longrightarrow> py_strip s = s"
proof -
  assume ns: "\<forall>c\<in>set s. \<not> py_isspace c"
  then have "dropWhile py_isspace (rev s) = rev s"
    by (cases "rev s") auto
  moreover have "dropWhile py_isspace s = s"
    using ns by (cases s) auto
  ultimately show ?thesis
    by (simp add: py_strip_def py_lstrip_def py_rstrip_def)
qed

lemma py_sign_digit: "is_digit c \<Longrightarrow> py_sign (c # s) = (False, c # s)"
  by (auto simp: py_sign_def is_digit_def)

lemma py_sign_minus [simp]: "py_sign (CHR ''-'' # s) = (True, s)"
  by (simp add: py_sign_def)

lemma py_sign_plus [simp]: "py_sign (CHR ''+'' # s) = (False, s)"
  by (simp add: py_sign_def)

lemma ascii_lower_digit_hd:
  "is_digit c \<Longrightarrow> ascii_lower (c # s) = c # ascii_lower s"
  by (auto simp: ascii_lower_def is_digit_def)

lemma digit_not_special:
  "is_digit c \<Longrightarrow> ascii_lower (c # s) \<noteq> ''inf'' \<and> ascii_lower (c # s) \<noteq> ''infinity'' \<and> ascii_lower (c # s) \<noteq> ''nan''"
  by (auto simp: ascii_lower_digit_hd is_digit_def)

subsection \<open>Normalisation of decimals\<close>

lemma strip_zeros_id: "a = 0 \<or> \<not> 10 dvd a \<Longrightarrow> strip_zeros a e = (a, e)"
  by (subst strip_zeros.simps) auto

lemma strip_zeros_mult:
  "a \<noteq> 0 \<Longrightarrow> strip_zeros (a * 10 ^ k) e = strip_zeros a (e + int k)"
proof (induction k arbitrary: e)
  case 0
  then show ?case by simp
next
  case (Suc k)
  have "strip_zeros (a * 10 ^ Suc k) e = strip_zeros (a * 10 ^ k) (e + 1)"
    using Suc.prems by (subst strip_zeros.simps) (simp add: mult.assoc [symmetric])
  also have "\<dots> = strip_zeros a (e + int (Suc k))"
    using Suc by (simp add: add.assoc)
  finally show ?case .
qed

lemma pf_mk_canon:
  "m \<noteq> 0 \<Longrightarrow> \<not> 10 dvd m \<Longrightarrow> pf_mk (m < 0) (nat \<bar>m\<bar>) e = Fin m e"
proof -
  assume m: "m \<noteq> 0" "\<not> 10 dvd m"
  then have "\<not> (10::nat) dvd nat \<bar>m\<bar>"
    using int_dvd_int_iff [of 10 "nat \<bar>m\<bar>"] by simp
  then have "strip_zeros (nat \<bar>m\<bar>) e = (nat \<bar>m\<bar>, e)"
    by (simp add: strip_zeros_id)
  with m show ?thesis
    by (simp add: pf_mk_def)
qed

lemma pf_mk_zero [simp]: "pf_mk neg 0 e = Fin 0 0"
  by (simp add: pf_mk_def strip_zeros_id)

subsection \<open>Parsing what repr prints\<close>

lemma list_all_digits_exp:
  "list_all is_digit (if length ds < 2 then CHR ''0'' # ds else ds) \<longleftrightarrow> list_all is_digit ds"
  by simp

lemma parse_exponent_exp_str: "parse_exponent (CHR ''e'' # exp_str k) = Some k"
proof -
  define d where "d = digits_nat (nat \<bar>k\<bar>)"
  define g where "g = (if length d < 2 then CHR ''0'' # d else d)"
  have g: "g \<noteq> []" "list_all is_digit g" "nat_of_digits g = nat \<bar>k\<bar>"
    by (simp_all add: g_def d_def)
  have sc: "scan_digitpart g = (g, [])"
    using scan_digitpart_digits [of g "[]"] g by simp
  have es: "exp_str k = (if k < 0 then CHR ''-'' else CHR ''+'') # g"
    by (simp add: exp_str_def g_def d_def Let_def)
  show ?thesis
    using g sc by (simp add: parse_exponent_def es)
qed

lemma parse_decimal_sci:
  assumes "ds \<noteq> []" "list_all is_digit ds"
  shows "parse_decimal (hd ds # (if tl ds = [] then [] else CHR ''.'' # tl ds) @ CHR ''e'' # exp_str k)
         = Some (nat_of_digits ds, k - int (length ds - 1))"
proof (cases ds)
  case Nil
  with assms show ?thesis by simp
next
  case (Cons c cs)
  with assms have c: "is_digit c" and cs: "list_all is_digit cs" by simp_all
  show ?thesis
  proof (cases "cs = []")
    case True
    have "scan_digitpart ([c] @ CHR ''e'' # exp_str k) = ([c], CHR ''e'' # exp_str k)"
      using c by (intro scan_digitpart_digits) simp_all
    then show ?thesis
      using Cons True by (simp add: parse_decimal_def parse_exponent_exp_str)
  next
    case False
    have s1: "scan_digitpart ([c] @ CHR ''.'' # cs @ CHR ''e'' # exp_str k)
              = ([c], CHR ''.'' # cs @ CHR ''e'' # exp_str k)"
      using c by (intro scan_digitpart_digits) simp_all
    have s2: "scan_digitpart (cs @ CHR ''e'' # exp_str k) = (cs, CHR ''e'' # exp_str k)"
      using cs False by (intro scan_digitpart_digits) simp_all
    show ?thesis
      using Cons False s1 s2
      by (simp add: parse_decimal_def parse_exponent_exp_str)
  qed
qed

lemma parse_decimal_small:
  assumes "ds \<noteq> []" "list_all is_digit ds"
  shows "parse_decimal (CHR ''0'' # CHR ''.'' # replicate z (CHR ''0'') @ ds)
         = Some (nat_of_digits ds, - int (z + length ds))"
proof -
  have s1: "scan_digitpart ([CHR ''0''] @ CHR ''.'' # replicate z (CHR ''0'') @ ds)
            = ([CHR ''0''], CHR ''.'' # replicate z (CHR ''0'') @ ds)"
    by (intro scan_digitpart_digits) simp_all
  have s2: "scan_digitpart ((replicate z (CHR ''0'') @ ds) @ [])
            = (replicate z (CHR ''0'') @ ds, [])"
    using assms by (intro scan_digitpart_digits) simp_all
  show ?thesis
    using s1 s2 by (simp add: parse_decimal_def parse_exponent_def nat_of_digits_append)
qed

lemma parse_decimal_point:
  assumes "0 < k" "k < length ds" "list_all is_digit ds"
  shows "parse_decimal (take k ds @ CHR ''.'' # drop k ds)
         = Some (nat_of_digits ds, - int (length ds - k))"
proof -
  have d: "list_all is_digit (take k ds)" "list_all is_digit (drop k ds)"
    using assms(3) by (auto simp: list_all_iff dest: in_set_takeD in_set_dropD)
  have s1: "scan_digitpart (take k ds @ CHR ''.'' # drop k ds) = (take k ds, CHR ''.'' # drop k ds)"
    using assms d by (intro scan_digitpart_digits) auto
  have s2: "scan_digitpart (drop k ds @ []) = (drop k ds, [])"
    using assms d by (intro scan_digitpart_digits) auto
  have "take k ds \<noteq> []"
    using assms by auto
  then show ?thesis
    using s1 s2 assms by (simp add: parse_decimal_def parse_exponent_def nat_of_digits_append [symmetric])
qed

lemma parse_decimal_whole:
  assumes "ds \<noteq> []" "list_all is_digit ds"
  shows "parse_decimal (ds @ replicate z (CHR ''0'') @ ''.0'')
         = Some (nat_of_digits ds * 10 ^ Suc z, -1)"
proof -
  have s1: "scan_digitpart ((ds @ replicate z (CHR ''0'')) @ ''.0'')
            = (ds @ replicate z (CHR ''0''), ''.0'')"
    using assms by (intro scan_digitpart_digits) simp_all
  have s2: "scan_digitpart (''0'' @ []) = (''0'', [])"
    by (intro scan_digitpart_digits) simp_all
  have v: "nat_of_digits ((ds @ replicate z (CHR ''0'')) @ ''0'') = nat_of_digits ds * 10 ^ Suc z"
    by (simp add: nat_of_digits_append digit_val_def)
  show ?thesis
    using s1 s2 v by (simp add: parse_decimal_def parse_exponent_def)
qed

lemma parse_decimal_repr_digits:
  assumes "ds \<noteq> []" "list_all is_digit ds"
  shows "\<exists>k. parse_decimal (repr_digits ds decpt)
             = Some (nat_of_digits ds * 10 ^ k, decpt - int (length ds) - int k)"
proof -
  consider (sci) "decpt \<le> -4 \<or> 16 < decpt"
    | (small) "\<not> (decpt \<le> -4 \<or> 16 < decpt)" "decpt \<le> 0"
    | (whole) "\<not> (decpt \<le> -4 \<or> 16 < decpt)" "0 < decpt" "int (length ds) \<le> decpt"
    | (point) "\<not> (decpt \<le> -4 \<or> 16 < decpt)" "0 < decpt" "decpt < int (length ds)"
    by linarith
  then show ?thesis
  proof cases
    case sci
    have "1 \<le> length ds"
      using assms(1) by (cases ds) simp_all
    then show ?thesis
      using sci parse_decimal_sci [OF assms, of "decpt - 1"]
      by (intro exI [of _ 0]) (simp add: repr_digits_def Let_def of_nat_diff)
  next
    case small
    then show ?thesis
      using parse_decimal_small [OF assms, of "nat (- decpt)"]
      by (intro exI [of _ 0]) (simp add: repr_digits_def Let_def)
  next
    case whole
    then show ?thesis
      using parse_decimal_whole [OF assms, of "nat (decpt - int (length ds))"]
      by (intro exI [of _ "Suc (nat (decpt - int (length ds)))"]) (simp add: repr_digits_def Let_def)
  next
    case point
    then have "0 < nat decpt" "nat decpt < length ds"
      by linarith+
    then show ?thesis
      using point parse_decimal_point [OF _ _ assms(2), of "nat decpt"]
      by (intro exI [of _ 0]) (simp add: repr_digits_def Let_def of_nat_diff)
  qed
qed

subsection \<open>Shape of what repr prints\<close>

lemma repr_digits_hd:
  assumes "ds \<noteq> []" "list_all is_digit ds"
  shows "\<exists>c s. repr_digits ds decpt = c # s \<and> is_digit c"
proof -
  obtain c cs where ds: "ds = c # cs" and c: "is_digit c"
    using assms by (cases ds) auto
  show ?thesis
    by (cases "decpt \<le> -4 \<or> 16 < decpt"; cases "decpt \<le> 0"; cases "int (length ds) \<le> decpt")
       (auto simp: repr_digits_def Let_def ds c take_Cons')
qed

lemma in_set_tlD: "x \<in> set (tl xs) \<Longrightarrow> x \<in> set xs"
  by (cases xs) auto

lemma exp_str_chars: "c \<in> set (exp_str k) \<Longrightarrow> is_digit c \<or> c = CHR ''-'' \<or> c = CHR ''+''"
  by (auto simp: exp_str_def Let_def digits_nat_is_digit split: if_splits)

lemma set_repr_digits:
  "ds \<noteq> [] \<Longrightarrow> set (repr_digits ds decpt) \<subseteq> set ds \<union> {CHR ''.'', CHR ''e'', CHR ''0''} \<union> set (exp_str (decpt - 1))"
  by (auto simp: repr_digits_def Let_def dest: in_set_takeD in_set_dropD in_set_tlD)

lemma repr_digits_chars:
  assumes "ds \<noteq> []" "list_all is_digit ds" "c \<in> set (repr_digits ds decpt)"
  shows "is_digit c \<or> c \<in> {CHR ''.'', CHR ''e'', CHR ''-'', CHR ''+''}"
proof -
  have "c \<in> set ds \<union> {CHR ''.'', CHR ''e'', CHR ''0''} \<union> set (exp_str (decpt - 1))"
    using set_repr_digits [OF assms(1)] assms(3) by blast
  then show ?thesis
    using assms(2) by (auto simp: list_all_iff dest: exp_str_chars)
qed

lemma repr_char_not_space:
  assumes "is_digit c \<or> c \<in> {CHR ''.'', CHR ''e'', CHR ''-'', CHR ''+''}"
  shows "\<not> py_isspace c"
proof (cases "is_digit c")
  case True
  then show ?thesis by (rule digit_not_space)
next
  case False
  with assms show ?thesis by (auto simp: py_isspace_def)
qed

subsection \<open>Round trips\<close>

lemma pf_mk_mult:
  "a \<noteq> 0 \<Longrightarrow> pf_mk neg (a * 10 ^ k) e = pf_mk neg a (e + int k)"
  by (simp add: pf_mk_def strip_zeros_mult)

lemma digits_chars_not_space:
  "list_all is_digit ds \<Longrightarrow> \<forall>c\<in>set ds. \<not> py_isspace c"
  by (auto simp: list_all_iff digit_not_space)

lemma parse_decimal_digits:
  "ds \<noteq> [] \<Longrightarrow> list_all is_digit ds \<Longrightarrow> parse_decimal ds = Some (nat_of_digits ds, 0)"
  using scan_digitpart_digits [of ds "[]"] by (simp add: parse_decimal_def)

text \<open>Reading back a finite decimal whose text starts with a digit.\<close>

lemma py_float_signed_body:
  assumes "body = c # s" "is_digit c" "\<forall>x\<in>set body. \<not> py_isspace x"
    and "parse_decimal body = Some (a, e)"
  shows "py_float ((if neg then ''-'' else []) @ body) = Inr (pf_mk neg a e)"
proof -
  define pre where "pre = (if neg then ''-'' else [])"
  have "\<forall>x\<in>set (pre @ body). \<not> py_isspace x"
    using assms(3) by (auto simp: py_isspace_def pre_def)
  then have st: "py_strip (pre @ body) = pre @ body"
    by (rule py_strip_id)
  have sg: "py_sign (pre @ body) = (neg, body)"
    using assms(1,2) by (simp add: py_sign_digit pre_def)
  have "py_float (pre @ body) = Inr (pf_mk neg a e)"
    unfolding py_float_def st sg Let_def
    using assms(1,2,4) digit_not_special [OF assms(2), of s] by simp
  then show ?thesis
    by (simp only: pre_def)
qed

theorem py_float_repr:
  assumes "pf_canon x"
  shows "py_float (py_repr x) = Inr x"
proof (cases x)
  case (Fin m e)
  define a where "a = nat \<bar>m\<bar>"
  define ds where "ds = digits_nat a"
  define body where "body = repr_digits ds (int (length ds) + e)"
  have ds: "ds \<noteq> []" "list_all is_digit ds" "nat_of_digits ds = a"
    by (simp_all add: ds_def)
  obtain c s where cs: "body = c # s" "is_digit c"
    using repr_digits_hd [OF ds(1,2)] body_def by blast
  have sp: "\<forall>x\<in>set body. \<not> py_isspace x"
    using repr_digits_chars [OF ds(1,2)] repr_char_not_space body_def by blast
  obtain k where k: "parse_decimal body = Some (a * 10 ^ k, e - int k)"
    using parse_decimal_repr_digits [OF ds(1,2), of "int (length ds) + e"] ds(3) body_def
    by auto
  have r: "py_repr x = (if m < 0 then ''-'' else []) @ body"
    by (simp add: Fin body_def ds_def a_def Let_def)
  have "pf_mk (m < 0) (a * 10 ^ k) (e - int k) = Fin m e"
  proof (cases "m = 0")
    case True
    with assms Fin show ?thesis by (simp add: a_def)
  next
    case False
    with assms Fin have "\<not> 10 dvd m" by simp
    with False show ?thesis
      by (simp add: pf_mk_mult a_def pf_mk_canon)
  qed
  then show ?thesis
    using py_float_signed_body [OF cs sp k, of "m < 0"] r Fin by simp
next
  case PInf
  then show ?thesis
    by (simp add: py_float_def py_strip_def py_lstrip_def py_rstrip_def py_isspace_def
                  py_sign_def ascii_lower_def)
next
  case NInf
  then show ?thesis
    by (simp add: py_float_def py_strip_def py_lstrip_def py_rstrip_def py_isspace_def
                  py_sign_def ascii_lower_def)
next
  case NaN
  then show ?thesis
    by (simp add: py_float_def py_strip_def py_lstrip_def py_rstrip_def py_isspace_def
                  py_sign_def ascii_lower_def)
qed

lemma py_str_int_shape:
  "py_str_int i = (if i < 0 then ''-'' else []) @ digits_nat (nat \<bar>i\<bar>)"
  by (simp add: py_str_int_def)

theorem py_float_str_int:
  "py_float (py_str_int i) = Inr (pf_mk (i < 0) (nat \<bar>i\<bar>) 0)"
proof -
  obtain c s where cs: "digits_nat (nat \<bar>i\<bar>) = c # s"
    by (cases "digits_nat (nat \<bar>i\<bar>)") auto
  have c: "is_digit c" and d: "list_all is_digit (c # s)"
    using list_all_digits_nat [of "nat \<bar>i\<bar>"] cs by simp_all
  have v: "nat_of_digits (c # s) = nat \<bar>i\<bar>"
    using nat_of_digits_digits_nat [of "nat \<bar>i\<bar>"] cs by simp
  have "py_float ((if i < 0 then ''-'' else []) @ c # s) = Inr (pf_mk (i < 0) (nat_of_digits (c # s)) 0)"
    by (rule py_float_signed_body [OF refl c digits_chars_not_space [OF d] parse_decimal_digits [OF _ d]]) simp
  then show ?thesis
    by (simp only: py_str_int_shape cs v)
qed

theorem py_int_str_int: "py_int (py_str_int i) = Inr i"
proof -
  obtain c s where cs: "digits_nat (nat \<bar>i\<bar>) = c # s"
    by (cases "digits_nat (nat \<bar>i\<bar>)") auto
  have c: "is_digit c"
    using list_all_digits_nat [of "nat \<bar>i\<bar>"] cs by simp
  have sp: "\<forall>x\<in>set (py_str_int i). \<not> py_isspace x"
    using digits_chars_not_space [OF list_all_digits_nat [of "nat \<bar>i\<bar>"]]
    by (auto simp: py_str_int_shape py_isspace_def)
  have sg: "py_sign (py_str_int i) = (i < 0, digits_nat (nat \<bar>i\<bar>))"
    using c by (simp add: py_str_int_shape cs py_sign_digit)
  have sc: "scan_digitpart (digits_nat (nat \<bar>i\<bar>) @ []) = (digits_nat (nat \<bar>i\<bar>), [])"
    by (intro scan_digitpart_digits) simp_all
  show ?thesis
    using sc by (simp add: py_int_def py_strip_id [OF sp] sg)
qed

subsection \<open>Splitting, parse errors and separators\<close>

lemma py_split_ne [simp]: "py_split c s \<noteq> []"
  by (induction s) (auto simp: Let_def)

lemma py_split_no_sep: "c \<notin> set w \<Longrightarrow> py_split c w = [w]"
  by (induction w) (auto simp: Let_def)

lemma py_split_append_sep:
  "c \<notin> set w \<Longrightarrow> py_split c (w @ c # r) = w # py_split c r"
  by (induction w) (auto simp: Let_def)

lemma py_split_last_empty:
  "s = [] \<or> last s = c \<Longrightarrow> last (py_split c s) = []"
proof (induction s)
  case Nil
  then show ?case by simp
next
  case (Cons x xs)
  then show ?case
    by (cases xs) (auto simp: Let_def)
qed

lemma py_float_Nil [simp]: "py_float [] = Inl ValueError"
  by (simp add: py_float_def py_strip_def py_lstrip_def py_rstrip_def py_sign_def
                ascii_lower_def parse_decimal_def)

lemma py_int_Nil [simp]: "py_int [] = Inl ValueError"
  by (simp add: py_int_def py_strip_def py_lstrip_def py_rstrip_def py_sign_def)

lemma py_float_Inl: "py_float s = Inl e \<Longrightarrow> e = ValueError"
  by (auto simp: py_float_def Let_def split: if_splits option.splits prod.splits)

lemma py_int_Inl: "py_int s = Inl e \<Longrightarrow> e = ValueError"
  by (auto simp: py_int_def Let_def split: if_splits prod.splits)

lemma map_res_last_empty:
  assumes "f [] = Inl E" "\<And>x e. f x = Inl e \<Longrightarrow> e = E" "s = [] \<or> last s = CHR '' ''"
  shows "map_res f (py_split CHR '' '' s) = Inl E"
proof -
  obtain e where "map_res f (py_split CHR '' '' s) = Inl e"
    using map_res_last_Inl [of "py_split CHR '' '' s" f E] assms(1) py_split_last_empty [OF assms(3)]
    by auto
  moreover have "e = E"
    by (rule map_res_Inl_same [of f E, OF assms(2) calculation])
  ultimately show ?thesis by simp
qed

lemma space_not_digit: "\<not> is_digit CHR '' ''"
  by (simp add: is_digit_def)

lemma py_repr_no_space: "CHR '' '' \<notin> set (py_repr x)"
proof (cases x)
  case (Fin m e)
  let ?ds = "digits_nat (nat \<bar>m\<bar>)"
  have "CHR '' '' \<notin> set (repr_digits ?ds (int (length ?ds) + e))"
    using repr_digits_chars [of ?ds "CHR '' ''" "int (length ?ds) + e"] space_not_digit by auto
  with Fin show ?thesis
    by (simp add: Let_def)
qed simp_all

lemma py_str_int_no_space: "CHR '' '' \<notin> set (py_str_int i)"
  using digits_nat_is_digit space_not_digit by (auto simp: py_str_int_def)

lemma py_split_spaced_append:
  "(\<And>x. x \<in> set xs \<Longrightarrow> CHR '' '' \<notin> set (f x)) \<Longrightarrow>
   py_split CHR '' '' (spaced f xs @ r) = map f xs @ py_split CHR '' '' r"
  by (induction xs) (simp_all add: py_split_append_sep)

lemma py_split_spaced_trimmed:
  assumes "\<And>x. CHR '' '' \<notin> set (f x)" "xs \<noteq> []"
  shows "spaced f xs = butlast (spaced f xs) @ '' ''
         \<and> py_split CHR '' '' (butlast (spaced f xs)) = map f xs"
proof -
  obtain ys y where xs: "xs = ys @ [y]"
    using assms(2) by (cases xs rule: rev_cases) auto
  have "butlast (spaced f xs) = spaced f ys @ f y"
    by (simp add: xs butlast_append)
  moreover have "py_split CHR '' '' (spaced f ys @ f y) = map f ys @ [f y]"
    using py_split_spaced_append [of ys f "f y"] py_split_no_sep [of "CHR '' ''" "f y"] assms(1)
    by simp
  ultimately show ?thesis
    by (simp add: xs)
qed

end
