(* ===== verification/Blender.thy ===== *)
theory Blender
  imports PyStr
begin

text \<open>
  The host's data the add-on reads and writes, as the add-on sees it through
  \<open>bpy\<close> and \<open>bmesh\<close>.  This is the environment of the code, not code of the
  repository: it is stated after the Blender Python API's documented behaviour
  and kept to what the add-on touches.
  \<^item> A mesh (\<open>obj.data\<close>): vertices with a coordinate triple and a select
    flag, edges with their two vertex indices, polygons with their vertex
    indices in winding order, and the three integer attributes
    \<open>vertex_subset\<close>, \<open>edge_subset\<close>, \<open>face_subset\<close> (one value per element,
    or absent), plus whether an edit-mode BMesh exists for it.  The edit BMesh is
    taken to agree with \<open>obj.data\<close> and its lookup tables to be valid.
  \<^item> A subset (\<open>UGXSubset\<close>, \<open>subsets.py\<close>): a name, an index and an RGBA
    colour; \<open>collection.add()\<close> appends one with the property defaults.
  \<^item> The scene properties registered in \<open>__init__.py\<close>: the subset collection,
    \<open>active_subset\<close>, \<open>ugx_properties.current_subset\<close>,
    \<open>ugx_properties.view_check\<close>, and the objects linked to the scene.
  \<^item> A BMesh built by the importer: vertex coordinates, edges, faces and the
    integer layers, one value per element (a layer the code has not created yet
    is all zeros, which is what \<open>layers.int.new\<close> gives it).  \<open>edges.new\<close> and \<open>faces.new\<close> raise ValueError on a
    repeated vertex or an element that exists; \<open>faces.new\<close> first creates the
    missing boundary edges, from the last vertex to the first and then along the
    face; new elements get 0 in every existing integer layer.
  Coordinates and colours are stored single precision by Blender; the model keeps
  the value it is given, which is exact for the values the exporter reads back.
\<close>

record mvert =
  co :: "pyfloat list"
  vselect :: bool

record medge =
  evertices :: "nat \<times> nat"
  eselect :: bool

record mpoly =
  pvertices :: "nat list"
  pselect :: bool

record mesh =
  m_verts :: "mvert list"
  m_edges :: "medge list"
  m_polys :: "mpoly list"
  vertex_subset :: "int list option"
  edge_subset :: "int list option"
  face_subset :: "int list option"
  in_edit_mode :: bool

record ugx_subset =
  s_name :: string
  s_index :: int
  s_color :: "pyfloat list"

record scene =
  ugx_subsets :: "ugx_subset list"
  active_subset :: int
  current_subset :: int
  view_check :: bool
  scene_objects :: "(string \<times> mesh) list"

text \<open>\<open>FloatVectorProperty(size=4, min=0.0, max=1.0, default=(0,0,0,1))\<close>:
  assigning a sequence of another length raises ValueError; each component is
  clamped to the hard range (NaN passes through, as C's comparison-based clamp
  lets it).\<close>

definition default_subset :: ugx_subset where
  "default_subset = \<lparr>s_name = [], s_index = 0, s_color = [Fin 0 0, Fin 0 0, Fin 0 0, Fin 1 0]\<rparr>"

primrec pf_below0 :: "pyfloat \<Rightarrow> bool" where
  "pf_below0 (Fin m e) = (m < 0)"
| "pf_below0 PInf = False"
| "pf_below0 NInf = True"
| "pf_below0 NaN = False"

primrec pf_above1 :: "pyfloat \<Rightarrow> bool" where
  "pf_above1 (Fin m e) = (if 0 \<le> e then 1 < m * 10 ^ nat e else 10 ^ nat (- e) < m)"
| "pf_above1 PInf = True"
| "pf_above1 NInf = False"
| "pf_above1 NaN = False"

definition clamp01 :: "pyfloat \<Rightarrow> pyfloat" where
  "clamp01 x = (if pf_below0 x then Fin 0 0 else if pf_above1 x then Fin 1 0 else x)"

definition set_color :: "pyfloat list \<Rightarrow> ugx_subset \<Rightarrow> ugx_subset res" where
  "set_color cs s = (if length cs = 4 then Inr (s\<lparr>s_color := map clamp01 cs\<rparr>) else Inl ValueError)"

subsection \<open>A BMesh under construction\<close>

record bmesh =
  bm_verts :: "pyfloat list list"
  bm_edges :: "(nat \<times> nat) list"
  bm_faces :: "nat list list"
  bm_vlayer :: "int list"
  bm_elayer :: "int list"
  bm_flayer :: "int list"

definition bmesh_new :: bmesh where
  "bmesh_new = \<lparr>bm_verts = [], bm_edges = [], bm_faces = [],
                bm_vlayer = [], bm_elayer = [], bm_flayer = []\<rparr>"

definition bm_vert_new :: "pyfloat list \<Rightarrow> bmesh \<Rightarrow> bmesh" where
  "bm_vert_new c bm = bm\<lparr>bm_verts := bm_verts bm @ [c],
                         bm_vlayer := bm_vlayer bm @ [0]\<rparr>"

definition bm_edge_exists :: "nat \<Rightarrow> nat \<Rightarrow> bmesh \<Rightarrow> bool" where
  "bm_edge_exists a b bm \<longleftrightarrow> (a, b) \<in> set (bm_edges bm) \<or> (b, a) \<in> set (bm_edges bm)"

definition bm_edge_add :: "nat \<Rightarrow> nat \<Rightarrow> bmesh \<Rightarrow> bmesh" where
  "bm_edge_add a b bm = bm\<lparr>bm_edges := bm_edges bm @ [(a, b)],
                           bm_elayer := bm_elayer bm @ [0]\<rparr>"

text \<open>\<open>bm.edges.new([va, vb])\<close>.\<close>

definition bm_edge_new :: "nat \<Rightarrow> nat \<Rightarrow> bmesh \<Rightarrow> bmesh res" where
  "bm_edge_new a b bm =
     (if a = b then Inl ValueError
      else if bm_edge_exists a b bm then Inl ValueError
      else Inr (bm_edge_add a b bm))"

text \<open>The boundary edges a face creates, \<open>BM_edges_from_verts_ensure\<close>: the
  pairs \<open>(v[i-1], v[i])\<close> for \<open>i = 0, 1, ...\<close>, with \<open>v[-1]\<close> the last
  vertex, each added only if no edge joins its vertices yet.\<close>

definition face_boundary :: "nat list \<Rightarrow> (nat \<times> nat) list" where
  "face_boundary vs = zip (last vs # butlast vs) vs"

fun bm_edges_ensure :: "(nat \<times> nat) list \<Rightarrow> bmesh \<Rightarrow> bmesh" where
  "bm_edges_ensure [] bm = bm"
| "bm_edges_ensure ((a, b) # es) bm =
     bm_edges_ensure es (if bm_edge_exists a b bm then bm else bm_edge_add a b bm)"

definition bm_face_exists :: "nat list \<Rightarrow> bmesh \<Rightarrow> bool" where
  "bm_face_exists vs bm \<longleftrightarrow> (\<exists>f\<in>set (bm_faces bm). length f = length vs \<and> set f = set vs)"

text \<open>\<open>bm.faces.new(verts)\<close>.\<close>

definition bm_face_new :: "nat list \<Rightarrow> bmesh \<Rightarrow> bmesh res" where
  "bm_face_new vs bm =
     (if length vs < 3 then Inl ValueError
      else if \<not> distinct vs then Inl ValueError
      else if bm_face_exists vs bm then Inl ValueError
      else let bm' = bm_edges_ensure (face_boundary vs) bm
           in Inr (bm'\<lparr>bm_faces := bm_faces bm' @ [vs],
                       bm_flayer := bm_flayer bm' @ [0]\<rparr>))"

subsection \<open>Basic facts of the host model\<close>

lemma bm_vert_new_sel [simp]:
  "bm_verts (bm_vert_new c bm) = bm_verts bm @ [c]"
  "bm_edges (bm_vert_new c bm) = bm_edges bm"
  "bm_faces (bm_vert_new c bm) = bm_faces bm"
  by (simp_all add: bm_vert_new_def)

lemma bm_edges_ensure_verts [simp]:
  "bm_verts (bm_edges_ensure es bm) = bm_verts bm"
  "bm_faces (bm_edges_ensure es bm) = bm_faces bm"
  by (induction es bm rule: bm_edges_ensure.induct) (simp_all add: bm_edge_add_def)

lemma bm_edge_new_verts:
  "bm_edge_new a b bm = Inr bm' \<Longrightarrow> bm_verts bm' = bm_verts bm \<and> bm_faces bm' = bm_faces bm"
  by (auto simp: bm_edge_new_def bm_edge_add_def split: if_splits)

lemma bm_face_new_verts:
  "bm_face_new vs bm = Inr bm' \<Longrightarrow> bm_verts bm' = bm_verts bm \<and> bm_faces bm' = bm_faces bm @ [vs]"
  by (auto simp: bm_face_new_def Let_def split: if_splits)

end
