(* ===== verification/Xml.thy ===== *)
theory Xml
  imports Prelude
begin

text \<open>
  The part of lxml's \<open>etree\<close> API the codec uses.  An element has a tag, an
  ordered attribute list, an optional text and its children; tails and
  namespaces play no part.  \<open>etree.SubElement(p, tag, **attrs)\<close> appends a new
  child to \<open>p\<close> (\<open>append_child\<close>, with \<open>leaf\<close> when the code sets its
  \<open>.text\<close> at once); \<open>find\<close>, \<open>findtext\<close>, \<open>findall\<close> with a plain tag
  look at direct children only, \<open>findtext\<close> giving \<open>''''\<close> for a child without
  text; \<open>get\<close> reads an attribute.  The serialisation of the tree by
  \<open>tree.write\<close> and its parsing by \<open>etree.parse\<close> are lxml's and are not
  modelled: the exporter is modelled up to the tree it builds and the importer
  from the tree it is given.
\<close>

datatype xelem =
  XElem (etag: string) (eattrs: "(string \<times> string) list") (etext: "string option")
        (echildren: "xelem list")

definition leaf :: "string \<Rightarrow> (string \<times> string) list \<Rightarrow> string \<Rightarrow> xelem" where
  "leaf t as s = XElem t as (Some s) []"

definition append_child :: "xelem \<Rightarrow> xelem \<Rightarrow> xelem" where
  "append_child c e = XElem (etag e) (eattrs e) (etext e) (echildren e @ [c])"

definition find_child :: "string \<Rightarrow> xelem \<Rightarrow> xelem option" where
  "find_child t e = find (\<lambda>c. etag c = t) (echildren e)"

definition findtext :: "string \<Rightarrow> xelem \<Rightarrow> string option" where
  "findtext t e = map_option (\<lambda>c. case etext c of None \<Rightarrow> [] | Some s \<Rightarrow> s) (find_child t e)"

definition findall :: "string \<Rightarrow> xelem \<Rightarrow> xelem list" where
  "findall t e = filter (\<lambda>c. etag c = t) (echildren e)"

definition get_attr :: "string \<Rightarrow> xelem \<Rightarrow> string option" where
  "get_attr k e = map_of (eattrs e) k"

definition has_child :: "string \<Rightarrow> xelem \<Rightarrow> bool" where
  "has_child t e \<longleftrightarrow> (\<exists>c\<in>set (echildren e). etag c = t)"

text \<open>\<open>child.text += s\<close> on the first child with tag \<open>t\<close>; the exporter
  applies it only to children it created with a text.\<close>

fun text_append_first :: "string \<Rightarrow> string \<Rightarrow> xelem list \<Rightarrow> xelem list" where
  "text_append_first t s [] = []"
| "text_append_first t s (c # cs) =
     (if etag c = t then XElem (etag c) (eattrs c) (map_option (\<lambda>x. x @ s) (etext c)) (echildren c) # cs
      else c # text_append_first t s cs)"

definition append_text_child :: "string \<Rightarrow> string \<Rightarrow> xelem \<Rightarrow> xelem" where
  "append_text_child t s e = XElem (etag e) (eattrs e) (etext e) (text_append_first t s (echildren e))"

subsection \<open>Rules for building and reading trees\<close>

lemma xelem_sel_append_child [simp]:
  "etag (append_child c e) = etag e"
  "eattrs (append_child c e) = eattrs e"
  "etext (append_child c e) = etext e"
  "echildren (append_child c e) = echildren e @ [c]"
  by (simp_all add: append_child_def)

lemma xelem_sel_leaf [simp]:
  "etag (leaf t as s) = t" "eattrs (leaf t as s) = as" "etext (leaf t as s) = Some s"
  "echildren (leaf t as s) = []"
  by (simp_all add: leaf_def)

lemma find_append_list:
  "find P (xs @ ys) = (case find P xs of None \<Rightarrow> find P ys | Some x \<Rightarrow> Some x)"
  by (induction xs) auto

lemma find_child_append_child [simp]:
  "find_child t (append_child c e) =
     (case find_child t e of None \<Rightarrow> if etag c = t then Some c else None | Some x \<Rightarrow> Some x)"
  by (simp add: find_child_def find_append_list split: option.split)

lemma findall_append_child [simp]:
  "findall t (append_child c e) = findall t e @ (if etag c = t then [c] else [])"
  by (simp add: findall_def)

lemma has_child_append_child [simp]:
  "has_child t (append_child c e) \<longleftrightarrow> has_child t e \<or> etag c = t"
  by (auto simp: has_child_def)

lemma find_child_None_iff: "find_child t e = None \<longleftrightarrow> \<not> has_child t e"
  by (auto simp: find_child_def has_child_def find_None_iff)

lemma findtext_None_iff: "findtext t e = None \<longleftrightarrow> \<not> has_child t e"
  by (simp add: findtext_def find_child_None_iff)

lemma findtext_XElem_Nil [simp]: "findtext t (XElem g as x []) = None"
  by (simp add: findtext_def find_child_def)

lemma text_append_first_tags:
  "map etag (text_append_first t s cs) = map etag cs"
  by (induction cs) auto

lemma has_child_iff_tags: "has_child t e \<longleftrightarrow> t \<in> set (map etag (echildren e))"
  by (auto simp: has_child_def)

lemma has_child_append_text_child [simp]:
  "has_child t' (append_text_child t s e) \<longleftrightarrow> has_child t' e"
  by (simp only: has_child_iff_tags append_text_child_def xelem.sel text_append_first_tags)

lemma text_append_first_twice:
  "text_append_first t r (text_append_first t s cs) = text_append_first t (s @ r) cs"
  by (induction cs) (auto simp: option.map_comp comp_def)

lemma append_text_child_twice [simp]:
  "append_text_child t r (append_text_child t s e) = append_text_child t (s @ r) e"
  by (simp add: append_text_child_def text_append_first_twice)

lemma text_append_first_absent:
  "\<forall>c\<in>set cs. etag c \<noteq> t \<Longrightarrow> text_append_first t s cs = cs"
  by (induction cs) auto

lemma text_append_first_snoc:
  "\<forall>c\<in>set cs. etag c \<noteq> t \<Longrightarrow> text_append_first t r (cs @ [leaf t [] s]) = cs @ [leaf t [] (s @ r)]"
  by (induction cs) (auto simp: leaf_def)

lemma append_text_child_new:
  "\<not> has_child t e \<Longrightarrow> append_text_child t r (append_child (leaf t [] s) e) = append_child (leaf t [] (s @ r)) e"
proof -
  assume "\<not> has_child t e"
  then have "\<forall>c\<in>set (echildren e). etag c \<noteq> t"
    by (auto simp: has_child_def)
  then have "text_append_first t r (echildren e @ [leaf t [] s]) = echildren e @ [leaf t [] (s @ r)]"
    by (rule text_append_first_snoc)
  then show ?thesis
    by (simp add: append_text_child_def append_child_def)
qed

end
