(* ===== verification/Exporter.thy ===== *)
theory Exporter
  imports Blender Xml
begin

text \<open>
  \<open>UGXExporter\<close> (\<open>src/io_ugx/ugx_io.py\<close>, lines 7--210).  Each \<open>add_*\<close>
  method appends one element to the \<open>grid\<close> element and is a function from the
  grid to the grid; \<open>add_faces\<close> also returns what it returns in Python
  (\<open>None\<close>, or the report and \<open>{'CANCELLED'}\<close> on a polygon that is neither a
  triangle nor a quad); \<open>add_subsets\<close> may raise.  Numbers are written by
  \<open>fmt_coord\<close> (\<open>int(c) if c.is_integer() else c\<close>, then \<open>str\<close>), indices by
  \<open>str_nat\<close>, each followed by one space (\<open>spaced\<close>).  The membership lists of
  \<open>add_subsets\<close> are built through a dictionary from \<open>s.index\<close> to the
  subset's \<open>subset\<close> element (its position in the handler) and the member
  tags already created for it, as the source's \<open>subsets\<close> dictionary does.
\<close>

datatype opstatus = FINISHED | CANCELLED

definition fmt_coord :: "pyfloat \<Rightarrow> string" where
  "fmt_coord c = (if pf_is_integer c then py_str_int (pf_trunc c) else py_repr c)"

definition str_nat :: "nat \<Rightarrow> string" where
  "str_nat n = py_str_int (int n)"

definition add_vertices :: "mesh \<Rightarrow> xelem \<Rightarrow> xelem" where
  "add_vertices m grid =
     append_child (leaf ''vertices'' [(''coords'', ''3'')]
                     (concat (map (\<lambda>v. spaced fmt_coord (co v)) (m_verts m)))) grid"

definition add_edges :: "mesh \<Rightarrow> xelem \<Rightarrow> xelem" where
  "add_edges m grid =
     append_child (leaf ''edges'' []
                     (concat (map (\<lambda>e. spaced str_nat [fst (evertices e), snd (evertices e)]) (m_edges m)))) grid"

text \<open>The polygon loop of \<open>add_faces\<close>: the triangle and quad texts, or
  \<open>None\<close> at the first polygon of another arity (the early \<open>return\<close>).\<close>

fun faces_loop :: "mpoly list \<Rightarrow> string \<Rightarrow> string \<Rightarrow> (string \<times> string) option" where
  "faces_loop [] tris quads = Some (tris, quads)"
| "faces_loop (f # fs) tris quads =
     (if length (pvertices f) = 3 then faces_loop fs (tris @ spaced str_nat (pvertices f)) quads
      else if length (pvertices f) = 4 then faces_loop fs tris (quads @ spaced str_nat (pvertices f))
      else None)"

definition add_if_nonempty :: "string \<Rightarrow> string \<Rightarrow> xelem \<Rightarrow> xelem" where
  "add_if_nonempty t s e = (if s \<noteq> [] then append_child (leaf t [] s) e else e)"

definition add_faces :: "mesh \<Rightarrow> xelem \<Rightarrow> xelem \<times> (string \<times> opstatus) option" where
  "add_faces m grid =
     (case faces_loop (m_polys m) [] [] of
        None \<Rightarrow> (grid, Some (''Only triangles and quads are supported.'', CANCELLED))
      | Some (tris, quads) \<Rightarrow> (add_if_nonempty ''quads'' quads (add_if_nonempty ''triangles'' tris grid), None))"

subsection \<open>Subsets\<close>

text \<open>The dictionary \<open>subsets\<close>: \<open>s.index\<close> to the position of the subset's
  element among the handler's children and the member tags (\<open>"vertices"\<close>,
  \<open>"edges"\<close>, \<open>"faces"\<close>) of its entry besides \<open>"main"\<close>.\<close>

type_synonym sdict = "int \<rightharpoonup> nat \<times> string list"

definition subset_main :: "ugx_subset \<Rightarrow> xelem" where
  "subset_main s = XElem ''subset''
     [(''name'', s_name s), (''color'', spaced fmt_coord (s_color s)), (''state'', ''393216'')] None []"

fun subset_mains :: "ugx_subset list \<Rightarrow> xelem list \<Rightarrow> sdict \<Rightarrow> xelem list \<times> sdict" where
  "subset_mains [] hs d = (hs, d)"
| "subset_mains (s # ss) hs d = subset_mains ss (hs @ [subset_main s]) (d(s_index s \<mapsto> (length hs, [])))"

text \<open>One membership loop: element \<open>i\<close> has layer value \<open>k\<close>; \<open>subsets[k]\<close>
  raises KeyError when no subset has index \<open>k\<close>.\<close>

fun add_members :: "string \<Rightarrow> nat \<Rightarrow> int list \<Rightarrow> xelem list \<Rightarrow> sdict \<Rightarrow> (xelem list \<times> sdict) res" where
  "add_members t i [] hs d = Inr (hs, d)"
| "add_members t i (k # ks) hs d =
     (case d k of
        None \<Rightarrow> Inl KeyError
      | Some (p, keys) \<Rightarrow>
          if t \<in> set keys
          then add_members t (Suc i) ks (hs[p := append_text_child t (str_nat i @ '' '') (hs ! p)]) d
          else add_members t (Suc i) ks (hs[p := append_child (leaf t [] (str_nat i @ '' '')) (hs ! p)])
                 (d(k \<mapsto> (p, keys @ [t]))))"

text \<open>\<open>s = bm.verts.layers.int.get(name)\<close> is \<open>None\<close> when the layer is
  missing; the loop then raises TypeError at its first element.\<close>

definition layer_loop :: "nat \<Rightarrow> int list option \<Rightarrow> int list res" where
  "layer_loop n l = (case l of Some vs \<Rightarrow> Inr vs | None \<Rightarrow> if n = 0 then Inr [] else Inl TypeError)"

definition add_subsets :: "ugx_subset list \<Rightarrow> mesh \<Rightarrow> xelem \<Rightarrow> xelem res" where
  "add_subsets ss m grid =
     (case subset_mains ss [] Map.empty of (hs, d) \<Rightarrow>
      if \<not> in_edit_mode m then Inl ValueError
      else
        bind_res (layer_loop (length (m_verts m)) (vertex_subset m)) (\<lambda>vs.
        bind_res (add_members ''vertices'' 0 vs hs d) (\<lambda>(hs1, d1).
        bind_res (layer_loop (length (m_edges m)) (edge_subset m)) (\<lambda>es.
        bind_res (add_members ''edges'' 0 es hs1 d1) (\<lambda>(hs2, d2).
        bind_res (layer_loop (length (m_polys m)) (face_subset m)) (\<lambda>fs.
        bind_res (add_members ''faces'' 0 fs hs2 d2) (\<lambda>(hs3, d3).
        Inr (append_child (XElem ''subset_handler'' [(''name'', ''defSH'')] None hs3) grid))))))))"

subsection \<open>Fixed blocks, selector, operator\<close>

definition add_mark_subset_handler :: "xelem \<Rightarrow> xelem" where
  "add_mark_subset_handler grid =
     append_child (XElem ''subset_handler'' [(''name'', ''markSH'')] None
       [XElem ''subset'' [(''name'', ''crease''), (''color'', ''1 1 1 1''), (''state'', ''0'')] None [],
        XElem ''subset'' [(''name'', ''fixed''), (''color'', ''1 1 1 1''), (''state'', ''0'')] None []]) grid"

definition selected_text :: "bool list \<Rightarrow> string" where
  "selected_text sel = concat (map (\<lambda>i. if sel ! i then str_nat i @ '' '' else []) [0..<length sel])"

definition add_selector :: "mesh \<Rightarrow> xelem \<Rightarrow> xelem" where
  "add_selector m grid =
     append_child
       (add_if_nonempty ''faces'' (selected_text (map pselect (m_polys m)))
         (add_if_nonempty ''edges'' (selected_text (map eselect (m_edges m)))
           (add_if_nonempty ''vertices'' (selected_text (map vselect (m_verts m)))
             (XElem ''selector'' [(''name'', ''defSel'')] None [])))) grid"

definition add_projection_handler :: "xelem \<Rightarrow> xelem" where
  "add_projection_handler grid =
     append_child (XElem ''projection_handler'' [(''name'', ''defPH'')] None
                    [leaf ''default'' [(''type'', ''default'')] ''0 0'']) grid"

definition grid_root :: xelem where
  "grid_root = XElem ''grid'' [(''name'', ''defGrid'')] None []"

text \<open>\<open>execute\<close>: \<open>obj.data\<close> of no active object raises AttributeError; the
  result of \<open>add_faces\<close> is dropped; \<open>add_mark_subset_handler(self, grid)\<close>
  is called as \<open>self.add_mark_subset_handler(obj, grid)\<close>, one positional
  argument too many, which raises TypeError before anything is written.\<close>

definition export_execute :: "scene \<Rightarrow> mesh option \<Rightarrow> opstatus res" where
  "export_execute sc obj =
     (case obj of
        None \<Rightarrow> Inl AttributeError
      | Some m \<Rightarrow>
          (let g1 = add_vertices m grid_root;
               g2 = add_edges m g1;
               g3 = fst (add_faces m g2)
           in bind_res (add_subsets (ugx_subsets sc) m g3) (\<lambda>g4. Inl TypeError)))"

subsection \<open>What the subset handler should contain\<close>

text \<open>The specification of \<open>add_subsets\<close> (spec, UGX Encoder step 4): the
  subset element of \<open>s\<close> lists, under \<open>vertices\<close>, \<open>edges\<close> and
  \<open>faces\<close>, the indices of the elements whose layer value is \<open>s.index\<close>, in
  ascending order, each list omitted when empty.  \<open>mtext\<close> is the same text
  built element by element from index \<open>i\<close> on, \<open>put_members\<close> what adding
  a text under tag \<open>t\<close> does to an element, and \<open>dict_ok\<close> the agreement
  between the dictionary and the handler's children that the loops keep.\<close>

definition members_text :: "int list \<Rightarrow> int \<Rightarrow> string" where
  "members_text ks k = spaced str_nat (filter (\<lambda>i. ks ! i = k) [0..<length ks])"

definition member_child :: "string \<Rightarrow> string \<Rightarrow> xelem list" where
  "member_child t txt = (if txt = [] then [] else [leaf t [] txt])"

definition subset_elem :: "ugx_subset \<Rightarrow> int list \<Rightarrow> int list \<Rightarrow> int list \<Rightarrow> xelem" where
  "subset_elem s vs es fs = XElem ''subset''
     [(''name'', s_name s), (''color'', spaced fmt_coord (s_color s)), (''state'', ''393216'')] None
     (member_child ''vertices'' (members_text vs (s_index s)) @
      member_child ''edges'' (members_text es (s_index s)) @
      member_child ''faces'' (members_text fs (s_index s)))"

fun mtext :: "nat \<Rightarrow> int list \<Rightarrow> int \<Rightarrow> string" where
  "mtext i [] k = []"
| "mtext i (k' # ks) k = (if k' = k then str_nat i @ '' '' else []) @ mtext (Suc i) ks k"

definition put_members :: "string \<Rightarrow> string \<Rightarrow> xelem \<Rightarrow> xelem" where
  "put_members t txt e =
     (if txt = [] then e else if has_child t e then append_text_child t txt e else append_child (leaf t [] txt) e)"

definition dict_ok :: "string \<Rightarrow> xelem list \<Rightarrow> sdict \<Rightarrow> bool" where
  "dict_ok t hs d \<longleftrightarrow>
     (\<forall>k p keys. d k = Some (p, keys) \<longrightarrow> p < length hs \<and> (t \<in> set keys \<longleftrightarrow> has_child t (hs ! p))) \<and>
     (\<forall>k1 k2 p x1 x2. d k1 = Some (p, x1) \<longrightarrow> d k2 = Some (p, x2) \<longrightarrow> k1 = k2)"

subsection \<open>Number formatting\<close>

lemma canon_integer_nonneg_exp:
  assumes "pf_canon (Fin m e)" "pf_is_integer (Fin m e)"
  shows "0 \<le> e"
proof (rule ccontr)
  assume ne: "\<not> 0 \<le> e"
  then have "(10::int) dvd 10 ^ nat (- e)"
    by (simp add: dvd_power)
  moreover have "(10::int) ^ nat (- e) dvd m"
    using assms(2) ne by simp
  ultimately have "10 dvd m"
    by (rule dvd_trans)
  moreover have "m \<noteq> 0"
    using assms(1) ne by (auto split: if_splits)
  ultimately show False
    using assms(1) by simp
qed
lemma fmt_coord_integer:
  assumes "pf_is_integer (Fin m e)" "0 \<le> e"
  shows "py_float (fmt_coord (Fin m e)) = Inr (pf_mk (m < 0) (nat \<bar>m\<bar> * 10 ^ nat e) 0)"
proof -
  have a: "nat \<bar>m * 10 ^ nat e\<bar> = nat \<bar>m\<bar> * 10 ^ nat e"
    by (simp add: abs_mult nat_mult_distrib nat_power_eq)
  have s: "(m * 10 ^ nat e < 0) = (m < 0)"
    by (simp add: mult_less_0_iff)
  have f: "fmt_coord (Fin m e) = py_str_int (m * 10 ^ nat e)"
    using assms by (simp add: fmt_coord_def)
  show ?thesis
    by (simp only: f py_float_str_int a s)
qed

lemma py_float_fmt_coord:
  assumes "pf_canon x"
  shows "py_float (fmt_coord x) = Inr x"
proof (cases "pf_is_integer x")
  case False
  then have "fmt_coord x = py_repr x"
    by (simp add: fmt_coord_def)
  then show ?thesis
    using py_float_repr [OF assms] by simp
next
  case True
  then obtain m e where x: "x = Fin m e"
    by (cases x) simp_all
  have e: "0 \<le> e"
    using assms True unfolding x by (rule canon_integer_nonneg_exp)
  have "pf_mk (m < 0) (nat \<bar>m\<bar> * 10 ^ nat e) 0 = Fin m e"
  proof (cases "m = 0")
    case True
    with assms x show ?thesis by simp
  next
    case False
    with assms x have "\<not> 10 dvd m" by simp
    with False e show ?thesis
      by (simp add: pf_mk_mult pf_mk_canon)
  qed
  moreover have "pf_is_integer (Fin m e)"
    using True x by simp
  ultimately show ?thesis
    using fmt_coord_integer [of m e] e x by simp
qed

text \<open>C1: every number the exporter writes (a vertex coordinate or a colour
  component, \<open>int(c) if c.is_integer() else c\<close> and then \<open>str\<close>) is read
  back by Python's \<open>float()\<close> as the same double.\<close>

theorem fmt_coord_roundtrip:
  assumes "pf_canon x"
  shows "py_float (fmt_coord x) = Inr x"
  using assms by (rule py_float_fmt_coord)

theorem fmt_coord_roundtrip_witness:
  "pf_canon (Fin 25 (-1)) \<and> py_float (fmt_coord (Fin 25 (-1))) = Inr (Fin 25 (-1))"
  using fmt_coord_roundtrip [of "Fin 25 (-1)"] by simp

subsection \<open>The subset handler\<close>

text \<open>The three membership loops keep \<open>dict_ok\<close> for every tag: each
  loop fills, under its own tag, the text \<open>mtext\<close> of every subset and
  leaves the other tags' bookkeeping as it was.\<close>

lemma str_nat_ne [simp]: "str_nat i \<noteq> []"
  by (simp add: str_nat_def py_str_int_def)

lemma put_members_Nil [simp]: "put_members t [] e = e"
  by (simp add: put_members_def)

lemma put_members_after_text:
  "has_child t e \<Longrightarrow> s \<noteq> [] \<Longrightarrow> put_members t r (append_text_child t s e) = put_members t (s @ r) e"
  by (simp add: put_members_def)

lemma put_members_after_new:
  "\<not> has_child t e \<Longrightarrow> s \<noteq> [] \<Longrightarrow> put_members t r (append_child (leaf t [] s) e) = put_members t (s @ r) e"
  by (simp add: put_members_def append_text_child_new)

lemma has_child_put_members [simp]:
  "t' \<noteq> t \<Longrightarrow> has_child t' (put_members t txt e) \<longleftrightarrow> has_child t' e"
  by (simp add: put_members_def)

lemma dict_ok_text_step:
  assumes "dict_ok t hs d" "d k = Some (p, keys)" "t \<in> set keys"
  shows "dict_ok t (hs[p := append_text_child t s (hs ! p)]) d"
  using assms unfolding dict_ok_def by (metis has_child_append_text_child length_list_update nth_list_update)

lemma dict_ok_new_step:
  assumes "dict_ok t hs d" "d k = Some (p, keys)"
  shows "dict_ok t (hs[p := append_child (leaf t [] s) (hs ! p)]) (d(k \<mapsto> (p, keys @ [t])))"
  using assms unfolding dict_ok_def
  by (auto simp: nth_list_update)


lemma add_members_ok:
  assumes "set ks \<subseteq> dom d" "dict_ok t hs d"
  shows "\<exists>hs' d'. add_members t i ks hs d = Inr (hs', d') \<and> length hs' = length hs
     \<and> (\<forall>k p keys. d k = Some (p, keys) \<longrightarrow> hs' ! p = put_members t (mtext i ks k) (hs ! p))
     \<and> (\<forall>p. (\<forall>k x. d k \<noteq> Some (p, x)) \<longrightarrow> hs' ! p = hs ! p)
     \<and> (\<forall>k. map_option fst (d' k) = map_option fst (d k))
     \<and> (\<forall>k p keys keys' t'. t' \<noteq> t \<longrightarrow> d k = Some (p, keys) \<longrightarrow> d' k = Some (p, keys')
            \<longrightarrow> (t' \<in> set keys' \<longleftrightarrow> t' \<in> set keys))"
  using assms
proof (induction ks arbitrary: i hs d)
  case Nil
  then show ?case by simp
next
  case (Cons k ks)
  obtain p keys where dk: "d k = Some (p, keys)"
    using Cons.prems(1) by auto
  have p: "p < length hs"
    using Cons.prems(2) dk by (auto simp: dict_ok_def)
  have inj: "\<And>k2 p2 x. d k2 = Some (p2, x) \<Longrightarrow> p2 = p \<Longrightarrow> k2 = k"
    using Cons.prems(2) dk unfolding dict_ok_def by blast
  define s where "s = str_nat i @ '' ''"
  show ?case
  proof (cases "t \<in> set keys")
    case True
    define hs1 where "hs1 = hs[p := append_text_child t s (hs ! p)]"
    have ok: "dict_ok t hs1 d"
      unfolding hs1_def using dict_ok_text_step [OF Cons.prems(2) dk True] .
    have hc: "has_child t (hs ! p)"
      using Cons.prems(2) dk True by (auto simp: dict_ok_def)
    obtain hs' d' where IH: "add_members t (Suc i) ks hs1 d = Inr (hs', d')" "length hs' = length hs1"
      "\<forall>k p keys. d k = Some (p, keys) \<longrightarrow> hs' ! p = put_members t (mtext (Suc i) ks k) (hs1 ! p)"
      "\<forall>p. (\<forall>k x. d k \<noteq> Some (p, x)) \<longrightarrow> hs' ! p = hs1 ! p"
      "\<forall>k. map_option fst (d' k) = map_option fst (d k)"
      "\<forall>k p keys keys' t'. t' \<noteq> t \<longrightarrow> d k = Some (p, keys) \<longrightarrow> d' k = Some (p, keys')
            \<longrightarrow> (t' \<in> set keys' \<longleftrightarrow> t' \<in> set keys)"
      using Cons.IH [of d hs1 "Suc i"] Cons.prems(1) ok by auto
    have eq: "add_members t i (k # ks) hs d = Inr (hs', d')"
      using IH(1) dk True by (simp add: hs1_def s_def)
    have fill: "hs' ! p2 = put_members t (mtext i (k # ks) k2) (hs ! p2)"
      if "d k2 = Some (p2, keys2)" for k2 p2 keys2
    proof (cases "k2 = k")
      case True
      then have "p2 = p" using that dk by simp
      have "hs' ! p = put_members t (mtext (Suc i) ks k) (hs1 ! p)"
        using IH(3) dk by blast
      also have "\<dots> = put_members t (mtext (Suc i) ks k) (append_text_child t s (hs ! p))"
        using p by (simp add: hs1_def)
      also have "\<dots> = put_members t (s @ mtext (Suc i) ks k) (hs ! p)"
        using hc by (rule put_members_after_text) (simp add: s_def)
      finally show ?thesis
        using True \<open>p2 = p\<close> by (simp add: s_def)
    next
      case False
      then have "p2 \<noteq> p" using inj that by blast
      have "hs' ! p2 = put_members t (mtext (Suc i) ks k2) (hs1 ! p2)"
        using IH(3) that by blast
      with \<open>p2 \<noteq> p\<close> False show ?thesis
        by (simp add: hs1_def)
    qed
    have frame: "hs' ! p0 = hs ! p0" if "\<forall>k x. d k \<noteq> Some (p0, x)" for p0
    proof -
      have "p0 \<noteq> p" using that dk by blast
      with IH(4) that show ?thesis by (simp add: hs1_def)
    qed
    show ?thesis
      using eq IH(2,5,6) fill frame by (auto simp: hs1_def)
  next
    case False
    define hs1 where "hs1 = hs[p := append_child (leaf t [] s) (hs ! p)]"
    define d1 where "d1 = d(k \<mapsto> (p, keys @ [t]))"
    have ok: "dict_ok t hs1 d1"
      unfolding hs1_def d1_def using dict_ok_new_step [OF Cons.prems(2) dk] .
    have hc: "\<not> has_child t (hs ! p)"
      using Cons.prems(2) dk False by (auto simp: dict_ok_def)
    have dom1: "set ks \<subseteq> dom d1"
      using Cons.prems(1) by (auto simp: d1_def)
    obtain hs' d' where IH: "add_members t (Suc i) ks hs1 d1 = Inr (hs', d')" "length hs' = length hs1"
      "\<forall>k p keys. d1 k = Some (p, keys) \<longrightarrow> hs' ! p = put_members t (mtext (Suc i) ks k) (hs1 ! p)"
      "\<forall>p. (\<forall>k x. d1 k \<noteq> Some (p, x)) \<longrightarrow> hs' ! p = hs1 ! p"
      "\<forall>k. map_option fst (d' k) = map_option fst (d1 k)"
      "\<forall>k p keys keys' t'. t' \<noteq> t \<longrightarrow> d1 k = Some (p, keys) \<longrightarrow> d' k = Some (p, keys')
            \<longrightarrow> (t' \<in> set keys' \<longleftrightarrow> t' \<in> set keys)"
      using Cons.IH [OF dom1 ok, of "Suc i"] by auto
    have eq: "add_members t i (k # ks) hs d = Inr (hs', d')"
      using IH(1) dk False by (simp add: hs1_def d1_def s_def)
    have fill: "hs' ! p2 = put_members t (mtext i (k # ks) k2) (hs ! p2)"
      if "d k2 = Some (p2, keys2)" for k2 p2 keys2
    proof (cases "k2 = k")
      case True
      then have "p2 = p" using that dk by simp
      have "hs' ! p = put_members t (mtext (Suc i) ks k) (hs1 ! p)"
        using IH(3) by (simp add: d1_def)
      also have "\<dots> = put_members t (mtext (Suc i) ks k) (append_child (leaf t [] s) (hs ! p))"
        using p by (simp add: hs1_def)
      also have "\<dots> = put_members t (s @ mtext (Suc i) ks k) (hs ! p)"
        using hc by (rule put_members_after_new) (simp add: s_def)
      finally show ?thesis
        using True \<open>p2 = p\<close> by (simp add: s_def)
    next
      case False
      then have "p2 \<noteq> p" using inj that by blast
      have "hs' ! p2 = put_members t (mtext (Suc i) ks k2) (hs1 ! p2)"
        using IH(3) that False by (simp add: d1_def)
      with \<open>p2 \<noteq> p\<close> False show ?thesis
        by (simp add: hs1_def)
    qed
    have frame: "hs' ! p0 = hs ! p0" if "\<forall>k x. d k \<noteq> Some (p0, x)" for p0
    proof -
      have "p0 \<noteq> p" using that dk by blast
      moreover have "\<forall>k x. d1 k \<noteq> Some (p0, x)"
        using that \<open>p0 \<noteq> p\<close> by (simp add: d1_def)
      ultimately show ?thesis
        using IH(4) by (simp add: hs1_def)
    qed
    have pos: "map_option fst (d' k2) = map_option fst (d k2)" for k2
      using IH(5) dk by (simp add: d1_def)
    have tags: "t' \<in> set keys' \<longleftrightarrow> t' \<in> set keys2"
      if "t' \<noteq> t" "d k2 = Some (p2, keys2)" "d' k2 = Some (p2, keys')" for k2 p2 keys2 keys' t'
    proof (cases "k2 = k")
      case True
      then have "d1 k2 = Some (p2, keys2 @ [t])"
        using that(2) dk by (simp add: d1_def)
      then have "t' \<in> set keys' \<longleftrightarrow> t' \<in> set (keys2 @ [t])"
        using IH(6) that(1,3) by blast
      with that(1) show ?thesis by simp
    next
      case False
      then have "d1 k2 = Some (p2, keys2)"
        using that(2) by (simp add: d1_def)
      then show ?thesis
        using IH(6) that(1,3) by blast
    qed
    show ?thesis
      using eq IH(2) fill frame pos tags by (auto simp: hs1_def)
  qed
qed

lemma mtext_eq:
  "mtext i ks k = spaced str_nat (map ((+) i) (filter (\<lambda>j. ks ! j = k) [0..<length ks]))"
proof (induction ks arbitrary: i)
  case Nil
  then show ?case by simp
next
  case (Cons k' ks)
  have "[0..<Suc n] = 0 # map Suc [0..<n]" for n :: nat
    by (simp add: map_Suc_upt upt_conv_Cons del: upt_Suc)
  then have "[0..<length (k' # ks)] = 0 # map Suc [0..<length ks]"
    by simp
  then have "filter (\<lambda>j. (k' # ks) ! j = k) [0..<length (k' # ks)]
             = (if k' = k then [0] else []) @ map Suc (filter (\<lambda>j. ks ! j = k) [0..<length ks])"
    by (simp add: filter_map comp_def)
  then show ?case
    using Cons.IH [of "Suc i"] by (simp add: comp_def)
qed

lemma map_plus_zero: "map ((+) (0::nat)) xs = xs"
  by (induction xs) auto

lemma members_text_mtext: "members_text ks k = mtext 0 ks k"
  by (simp add: members_text_def mtext_eq map_plus_zero)

lemma subset_mains_fst: "fst (subset_mains ss hs d) = hs @ map subset_main ss"
  by (induction ss arbitrary: hs d) auto

lemma subset_mains_snd:
  assumes "distinct (map s_index ss)"
  shows "(\<forall>q<length ss. snd (subset_mains ss hs d) (s_index (ss ! q)) = Some (length hs + q, []))
       \<and> (\<forall>k. k \<notin> s_index ` set ss \<longrightarrow> snd (subset_mains ss hs d) k = d k)"
  using assms
proof (induction ss arbitrary: hs d)
  case Nil
  then show ?case by simp
next
  case (Cons s ss)
  define d1 where "d1 = d(s_index s \<mapsto> (length hs, []))"
  have step: "subset_mains (s # ss) hs d = subset_mains ss (hs @ [subset_main s]) d1"
    by (simp add: d1_def)
  have d1: "d1 (s_index s) = Some (length hs, [])" "\<And>k. k \<noteq> s_index s \<Longrightarrow> d1 k = d k"
    by (simp_all add: d1_def)
  have IH: "\<forall>q<length ss. snd (subset_mains ss (hs @ [subset_main s]) d1) (s_index (ss ! q))
                           = Some (Suc (length hs) + q, [])"
           "\<forall>k. k \<notin> s_index ` set ss \<longrightarrow> snd (subset_mains ss (hs @ [subset_main s]) d1) k = d1 k"
    using Cons.IH [of "hs @ [subset_main s]" d1] Cons.prems by auto
  have new: "s_index s \<notin> s_index ` set ss"
    using Cons.prems by simp
  show ?case
  proof (intro conjI allI impI)
    fix q assume "q < length (s # ss)"
    then have "snd (subset_mains ss (hs @ [subset_main s]) d1) (s_index ((s # ss) ! q))
               = Some (length hs + q, [])"
      using IH new d1 by (cases q) auto
    then show "snd (subset_mains (s # ss) hs d) (s_index ((s # ss) ! q)) = Some (length hs + q, [])"
      by (simp only: step)
  next
    fix k assume "k \<notin> s_index ` set (s # ss)"
    then have "snd (subset_mains ss (hs @ [subset_main s]) d1) k = d k"
      using IH d1 by auto
    then show "snd (subset_mains (s # ss) hs d) k = d k"
      by (simp only: step)
  qed
qed

lemma subset_mains_dict:
  assumes "distinct (map s_index ss)" "snd (subset_mains ss [] Map.empty) k = Some (p, x)"
  shows "p < length ss \<and> s_index (ss ! p) = k \<and> x = []"
proof (cases "k \<in> s_index ` set ss")
  case True
  then obtain q where q: "q < length ss" "s_index (ss ! q) = k"
    by (auto simp: in_set_conv_nth)
  then show ?thesis
    using subset_mains_snd [OF assms(1), of "[]" Map.empty] assms(2) by auto
next
  case False
  then show ?thesis
    using subset_mains_snd [OF assms(1), of "[]" Map.empty] assms(2) by auto
qed

lemma subset_mains_dom:
  assumes "distinct (map s_index ss)"
  shows "dom (snd (subset_mains ss [] Map.empty)) = s_index ` set ss"
proof -
  have "k \<in> dom (snd (subset_mains ss [] Map.empty))" if "k \<in> s_index ` set ss" for k
    using that subset_mains_snd [OF assms, of "[]" Map.empty] by (auto simp: in_set_conv_nth)
  moreover have "k \<in> s_index ` set ss" if "k \<in> dom (snd (subset_mains ss [] Map.empty))" for k
    using that subset_mains_snd [OF assms, of "[]" Map.empty] by auto
  ultimately show ?thesis by blast
qed

lemma has_child_subset_main [simp]: "\<not> has_child t (subset_main s)"
  by (simp add: has_child_def subset_main_def)

lemma dict_ok_init:
  assumes "distinct (map s_index ss)"
  shows "dict_ok t (map subset_main ss) (snd (subset_mains ss [] Map.empty))"
proof -
  let ?d = "snd (subset_mains ss [] Map.empty)"
  have "\<forall>k p keys. ?d k = Some (p, keys) \<longrightarrow>
          p < length (map subset_main ss) \<and> (t \<in> set keys \<longleftrightarrow> has_child t (map subset_main ss ! p))"
    using subset_mains_dict [OF assms] by fastforce
  moreover have "\<forall>k1 k2 p x1 x2. ?d k1 = Some (p, x1) \<longrightarrow> ?d k2 = Some (p, x2) \<longrightarrow> k1 = k2"
    using subset_mains_dict [OF assms] by metis
  ultimately show ?thesis
    unfolding dict_ok_def by blast
qed

lemma dict_ok_next:
  assumes "dict_ok t' hs d" "t' \<noteq> t" "length hs' = length hs"
    and fill: "\<forall>k p keys. d k = Some (p, keys) \<longrightarrow> hs' ! p = put_members t (f k) (hs ! p)"
    and pos: "\<forall>k. map_option fst (d' k) = map_option fst (d k)"
    and tags: "\<forall>k p keys keys'. d k = Some (p, keys) \<longrightarrow> d' k = Some (p, keys')
                 \<longrightarrow> (t' \<in> set keys' \<longleftrightarrow> t' \<in> set keys)"
  shows "dict_ok t' hs' d'"
proof -
  have pos_back: "\<exists>keys. d k = Some (p, keys)" if "d' k = Some (p, keys')" for k p keys'
    using pos [rule_format, of k] that by (cases "d k") auto
  have part1: "p < length hs' \<and> (t' \<in> set keys' \<longleftrightarrow> has_child t' (hs' ! p))"
    if d': "d' k = Some (p, keys')" for k p keys'
  proof -
    obtain keys where d: "d k = Some (p, keys)" using pos_back d' by blast
    then have "p < length hs" "t' \<in> set keys \<longleftrightarrow> has_child t' (hs ! p)"
      using assms(1) by (auto simp: dict_ok_def)
    moreover have "hs' ! p = put_members t (f k) (hs ! p)"
      using fill d by blast
    then have "has_child t' (hs' ! p) \<longleftrightarrow> has_child t' (hs ! p)"
      using assms(2) by simp
    moreover have "t' \<in> set keys' \<longleftrightarrow> t' \<in> set keys"
      using tags d d' by blast
    ultimately show ?thesis
      using assms(3) by simp
  qed
  have part2: "k1 = k2" if "d' k1 = Some (p, x1)" "d' k2 = Some (p, x2)" for k1 k2 p x1 x2
    using that pos_back assms(1) unfolding dict_ok_def by metis
  show ?thesis
    unfolding dict_ok_def using part1 part2 by blast
qed

lemma subset_elem_put_members:
  "put_members ''faces'' (mtext 0 fs (s_index s))
     (put_members ''edges'' (mtext 0 es (s_index s))
       (put_members ''vertices'' (mtext 0 vs (s_index s)) (subset_main s)))
   = subset_elem s vs es fs"
  by (simp add: subset_elem_def subset_main_def member_child_def put_members_def
                members_text_mtext has_child_def append_child_def)

lemma add_members_stage:
  assumes "set ks \<subseteq> dom d" "dict_ok t hs d"
  shows "\<exists>hs' d'. add_members t i ks hs d = Inr (hs', d') \<and> length hs' = length hs
     \<and> (\<forall>k p keys. d k = Some (p, keys) \<longrightarrow> hs' ! p = put_members t (mtext i ks k) (hs ! p))
     \<and> (\<forall>k. map_option fst (d' k) = map_option fst (d k))
     \<and> (\<forall>t'. t' \<noteq> t \<longrightarrow> dict_ok t' hs d \<longrightarrow> dict_ok t' hs' d')"
proof -
  obtain hs' d' where A: "add_members t i ks hs d = Inr (hs', d')" "length hs' = length hs"
    "\<forall>k p keys. d k = Some (p, keys) \<longrightarrow> hs' ! p = put_members t (mtext i ks k) (hs ! p)"
    "\<forall>k. map_option fst (d' k) = map_option fst (d k)"
    "\<forall>k p keys keys' t'. t' \<noteq> t \<longrightarrow> d k = Some (p, keys) \<longrightarrow> d' k = Some (p, keys')
            \<longrightarrow> (t' \<in> set keys' \<longleftrightarrow> t' \<in> set keys)"
    using add_members_ok [OF assms] by blast
  have "dict_ok t' hs' d'" if "t' \<noteq> t" "dict_ok t' hs d" for t'
  proof (rule dict_ok_next [OF that(2) that(1) A(2) A(3) A(4)])
    show "\<forall>k p keys keys'. d k = Some (p, keys) \<longrightarrow> d' k = Some (p, keys')
                 \<longrightarrow> (t' \<in> set keys' \<longleftrightarrow> t' \<in> set keys)"
      using A(5) that(1) by blast
  qed
  then show ?thesis
    using A(1-4) by blast
qed

lemma dom_map_option_fst:
  "\<forall>k. map_option fst (d' k) = map_option fst (d k) \<Longrightarrow> dom d' = dom d"
proof -
  assume "\<forall>k. map_option fst (d' k) = map_option fst (d k)"
  then have "d' k = None \<longleftrightarrow> d k = None" for k
    by (metis option.map_disc_iff)
  then show ?thesis
    by (auto simp: dom_def)
qed

text \<open>C3: on a mesh in edit mode whose three subset layers exist and hold
  only indices of scene subsets, and with the subsets' indices distinct,
  \<open>add_subsets\<close> appends one \<open>subset_handler\<close> named \<open>defSH\<close> holding, for
  every subset in collection order, its name, colour and state, and under
  \<open>vertices\<close>, \<open>edges\<close>, \<open>faces\<close> the space-terminated positions of the
  elements whose layer value is the subset's index (a tag only when that list
  is not empty).\<close>

theorem add_subsets_spec:
  assumes dist: "distinct (map s_index ss)" and edit: "in_edit_mode m"
    and layers: "vertex_subset m = Some vs" "edge_subset m = Some es" "face_subset m = Some fs"
    and known: "set vs \<union> set es \<union> set fs \<subseteq> s_index ` set ss"
  shows "add_subsets ss m grid =
           Inr (append_child (XElem ''subset_handler'' [(''name'', ''defSH'')] None
                                (map (\<lambda>s. subset_elem s vs es fs) ss)) grid)"
proof -
  define d0 where "d0 = snd (subset_mains ss [] Map.empty)"
  define hs0 where "hs0 = map subset_main ss"
  have sm: "subset_mains ss [] Map.empty = (hs0, d0)"
    using subset_mains_fst [of ss "[]" Map.empty] by (simp add: d0_def hs0_def prod_eq_iff)
  have dom0: "dom d0 = s_index ` set ss"
    unfolding d0_def by (rule subset_mains_dom [OF dist])
  have ok0: "dict_ok t hs0 d0" for t
    unfolding d0_def hs0_def by (rule dict_ok_init [OF dist])
  obtain hs1 d1 where V: "add_members ''vertices'' 0 vs hs0 d0 = Inr (hs1, d1)" "length hs1 = length hs0"
    "\<forall>k p keys. d0 k = Some (p, keys) \<longrightarrow> hs1 ! p = put_members ''vertices'' (mtext 0 vs k) (hs0 ! p)"
    "\<forall>k. map_option fst (d1 k) = map_option fst (d0 k)"
    "\<forall>t'. t' \<noteq> ''vertices'' \<longrightarrow> dict_ok t' hs0 d0 \<longrightarrow> dict_ok t' hs1 d1"
    using add_members_stage [OF _ ok0, of vs] known dom0 by blast
  have dom1: "dom d1 = s_index ` set ss"
    using dom_map_option_fst [OF V(4)] dom0 by simp
  obtain hs2 d2 where E: "add_members ''edges'' 0 es hs1 d1 = Inr (hs2, d2)" "length hs2 = length hs1"
    "\<forall>k p keys. d1 k = Some (p, keys) \<longrightarrow> hs2 ! p = put_members ''edges'' (mtext 0 es k) (hs1 ! p)"
    "\<forall>k. map_option fst (d2 k) = map_option fst (d1 k)"
    "\<forall>t'. t' \<noteq> ''edges'' \<longrightarrow> dict_ok t' hs1 d1 \<longrightarrow> dict_ok t' hs2 d2"
    using add_members_stage [OF _ V(5) [rule_format, OF _ ok0], of es "''edges''" 0] known dom1 by auto
  have dom2: "dom d2 = s_index ` set ss"
    using dom_map_option_fst [OF E(4)] dom1 by simp
  have ok2: "dict_ok ''faces'' hs2 d2"
    using E(5) V(5) ok0 by simp
  obtain hs3 d3 where F: "add_members ''faces'' 0 fs hs2 d2 = Inr (hs3, d3)" "length hs3 = length hs2"
    "\<forall>k p keys. d2 k = Some (p, keys) \<longrightarrow> hs3 ! p = put_members ''faces'' (mtext 0 fs k) (hs2 ! p)"
    using add_members_stage [OF _ ok2, of fs 0] known dom2 by auto
  have "hs3 ! q = subset_elem (ss ! q) vs es fs" if q: "q < length ss" for q
  proof -
    let ?k = "s_index (ss ! q)"
    have x0: "d0 ?k = Some (q, [])"
      using subset_mains_snd [OF dist, of "[]" Map.empty] q by (simp add: d0_def)
    obtain x1 where x1: "d1 ?k = Some (q, x1)"
      using V(4) [rule_format, of ?k] x0 by (cases "d1 ?k") auto
    obtain x2 where x2: "d2 ?k = Some (q, x2)"
      using E(4) [rule_format, of ?k] x1 by (cases "d2 ?k") auto
    have "hs3 ! q = put_members ''faces'' (mtext 0 fs ?k)
                      (put_members ''edges'' (mtext 0 es ?k)
                        (put_members ''vertices'' (mtext 0 vs ?k) (subset_main (ss ! q))))"
      using F(3) [rule_format, OF x2] E(3) [rule_format, OF x1] V(3) [rule_format, OF x0] q
      by (simp add: hs0_def)
    then show ?thesis
      by (simp only: subset_elem_put_members)
  qed
  then have hs3: "hs3 = map (\<lambda>s. subset_elem s vs es fs) ss"
    using F(2) E(2) V(2) by (intro nth_equalityI) (simp_all add: hs0_def)
  show ?thesis
    using edit layers sm V(1) E(1) F(1) by (simp add: add_subsets_def layer_loop_def hs3)
qed

theorem add_subsets_spec_witness:
  "distinct (map s_index [\<lparr>s_name = ''a'', s_index = 0, s_color = []\<rparr>, \<lparr>s_name = ''b'', s_index = 1, s_color = []\<rparr>])
   \<and> in_edit_mode \<lparr>m_verts = [], m_edges = [], m_polys = [], vertex_subset = Some [0, 0, 1],
                    edge_subset = Some [1], face_subset = Some [], in_edit_mode = True\<rparr>
   \<and> set [0, 0, 1] \<union> set [1] \<union> set [] \<subseteq> s_index ` set [\<lparr>s_name = ''a'', s_index = 0, s_color = []\<rparr>, \<lparr>s_name = ''b'', s_index = 1, s_color = []\<rparr>]
   \<and> add_subsets [\<lparr>s_name = ''a'', s_index = 0, s_color = []\<rparr>, \<lparr>s_name = ''b'', s_index = 1, s_color = []\<rparr>]
       \<lparr>m_verts = [], m_edges = [], m_polys = [], vertex_subset = Some [0, 0, 1],
        edge_subset = Some [1], face_subset = Some [], in_edit_mode = True\<rparr> grid_root
     = Inr (append_child (XElem ''subset_handler'' [(''name'', ''defSH'')] None
              [subset_elem \<lparr>s_name = ''a'', s_index = 0, s_color = []\<rparr> [0, 0, 1] [1] [],
               subset_elem \<lparr>s_name = ''b'', s_index = 1, s_color = []\<rparr> [0, 0, 1] [1] []]) grid_root)"
  using add_subsets_spec [of "[\<lparr>s_name = ''a'', s_index = 0, s_color = []\<rparr>, \<lparr>s_name = ''b'', s_index = 1, s_color = []\<rparr>]"
      "\<lparr>m_verts = [], m_edges = [], m_polys = [], vertex_subset = Some [0, 0, 1],
        edge_subset = Some [1], face_subset = Some [], in_edit_mode = True\<rparr>" "[0, 0, 1]" "[1]" "[]" grid_root]
  by simp

subsection \<open>The operator\<close>

text \<open>C2: the export operator never finishes: whatever the scene and the
  active object, \<open>execute\<close> raises (at the latest at the call of
  \<open>add_mark_subset_handler\<close> with one argument too many), so no file is
  ever written.\<close>

theorem export_execute_never_finishes: "\<exists>e. export_execute sc obj = Inl e"
  by (cases obj; cases "add_subsets (ugx_subsets sc) (the obj) (fst (add_faces (the obj)
        (add_edges (the obj) (add_vertices (the obj) grid_root))))")
     (auto simp: export_execute_def Let_def)

subsection \<open>Shape of the exporter's output\<close>

lemma fmt_coord_no_space: "CHR '' '' \<notin> set (fmt_coord c)"
  by (simp add: fmt_coord_def py_repr_no_space py_str_int_no_space)

lemma str_nat_no_space: "CHR '' '' \<notin> set (str_nat n)"
  by (simp add: str_nat_def py_str_int_no_space)

lemma vertices_text_shape:
  "concat (map (\<lambda>v. spaced fmt_coord (co v)) vs) = [] \<or>
   last (concat (map (\<lambda>v. spaced fmt_coord (co v)) vs)) = CHR '' ''"
proof -
  have e: "concat (map (\<lambda>v. spaced fmt_coord (co v)) vs) = spaced fmt_coord (concat (map co vs))"
    using spaced_concat [of fmt_coord "map co vs"] by (simp add: comp_def)
  have "spaced fmt_coord xs = [] \<or> last (spaced fmt_coord xs) = CHR '' ''" for xs :: "pyfloat list"
    by (induction xs rule: rev_induct) auto
  then show ?thesis
    unfolding e by blast
qed

lemma findtext_add_vertices:
  "\<not> has_child ''vertices'' g \<Longrightarrow>
   findtext ''vertices'' (add_vertices m g) = Some (concat (map (\<lambda>v. spaced fmt_coord (co v)) (m_verts m)))"
proof -
  assume "\<not> has_child ''vertices'' g"
  then have "find_child ''vertices'' g = None"
    by (simp add: find_child_None_iff)
  then show ?thesis
    by (simp add: add_vertices_def findtext_def)
qed

lemma tags_step:
  assumes e: "etag e' = etag (hs ! p)"
      "set (map etag (echildren e')) \<subseteq> set (map etag (echildren (hs ! p))) \<union> {t}"
    and IH: "length hs' = length (hs[p := e'])"
      "\<forall>q<length (hs[p := e']). etag (hs' ! q) = etag (hs[p := e'] ! q)
          \<and> set (map etag (echildren (hs' ! q))) \<subseteq> set (map etag (echildren (hs[p := e'] ! q))) \<union> {t}"
  shows "length hs' = length hs
     \<and> (\<forall>q<length hs. etag (hs' ! q) = etag (hs ! q)
          \<and> set (map etag (echildren (hs' ! q))) \<subseteq> set (map etag (echildren (hs ! q))) \<union> {t})"
proof -
  have "etag (hs' ! q) = etag (hs ! q)
        \<and> set (map etag (echildren (hs' ! q))) \<subseteq> set (map etag (echildren (hs ! q))) \<union> {t}"
    if q: "q < length hs" for q
  proof (cases "q = p")
    case True
    have h: "etag (hs' ! p) = etag e'"
      "set (map etag (echildren (hs' ! p))) \<subseteq> set (map etag (echildren e')) \<union> {t}"
      using IH(2) [rule_format, of p] q True by simp_all
    have "set (map etag (echildren (hs' ! p))) \<subseteq> set (map etag (echildren (hs ! p))) \<union> {t}"
      by (rule subset_Un_single_trans [OF h(2) e(2)])
    then show ?thesis
      using h(1) e(1) True by simp
  next
    case False
    then show ?thesis
      using IH(2) [rule_format, of q] q by simp
  qed
  then show ?thesis
    using IH(1) by simp
qed

lemma add_members_tags:
  "add_members t i ks hs d = Inr (hs', d') \<Longrightarrow>
   length hs' = length hs
   \<and> (\<forall>p<length hs. etag (hs' ! p) = etag (hs ! p)
        \<and> set (map etag (echildren (hs' ! p))) \<subseteq> set (map etag (echildren (hs ! p))) \<union> {t})"
proof (induction t i ks hs d rule: add_members.induct)
  case (1 t i hs d)
  then show ?case by auto
next
  case (2 t i k ks hs d)
  show ?case
  proof (cases "d k")
    case None
    with 2 show ?thesis by simp
  next
    case (Some a)
    obtain p keys where a: "a = (p, keys)" by (cases a)
    show ?thesis
    proof (cases "t \<in> set keys")
      case True
      let ?hs1 = "hs[p := append_text_child t (str_nat i @ '' '') (hs ! p)]"
      have IH: "length hs' = length ?hs1 \<and> (\<forall>q<length ?hs1. etag (hs' ! q) = etag (?hs1 ! q)
                 \<and> set (map etag (echildren (hs' ! q))) \<subseteq> set (map etag (echildren (?hs1 ! q))) \<union> {t})"
        using 2(1) [OF Some a [symmetric] True] 2(3) Some a True by simp
      have "etag (append_text_child t (str_nat i @ '' '') (hs ! p)) = etag (hs ! p)"
        "set (map etag (echildren (append_text_child t (str_nat i @ '' '') (hs ! p))))
           \<subseteq> set (map etag (echildren (hs ! p))) \<union> {t}"
        by (simp_all add: append_text_child_def text_append_first_tags subset_insertI)
      from tags_step [OF this] IH show ?thesis
        by blast
    next
      case False
      let ?hs1 = "hs[p := append_child (leaf t [] (str_nat i @ '' '')) (hs ! p)]"
      have IH: "length hs' = length ?hs1 \<and> (\<forall>q<length ?hs1. etag (hs' ! q) = etag (?hs1 ! q)
                 \<and> set (map etag (echildren (hs' ! q))) \<subseteq> set (map etag (echildren (?hs1 ! q))) \<union> {t})"
      proof -
        have "add_members t (Suc i) ks ?hs1 (d(k \<mapsto> (p, keys @ [t]))) = Inr (hs', d')"
          using 2(3) Some a False by simp
        from 2(2) [OF Some a [symmetric] False this] show ?thesis
          by simp
      qed
      have "etag (append_child (leaf t [] (str_nat i @ '' '')) (hs ! p)) = etag (hs ! p)"
        "set (map etag (echildren (append_child (leaf t [] (str_nat i @ '' '')) (hs ! p))))
           \<subseteq> set (map etag (echildren (hs ! p))) \<union> {t}"
        by auto
      from tags_step [OF this] IH show ?thesis
        by blast
    qed
  qed
qed

lemma add_members_tags_all:
  assumes "add_members t i ks hs d = Inr (hs', d')"
    and "\<forall>e\<in>set hs. etag e = g \<and> set (map etag (echildren e)) \<subseteq> A"
  shows "\<forall>e\<in>set hs'. etag e = g \<and> set (map etag (echildren e)) \<subseteq> A \<union> {t}"
proof
  fix e assume "e \<in> set hs'"
  then obtain p where p: "p < length hs'" "e = hs' ! p"
    by (auto simp: in_set_conv_nth)
  have T: "length hs' = length hs"
    "etag (hs' ! p) = etag (hs ! p)"
    "set (map etag (echildren (hs' ! p))) \<subseteq> set (map etag (echildren (hs ! p))) \<union> {t}"
    using add_members_tags [OF assms(1)] p(1) by auto
  have "hs ! p \<in> set hs"
    using p(1) T(1) by simp
  then have h: "etag (hs ! p) = g" "set (map etag (echildren (hs ! p))) \<subseteq> A"
    using assms(2) by blast+
  have "set (map etag (echildren (hs' ! p))) \<subseteq> A \<union> {t}"
    using T(3) h(2) by (rule order_trans [OF _ Un_mono [OF _ order_refl]])
  then show "etag e = g \<and> set (map etag (echildren e)) \<subseteq> A \<union> {t}"
    using T(2) h(1) p(2) by simp
qed

lemma add_subsets_Inr:
  assumes "add_subsets ss m grid = Inr g'"
  shows "\<exists>vs p1 es p2 fs p3.
     add_members ''vertices'' 0 vs (map subset_main ss) (snd (subset_mains ss [] Map.empty)) = Inr p1
     \<and> add_members ''edges'' 0 es (fst p1) (snd p1) = Inr p2
     \<and> add_members ''faces'' 0 fs (fst p2) (snd p2) = Inr p3
     \<and> g' = append_child (XElem ''subset_handler'' [(''name'', ''defSH'')] None (fst p3)) grid"
proof -
  obtain hs0 d0 where sm: "subset_mains ss [] Map.empty = (hs0, d0)"
    by (cases "subset_mains ss [] Map.empty")
  have hs0: "hs0 = map subset_main ss"
    using subset_mains_fst [of ss "[]" Map.empty] sm by simp
  have "bind_res (layer_loop (length (m_verts m)) (vertex_subset m)) (\<lambda>vs.
        bind_res (add_members ''vertices'' 0 vs hs0 d0) (\<lambda>p1.
        bind_res (layer_loop (length (m_edges m)) (edge_subset m)) (\<lambda>es.
        bind_res (add_members ''edges'' 0 es (fst p1) (snd p1)) (\<lambda>p2.
        bind_res (layer_loop (length (m_polys m)) (face_subset m)) (\<lambda>fs.
        bind_res (add_members ''faces'' 0 fs (fst p2) (snd p2)) (\<lambda>p3.
        Inr (append_child (XElem ''subset_handler'' [(''name'', ''defSH'')] None (fst p3)) grid)))))))
     = Inr g'"
    using assms by (simp add: add_subsets_def sm case_prod_unfold split: if_splits)
  then show ?thesis
  proof (elim bind_res_Inr_E)
    fix vs p1 es p2 fs p3
    assume "add_members ''vertices'' 0 vs hs0 d0 = Inr p1"
      "add_members ''edges'' 0 es (fst p1) (snd p1) = Inr p2"
      "add_members ''faces'' 0 fs (fst p2) (snd p2) = Inr p3"
      "Inr (append_child (XElem ''subset_handler'' [(''name'', ''defSH'')] None (fst p3)) grid) = Inr g'"
    then show ?thesis
      using sm hs0 by (intro exI [of _ vs] exI [of _ p1] exI [of _ es] exI [of _ p2] exI [of _ fs] exI [of _ p3]) simp
  qed
qed

lemma add_subsets_handler:
  assumes "add_subsets ss m grid = Inr g'"
  shows "\<exists>hs. g' = append_child (XElem ''subset_handler'' [(''name'', ''defSH'')] None hs) grid
            \<and> (\<forall>e\<in>set hs. etag e = ''subset''
                  \<and> set (map etag (echildren e)) \<subseteq> {''vertices'', ''edges'', ''faces''})"
proof -
  obtain vs p1 es p2 fs p3 where
    V: "add_members ''vertices'' 0 vs (map subset_main ss) (snd (subset_mains ss [] Map.empty)) = Inr (fst p1, snd p1)" and
    E: "add_members ''edges'' 0 es (fst p1) (snd p1) = Inr (fst p2, snd p2)" and
    F: "add_members ''faces'' 0 fs (fst p2) (snd p2) = Inr (fst p3, snd p3)" and
    g: "g' = append_child (XElem ''subset_handler'' [(''name'', ''defSH'')] None (fst p3)) grid"
    using add_subsets_Inr [OF assms] by auto
  have "\<forall>e\<in>set (map subset_main ss). etag e = ''subset'' \<and> set (map etag (echildren e)) \<subseteq> {}"
    by (simp add: subset_main_def)
  then have "\<forall>e\<in>set (fst p3). etag e = ''subset''
               \<and> set (map etag (echildren e)) \<subseteq> {} \<union> {''vertices''} \<union> {''edges''} \<union> {''faces''}"
    by (rule add_members_tags_all [OF F add_members_tags_all [OF E add_members_tags_all [OF V]]])
  with g show ?thesis
    by auto
qed

end
