(* ===== verification/Importer.thy ===== *)
theory Importer
  imports Blender Xml
begin

text \<open>
  The import operator \<open>UGXImporter\<close> of \<open>src/io_ugx/ugx_io.py\<close>.  The grid
  element is the root of the parsed file, a parameter of the model (the code
  parses a fixed path).  Every reader is a function of the grid and the BMesh
  under construction returning the BMesh or the exception it raises:
  \<open>get_vertices\<close>, \<open>get_edges\<close>, \<open>get_triangles\<close>, \<open>get_quads\<close>.
  \<open>get_subsets\<close> also changes the scene, and the subsets it appends stay
  there when it raises, so it returns an \<open>outcome\<close> of the pair scene and
  BMesh.  \<open>import_execute\<close> composes them as \<open>execute\<close> does and returns
  the outcome of the scene: the BMesh is local to \<open>execute\<close> and reaches the
  mesh only through \<open>bm.to_mesh\<close>, after the last reader.
\<close>

text \<open>\<open>grid.findtext(t).split(" ")\<close>: \<open>findtext\<close> gives None for a missing
  tag, and \<open>None.split\<close> raises AttributeError.\<close>

definition text_tokens :: "string \<Rightarrow> xelem \<Rightarrow> string list res" where
  "text_tokens t e = (case findtext t e of None \<Rightarrow> Inl AttributeError
                                          | Some s \<Rightarrow> Inr (py_split CHR '' '' s))"

text \<open>\<open>bm.verts[i]\<close> after \<open>ensure_lookup_table\<close>, negative indices
  counted from the end; the result is the vertex's position.\<close>

definition vert_ref :: "bmesh \<Rightarrow> int \<Rightarrow> nat res" where
  "vert_ref bm i = (case py_pos (length (bm_verts bm)) i of None \<Rightarrow> Inl IndexError | Some j \<Rightarrow> Inr j)"

text \<open>The loop \<open>for i in range(len(verts) // 3)\<close> of \<open>get_vertices\<close>:
  consecutive triples, a shorter rest ignored.\<close>

fun verts_loop :: "pyfloat list \<Rightarrow> bmesh \<Rightarrow> bmesh" where
  "verts_loop (a # b # c # r) bm = verts_loop r (bm_vert_new [a, b, c] bm)"
| "verts_loop r bm = bm"

definition get_vertices :: "xelem \<Rightarrow> bmesh \<Rightarrow> bmesh res" where
  "get_vertices grid bm =
     bind_res (text_tokens ''vertices'' grid) (\<lambda>ts.
     bind_res (map_res py_float ts) (\<lambda>vs. Inr (verts_loop vs bm)))"

fun edges_loop :: "int list \<Rightarrow> bmesh \<Rightarrow> bmesh res" where
  "edges_loop (a # b # r) bm =
     bind_res (vert_ref bm a) (\<lambda>va. bind_res (vert_ref bm b) (\<lambda>vb.
     bind_res (bm_edge_new va vb bm) (edges_loop r)))"
| "edges_loop r bm = Inr bm"

definition get_edges :: "xelem \<Rightarrow> bmesh \<Rightarrow> bmesh res" where
  "get_edges grid bm =
     bind_res (text_tokens ''edges'' grid) (\<lambda>ts.
     bind_res (map_res py_int ts) (\<lambda>es. edges_loop es bm))"

fun tris_loop :: "int list \<Rightarrow> bmesh \<Rightarrow> bmesh res" where
  "tris_loop (a # b # c # r) bm =
     bind_res (map_res (vert_ref bm) [a, b, c]) (\<lambda>vs.
     bind_res (bm_face_new vs bm) (tris_loop r))"
| "tris_loop r bm = Inr bm"

definition get_triangles :: "xelem \<Rightarrow> bmesh \<Rightarrow> bmesh res" where
  "get_triangles grid bm =
     bind_res (text_tokens ''triangles'' grid) (\<lambda>ts.
     bind_res (map_res py_int ts) (\<lambda>ts'. tris_loop ts' bm))"

fun quads_loop :: "int list \<Rightarrow> bmesh \<Rightarrow> bmesh res" where
  "quads_loop (a # b # c # d # r) bm =
     bind_res (map_res (vert_ref bm) [a, b, c, d]) (\<lambda>vs.
     bind_res (bm_face_new vs bm) (quads_loop r))"
| "quads_loop r bm = Inr bm"

definition get_quads :: "xelem \<Rightarrow> bmesh \<Rightarrow> bmesh res" where
  "get_quads grid bm =
     bind_res (text_tokens ''quads'' grid) (\<lambda>ts.
     bind_res (map_res py_int ts) (\<lambda>qs. quads_loop qs bm))"

subsection \<open>Subsets\<close>

text \<open>\<open>layers.int.new(name)\<close> on a BMesh without such a layer: every element
  gets 0.\<close>

definition new_layers :: "bmesh \<Rightarrow> bmesh" where
  "new_layers bm = bm\<lparr>bm_vlayer := replicate (length (bm_verts bm)) 0,
                      bm_elayer := replicate (length (bm_edges bm)) 0,
                      bm_flayer := replicate (length (bm_faces bm)) 0\<rparr>"

text \<open>\<open>for v in s.findtext(t).split(" "): seq[int(v)][layer] = i\<close>, each
  token converted when it is reached; nothing happens when \<open>s\<close> has no
  child \<open>t\<close>.\<close>

fun member_loop :: "int \<Rightarrow> string list \<Rightarrow> int list \<Rightarrow> int list res" where
  "member_loop i [] l = Inr l"
| "member_loop i (tok # toks) l =
     bind_res (py_int tok) (\<lambda>k. bind_res (py_setitem l k i) (member_loop i toks))"

definition read_members :: "string \<Rightarrow> xelem \<Rightarrow> int \<Rightarrow> int list \<Rightarrow> int list res" where
  "read_members t s i l =
     (case findtext t s of
        None \<Rightarrow> Inr l
      | Some txt \<Rightarrow> member_loop i (py_split CHR '' '' txt) l)"

definition set_last_subset :: "(ugx_subset \<Rightarrow> ugx_subset) \<Rightarrow> scene \<Rightarrow> scene" where
  "set_last_subset f sc = sc\<lparr>ugx_subsets := butlast (ugx_subsets sc) @ [f (last (ugx_subsets sc))]\<rparr>"

text \<open>One iteration of the loop of \<open>get_subsets\<close> for the subset element
  \<open>s\<close> at position \<open>i\<close>: \<open>ugx_subsets.add()\<close> first, then the name (None
  raises TypeError), the colour (None raises AttributeError, a bad float
  ValueError, a length other than 4 ValueError), the index \<open>i\<close>, then the
  members.  When a member loop raises, the BMesh of the outcome is the one
  before the iteration: \<open>execute\<close> drops the BMesh on every exception.\<close>

definition subset_step :: "xelem \<Rightarrow> int \<Rightarrow> scene \<times> bmesh \<Rightarrow> (scene \<times> bmesh) outcome" where
  "subset_step s i st =
     (let sc0 = (fst st)\<lparr>ugx_subsets := ugx_subsets (fst st) @ [default_subset]\<rparr>; bm = snd st
      in (case get_attr ''name'' s of
        None \<Rightarrow> Raised TypeError (sc0, bm)
      | Some nm \<Rightarrow>
         (let sc1 = set_last_subset (s_name_update (\<lambda>_. nm)) sc0 in
          (case get_attr ''color'' s of
             None \<Rightarrow> Raised AttributeError (sc1, bm)
           | Some col \<Rightarrow>
              (case bind_res (map_res py_float (py_split CHR '' '' col))
                             (\<lambda>cs. set_color cs (last (ugx_subsets sc1))) of
                 Inl e \<Rightarrow> Raised e (sc1, bm)
               | Inr sub \<Rightarrow>
                  (let sc2 = set_last_subset (\<lambda>_. sub\<lparr>s_index := i\<rparr>) sc1 in
                   lift_res (sc2, bm)
                     (bind_res (read_members ''vertices'' s i (bm_vlayer bm)) (\<lambda>vl.
                      bind_res (read_members ''edges'' s i (bm_elayer bm)) (\<lambda>el.
                      bind_res (read_members ''triangles'' s i (bm_flayer bm)) (\<lambda>fl.
                      bind_res (read_members ''quads'' s i fl) (\<lambda>fl'.
                      Inr (sc2, bm\<lparr>bm_vlayer := vl, bm_elayer := el, bm_flayer := fl'\<rparr>))))))))))))"

fun subsets_loop :: "xelem list \<Rightarrow> int \<Rightarrow> scene \<times> bmesh \<Rightarrow> (scene \<times> bmesh) outcome" where
  "subsets_loop [] i st = Ok st"
| "subsets_loop (s # ss) i st = ok_then (subset_step s i st) (subsets_loop ss (i + 1))"

text \<open>\<open>grid.find("subset_handler").findall("subset")\<close>: a missing handler
  raises AttributeError before the layers are created.\<close>

definition get_subsets :: "xelem \<Rightarrow> bmesh \<Rightarrow> scene \<Rightarrow> (scene \<times> bmesh) outcome" where
  "get_subsets grid bm sc =
     (case find_child ''subset_handler'' grid of
        None \<Rightarrow> Raised AttributeError (sc, bm)
      | Some h \<Rightarrow> subsets_loop (findall ''subset'' h) 0 (sc, new_layers bm))"

text \<open>\<open>get_selector(self, grid)\<close>: \<open>grid.find("selector")\<close>, then the
  texts of its three children; without a selector the \<open>findtext\<close> on
  None raises AttributeError.  The print is not modelled.\<close>

definition get_selector :: "xelem \<Rightarrow> (string option \<times> string option \<times> string option) res" where
  "get_selector grid =
     (case find_child ''selector'' grid of
        None \<Rightarrow> Inl AttributeError
      | Some sel \<Rightarrow> Inr (findtext ''vertices'' sel, findtext ''edges'' sel, findtext ''faces'' sel))"

subsection \<open>The operator\<close>

definition empty_mesh :: mesh where
  "empty_mesh = \<lparr>m_verts = [], m_edges = [], m_polys = [], vertex_subset = None,
                 edge_subset = None, face_subset = None, in_edit_mode = False\<rparr>"

definition link_object :: "string \<Rightarrow> mesh \<Rightarrow> scene \<Rightarrow> scene" where
  "link_object nm m sc = sc\<lparr>scene_objects := scene_objects sc @ [(nm, m)]\<rparr>"

text \<open>\<open>execute\<close>: a new empty mesh and object \<open>UGXObject\<close> linked to the
  scene, the readers in order (triangles and quads only when the grid has
  such a child), then \<open>self.get_selector(grid, bm)\<close>, one positional
  argument too many for \<open>get_selector(self, grid)\<close>: TypeError.\<close>

definition import_execute :: "xelem \<Rightarrow> scene \<Rightarrow> scene outcome" where
  "import_execute grid sc =
     (let sc1 = link_object ''UGXObject'' empty_mesh sc;
          bms = bind_res (get_vertices grid bmesh_new) (\<lambda>bm1.
                bind_res (get_edges grid bm1) (\<lambda>bm2.
                bind_res (if has_child ''triangles'' grid then get_triangles grid bm2 else Inr bm2) (\<lambda>bm3.
                if has_child ''quads'' grid then get_quads grid bm3 else Inr bm3)))
      in case bms of
           Inl e \<Rightarrow> Raised e sc1
         | Inr bm \<Rightarrow>
             (case get_subsets grid bm sc1 of
                Raised e st \<Rightarrow> Raised e (fst st)
              | Ok st \<Rightarrow> Raised TypeError (fst st)))"

subsection \<open>Tokens, parsing errors and the reading loops\<close>

lemma set_last_subset_snoc [simp]:
  "set_last_subset f (sc\<lparr>ugx_subsets := xs @ [x]\<rparr>) = sc\<lparr>ugx_subsets := xs @ [f x]\<rparr>"
  by (simp add: set_last_subset_def)

lemma subset_step_frame:
  "\<exists>x. fst (state_of (subset_step s i st)) = (fst st)\<lparr>ugx_subsets := ugx_subsets (fst st) @ [x]\<rparr>"
  by (auto simp: subset_step_def Let_def lift_res_def bind_res_eq_Inr
           split: option.split sum.split)

lemma subsets_loop_frame:
  "\<exists>xs. fst (state_of (subsets_loop ss i st)) = (fst st)\<lparr>ugx_subsets := ugx_subsets (fst st) @ xs\<rparr>
        \<and> length xs \<le> length ss"
proof (induction ss arbitrary: i st)
  case Nil
  then show ?case by simp
next
  case (Cons s ss)
  obtain x where x: "fst (state_of (subset_step s i st)) = (fst st)\<lparr>ugx_subsets := ugx_subsets (fst st) @ [x]\<rparr>"
    using subset_step_frame by blast
  show ?case
  proof (cases "subset_step s i st")
    case (Ok st1)
    obtain xs where "fst (state_of (subsets_loop ss (i + 1) st1)) = (fst st1)\<lparr>ugx_subsets := ugx_subsets (fst st1) @ xs\<rparr>"
        "length xs \<le> length ss"
      using Cons.IH by blast
    with Ok x show ?thesis
      by (intro exI [of _ "x # xs"]) simp
  next
    case (Raised e st1)
    with x show ?thesis
      by (intro exI [of _ "[x]"]) simp
  qed
qed

lemma get_subsets_frame:
  "\<exists>xs. fst (state_of (get_subsets grid bm sc)) = sc\<lparr>ugx_subsets := ugx_subsets sc @ xs\<rparr>"
proof (cases "find_child ''subset_handler'' grid")
  case None
  then show ?thesis
    by (intro exI [of _ "[]"]) (simp add: get_subsets_def)
next
  case (Some h)
  then show ?thesis
    using subsets_loop_frame [of "findall ''subset'' h" 0 "(sc, new_layers bm)"]
    by (auto simp: get_subsets_def)
qed

lemma subsets_loop_Ok:
  "subsets_loop ss i st = Ok st' \<Longrightarrow>
   \<exists>xs. fst st' = (fst st)\<lparr>ugx_subsets := ugx_subsets (fst st) @ xs\<rparr>
      \<and> map s_index xs = map (\<lambda>k. i + int k) [0..<length ss]
      \<and> list_all2 (\<lambda>s x. get_attr ''name'' s = Some (s_name x)) ss xs"
proof (induction ss arbitrary: i st)
  case Nil
  then show ?case by simp
next
  case (Cons s ss)
  obtain st1 where st1: "subset_step s i st = Ok st1" "subsets_loop ss (i + 1) st1 = Ok st'"
    using Cons.prems by (cases "subset_step s i st") auto
  obtain nm col sub where step: "get_attr ''name'' s = Some nm" "get_attr ''color'' s = Some col"
      "fst st1 = (fst st)\<lparr>ugx_subsets := ugx_subsets (fst st) @ [sub\<lparr>s_index := i\<rparr>]\<rparr>"
      "s_name sub = nm"
    using st1(1)
    by (auto simp: subset_step_def Let_def lift_res_def bind_res_eq_Inr set_color_def
             split: option.splits sum.splits if_splits)
  obtain xs where xs: "fst st' = (fst st1)\<lparr>ugx_subsets := ugx_subsets (fst st1) @ xs\<rparr>"
      "map s_index xs = map (\<lambda>k. i + 1 + int k) [0..<length ss]"
      "list_all2 (\<lambda>s x. get_attr ''name'' s = Some (s_name x)) ss xs"
    using Cons.IH [OF st1(2)] by blast
  have "map (\<lambda>k. i + int k) [0..<length (s # ss)] = i # map (\<lambda>k. i + 1 + int k) [0..<length ss]"
    by (simp add: upt_conv_Cons map_Suc_upt [symmetric] del: upt_Suc) 
  then show ?case
    using xs step by (intro exI [of _ "sub\<lparr>s_index := i\<rparr> # xs"]) simp
qed

lemma verts_loop_triples:
  "(\<And>c. c \<in> set cs \<Longrightarrow> length c = 3) \<Longrightarrow>
   bm_verts (verts_loop (concat cs) bm) = bm_verts bm @ cs"
proof (induction cs arbitrary: bm)
  case Nil
  then show ?case by simp
next
  case (Cons c cs)
  then have "length c = 3"
    by simp
  then obtain a b d where "c = [a, b, d]"
    by (auto simp: numeral_3_eq_3 length_Suc_conv)
  with Cons show ?case by simp
qed

subsection \<open>Properties of the readers\<close>

text \<open>C6: the pattern-matching loop of the model is the loop of the code:
  \<open>get_vertices\<close> creates, for \<open>i\<close> below \<open>len(verts) // 3\<close>, the vertex
  \<open>verts[i*3:(i+1)*3]\<close>, and silently drops the last \<open>len(verts) mod 3\<close>
  numbers.\<close>

theorem verts_loop_verts:
  "bm_verts (verts_loop vs bm) = bm_verts bm @ map (\<lambda>i. take 3 (drop (3 * i) vs)) [0..<length vs div 3]"
proof (induction vs bm rule: verts_loop.induct)
  case (1 a b c r bm)
  have "map (\<lambda>i. take 3 (drop (3 * i) (a # b # c # r))) [0..<length (a # b # c # r) div 3]
        = [a, b, c] # map (\<lambda>i. take 3 (drop (3 * i) r)) [0..<length r div 3]"
  proof -
    have "length (a # b # c # r) div 3 = Suc (length r div 3)"
      by simp
    then have "[0..<length (a # b # c # r) div 3] = 0 # map Suc [0..<length r div 3]"
      by (simp only: upt_conv_Cons zero_less_Suc map_Suc_upt)
    moreover have "drop (3 + k) (a # b # c # r) = drop k r" for k
      by (simp add: numeral_3_eq_3)
    ultimately show ?thesis
      by simp
  qed
  with 1 show ?case by simp
qed auto

text \<open>C5: \<open>get_vertices\<close> raises ValueError when the vertices text is empty
  or ends with a space: \<open>split(" ")\<close> then yields an empty last token,
  which \<open>float\<close> rejects.\<close>

theorem get_vertices_bad_text:
  assumes "findtext ''vertices'' grid = Some w" "w = [] \<or> last w = CHR '' ''"
  shows "get_vertices grid bm = Inl ValueError"
  using map_res_last_empty [of py_float ValueError w] assms py_float_Inl
  by (simp add: get_vertices_def text_tokens_def)

theorem get_vertices_bad_text_witness:
  "findtext ''vertices'' (XElem ''grid'' [] None [leaf ''vertices'' [] ''1 2 3 '']) = Some ''1 2 3 ''
   \<and> last ''1 2 3 '' = CHR '' ''
   \<and> get_vertices (XElem ''grid'' [] None [leaf ''vertices'' [] ''1 2 3 '']) bmesh_new = Inl ValueError"
proof -
  have f: "findtext ''vertices'' (XElem ''grid'' [] None [leaf ''vertices'' [] ''1 2 3 '']) = Some ''1 2 3 ''"
    by (simp add: findtext_def find_child_def)
  have l: "last ''1 2 3 '' = CHR '' ''"
    by simp
  show ?thesis
    using get_vertices_bad_text [OF f] l f by simp
qed

text \<open>C7: a member list whose tokens are all integers that index the layer
  (negative ones counted from the end) sets exactly the positions they name
  to the subset's position \<open>i\<close> and leaves the others.\<close>

theorem member_loop_ok:
  assumes "list_all2 (\<lambda>tok k. py_int tok = Inr k) toks ks"
    and "\<forall>k\<in>set ks. py_pos (length l) k \<noteq> None"
  shows "\<exists>l'. member_loop i toks l = Inr l' \<and> length l' = length l
            \<and> (\<forall>j<length l. l' ! j = (if \<exists>k\<in>set ks. py_pos (length l) k = Some j then i else l ! j))"
  using assms
proof (induction toks arbitrary: ks l)
  case Nil
  then show ?case by simp
next
  case (Cons tok toks)
  obtain k ks' where ks: "ks = k # ks'" "py_int tok = Inr k" "list_all2 (\<lambda>tok k. py_int tok = Inr k) toks ks'"
    using Cons.prems(1) by (cases ks) auto
  obtain j0 where j0: "py_pos (length l) k = Some j0"
    using Cons.prems(2) ks(1) by auto
  have set: "py_setitem l k i = Inr (l[j0 := i])"
    by (simp add: py_setitem_def j0)
  obtain l' where l': "member_loop i toks (l[j0 := i]) = Inr l'" "length l' = length l"
    "\<forall>j<length l. l' ! j = (if \<exists>k\<in>set ks'. py_pos (length l) k = Some j then i else l[j0 := i] ! j)"
    using Cons.IH [OF ks(3), of "l[j0 := i]"] Cons.prems(2) ks(1) by auto
  have "member_loop i (tok # toks) l = Inr l'"
    using ks(2) set l'(1) by simp
  moreover have "l' ! j = (if \<exists>k\<in>set ks. py_pos (length l) k = Some j then i else l ! j)"
    if "j < length l" for j
    using l'(3) that j0 ks(1) by (cases "j = j0") auto
  ultimately show ?case
    using l'(2) by blast
qed

theorem member_loop_ok_witness:
  "list_all2 (\<lambda>tok k. py_int tok = Inr k) [''-1'', ''0''] [-1, 0]
   \<and> py_pos 3 (-1) = Some 2 \<and> py_pos 3 0 = Some 0
   \<and> member_loop 7 [''-1'', ''0''] [0, 0, 0] = Inr [7, 0, 7]"
proof -
  have a: "list_all2 (\<lambda>tok k. py_int tok = Inr k) [''-1'', ''0''] [-1, 0]"
    by code_simp
  have b: "\<forall>k\<in>set [-1, 0]. py_pos (length [0, 0, 0 :: int]) k \<noteq> None"
    by (simp add: py_pos_def)
  obtain l' where l': "member_loop 7 [''-1'', ''0''] [0, 0, 0] = Inr l'" "length l' = length [0, 0, 0 :: int]"
    "\<forall>j<length [0, 0, 0 :: int]. l' ! j =
        (if \<exists>k\<in>set [-1, 0]. py_pos (length [0, 0, 0 :: int]) k = Some j then 7 else [0, 0, 0 :: int] ! j)"
    using member_loop_ok [OF a b, of 7] by blast
  have "l' ! 0 = 7" "l' ! 1 = 0" "l' ! 2 = 7"
    using l'(3) [rule_format, of 0] l'(3) [rule_format, of 1] l'(3) [rule_format, of 2]
    by (simp_all add: py_pos_def)
  then have "l' = [7, 0, 7]"
    using l'(2) by (simp add: list_eq_iff_nth_eq less_Suc_eq numeral_2_eq_2)
  then show ?thesis
    using a l'(1) by (simp add: py_pos_def)
qed

text \<open>C8: when \<open>get_subsets\<close> returns, it has appended one subset per
  \<open>subset\<close> element of the handler, in file order, named as the element and
  with index its position in the file, whatever the exporter wrote.\<close>

theorem get_subsets_Ok:
  assumes "get_subsets grid bm sc = Ok st'"
  shows "\<exists>h xs. find_child ''subset_handler'' grid = Some h
     \<and> fst st' = sc\<lparr>ugx_subsets := ugx_subsets sc @ xs\<rparr>
     \<and> map s_index xs = map int [0..<length (findall ''subset'' h)]
     \<and> list_all2 (\<lambda>s x. get_attr ''name'' s = Some (s_name x)) (findall ''subset'' h) xs"
proof -
  obtain h where h: "find_child ''subset_handler'' grid = Some h"
    using assms by (cases "find_child ''subset_handler'' grid") (auto simp: get_subsets_def)
  then have "subsets_loop (findall ''subset'' h) 0 (sc, new_layers bm) = Ok st'"
    using assms by (simp add: get_subsets_def)
  from subsets_loop_Ok [OF this] h show ?thesis
    by auto
qed

theorem get_subsets_Ok_witness:
  "get_subsets (XElem ''grid'' [] None
       [XElem ''subset_handler'' [(''name'', ''defSH'')] None
          [XElem ''subset'' [(''name'', ''inner''), (''color'', ''0 0.5 1 1'')] None [],
           XElem ''subset'' [(''name'', ''outer''), (''color'', ''1 0 0 1'')] None [leaf ''vertices'' [] ''0 -1'']]])
     (bmesh_new\<lparr>bm_verts := [[], [], []]\<rparr>) \<lparr>ugx_subsets = [], active_subset = 0, current_subset = 0, view_check = False, scene_objects = []\<rparr>
     = Ok (\<lparr>ugx_subsets =
           [\<lparr>s_name = ''inner'', s_index = 0, s_color = [Fin 0 0, Fin 5 (- 1), Fin 1 0, Fin 1 0]\<rparr>,
            \<lparr>s_name = ''outer'', s_index = 1, s_color = [Fin 1 0, Fin 0 0, Fin 0 0, Fin 1 0]\<rparr>],
           active_subset = 0, current_subset = 0, view_check = False, scene_objects = []\<rparr>,
        \<lparr>bm_verts = [[], [], []], bm_edges = [], bm_faces = [],
           bm_vlayer = [1, 0, 1], bm_elayer = [], bm_flayer = []\<rparr>)
   \<and> (\<exists>h xs. find_child ''subset_handler'' (XElem ''grid'' [] None
       [XElem ''subset_handler'' [(''name'', ''defSH'')] None
          [XElem ''subset'' [(''name'', ''inner''), (''color'', ''0 0.5 1 1'')] None [],
           XElem ''subset'' [(''name'', ''outer''), (''color'', ''1 0 0 1'')] None [leaf ''vertices'' [] ''0 -1'']]]) = Some h
       \<and> fst (\<lparr>ugx_subsets =
           [\<lparr>s_name = ''inner'', s_index = 0, s_color = [Fin 0 0, Fin 5 (- 1), Fin 1 0, Fin 1 0]\<rparr>,
            \<lparr>s_name = ''outer'', s_index = 1, s_color = [Fin 1 0, Fin 0 0, Fin 0 0, Fin 1 0]\<rparr>],
           active_subset = 0, current_subset = 0, view_check = False, scene_objects = []\<rparr>,
        \<lparr>bm_verts = [[], [], []], bm_edges = [], bm_faces = [],
           bm_vlayer = [1, 0, 1], bm_elayer = [], bm_flayer = []\<rparr>) = \<lparr>ugx_subsets = [], active_subset = 0, current_subset = 0, view_check = False, scene_objects = []\<rparr>\<lparr>ugx_subsets := [] @ xs\<rparr>
       \<and> map s_index xs = map int [0..<length (findall ''subset'' h)]
       \<and> list_all2 (\<lambda>s x. get_attr ''name'' s = Some (s_name x)) (findall ''subset'' h) xs)"
proof -
  have ok: "get_subsets (XElem ''grid'' [] None
       [XElem ''subset_handler'' [(''name'', ''defSH'')] None
          [XElem ''subset'' [(''name'', ''inner''), (''color'', ''0 0.5 1 1'')] None [],
           XElem ''subset'' [(''name'', ''outer''), (''color'', ''1 0 0 1'')] None [leaf ''vertices'' [] ''0 -1'']]])
     (bmesh_new\<lparr>bm_verts := [[], [], []]\<rparr>) \<lparr>ugx_subsets = [], active_subset = 0, current_subset = 0, view_check = False, scene_objects = []\<rparr>
     = Ok (\<lparr>ugx_subsets =
           [\<lparr>s_name = ''inner'', s_index = 0, s_color = [Fin 0 0, Fin 5 (- 1), Fin 1 0, Fin 1 0]\<rparr>,
            \<lparr>s_name = ''outer'', s_index = 1, s_color = [Fin 1 0, Fin 0 0, Fin 0 0, Fin 1 0]\<rparr>],
           active_subset = 0, current_subset = 0, view_check = False, scene_objects = []\<rparr>,
        \<lparr>bm_verts = [[], [], []], bm_edges = [], bm_faces = [],
           bm_vlayer = [1, 0, 1], bm_elayer = [], bm_flayer = []\<rparr>)"
    by code_simp
  show ?thesis
    using get_subsets_Ok [OF ok] ok by simp
qed

subsection \<open>The operator\<close>

text \<open>C4: the import operator never finishes: it always raises, at the
  latest at the call \<open>self.get_selector(grid, bm)\<close>, and what it leaves in
  the scene is the linked object \<open>UGXObject\<close> with its empty mesh and the
  subsets appended before the exception; the BMesh never reaches the mesh.\<close>

theorem import_execute_never_finishes:
  "\<exists>e xs. import_execute grid sc =
            Raised e ((link_object ''UGXObject'' empty_mesh sc)\<lparr>ugx_subsets := ugx_subsets sc @ xs\<rparr>)"
proof -
  define sc1 where "sc1 = link_object ''UGXObject'' empty_mesh sc"
  have u: "ugx_subsets sc1 = ugx_subsets sc"
    by (simp add: sc1_def link_object_def)
  have g: "\<exists>e xs. (case get_subsets grid bm sc1 of Raised e st \<Rightarrow> Raised e (fst st)
                       | Ok st \<Rightarrow> Raised TypeError (fst st))
                  = Raised e (sc1\<lparr>ugx_subsets := ugx_subsets sc1 @ xs\<rparr>)" for bm
    using get_subsets_frame [of grid bm sc1]
    by (cases "get_subsets grid bm sc1") auto
  show ?thesis
  proof (cases "bind_res (get_vertices grid bmesh_new) (\<lambda>bm1.
                bind_res (get_edges grid bm1) (\<lambda>bm2.
                bind_res (if has_child ''triangles'' grid then get_triangles grid bm2 else Inr bm2) (\<lambda>bm3.
                if has_child ''quads'' grid then get_quads grid bm3 else Inr bm3)))")
    case (Inl e)
    then show ?thesis
      by (intro exI [of _ e] exI [of _ "[]"]) (simp add: import_execute_def sc1_def link_object_def)
  next
    case (Inr bm)
    then show ?thesis
      using g [of bm] by (simp add: import_execute_def sc1_def [symmetric] u)
  qed
qed

end
