(* ===== verification/Subsets.thy ===== *)
theory Subsets
  imports Blender "HOL-Library.Multiset"
begin

text \<open>
  The subset operators of \<open>src/io_ugx/subsets.py\<close> and the scene defaults
  of \<open>src/io_ugx/__init__.py\<close>.  An operator returns \<open>{'FINISHED'}\<close>,
  \<open>{'CANCELLED'}\<close> or raises; Blender keeps what the operator changed
  before it returned or raised, so an operator is a function to a
  \<open>'s op_outcome\<close> carrying the state reached.  The state of the
  interface is the scene and the active object's mesh.  The collection
  operations \<open>move\<close> and \<open>remove\<close> of a \<open>CollectionProperty\<close> raise
  KeyError for an index outside the collection (negative ones included);
  \<open>collection[i]\<close> counts negative indices from the end.
  \<open>bm.verts.layers.int.new(name)\<close> on a BMesh that has a layer of that
  name already adds a second layer that lookups by name never see, so the
  layer seen by the code keeps its values.
\<close>

datatype 's op_outcome = Finished 's | Cancelled 's | Failed pyexc 's

primrec op_state :: "'s op_outcome \<Rightarrow> 's" where
  "op_state (Finished s) = s"
| "op_state (Cancelled s) = s"
| "op_state (Failed e s) = s"

definition op_then :: "'s op_outcome \<Rightarrow> ('s \<Rightarrow> 's op_outcome) \<Rightarrow> 's op_outcome" where
  "op_then r f = (case r of Finished s \<Rightarrow> f s | _ \<Rightarrow> r)"

subsection \<open>Registration defaults\<close>

text \<open>\<open>register()\<close>: an empty collection, \<open>active_subset = IntProperty(default=1)\<close>,
  \<open>current_subset\<close> and \<open>view_check\<close> at their property defaults.\<close>

definition registered_scene :: "(string \<times> mesh) list \<Rightarrow> scene" where
  "registered_scene objs = \<lparr>ugx_subsets = [], active_subset = 1, current_subset = 0,
                            view_check = False, scene_objects = objs\<rparr>"

subsection \<open>Collection operations\<close>

definition coll_move :: "'a list \<Rightarrow> int \<Rightarrow> int \<Rightarrow> 'a list res" where
  "coll_move xs i j =
     (if 0 \<le> i \<and> i < int (length xs) \<and> 0 \<le> j \<and> j < int (length xs)
      then (let x = xs ! nat i; r = take (nat i) xs @ drop (Suc (nat i)) xs
            in Inr (take (nat j) r @ x # drop (nat j) r))
      else Inl KeyError)"

definition coll_remove :: "'a list \<Rightarrow> int \<Rightarrow> 'a list res" where
  "coll_remove xs i =
     (if 0 \<le> i \<and> i < int (length xs) then Inr (take (nat i) xs @ drop (Suc (nat i)) xs)
      else Inl KeyError)"

subsection \<open>\<open>UGXSubsetsListActions\<close>\<close>

datatype list_act = UP | DOWN | REMOVE | ADD

text \<open>\<open>random_color()\<close>: \<open>[random(), random(), random(), 1.0]\<close>; the three
  numbers \<open>random()\<close> draws are a parameter.\<close>

definition random_color :: "pyfloat \<times> pyfloat \<times> pyfloat \<Rightarrow> pyfloat list" where
  "random_color rgb = [fst rgb, fst (snd rgb), snd (snd rgb), Fin 1 0]"

text \<open>The ADD block: \<open>add()\<close>, then index, name and a colour from
  \<open>random_color()\<close>, and
  \<open>current_subset\<close> to the new position.\<close>

definition add_item :: "pyfloat \<times> pyfloat \<times> pyfloat \<Rightarrow> scene \<Rightarrow> scene op_outcome" where
  "add_item rgb sc =
     (let n = length (ugx_subsets sc) + 1;
          it = default_subset\<lparr>s_index := int n - 1, s_name := ''Subset '' @ py_str_int (int n - 1)\<rparr>
      in case set_color (random_color rgb) it of
           Inl e \<Rightarrow> Failed e (sc\<lparr>ugx_subsets := ugx_subsets sc @ [it]\<rparr>)
         | Inr it' \<Rightarrow> Finished (sc\<lparr>ugx_subsets := ugx_subsets sc @ [it'], current_subset := int n - 1\<rparr>))"

text \<open>The \<open>else\<close> branch of the \<open>try\<close>, for UP, DOWN and REMOVE.\<close>

definition move_or_remove :: "list_act \<Rightarrow> scene \<Rightarrow> scene op_outcome" where
  "move_or_remove act sc =
     (let idx = active_subset sc; xs = ugx_subsets sc in
      case act of
        DOWN \<Rightarrow>
          if idx < int (length xs) - 1 then
            (case bind_res (py_index xs (idx + 1)) (\<lambda>_. coll_move xs idx (idx + 1)) of
               Inl e \<Rightarrow> Failed e sc
             | Inr xs' \<Rightarrow> Finished (sc\<lparr>ugx_subsets := xs', current_subset := current_subset sc + 1\<rparr>))
          else Finished sc
      | UP \<Rightarrow>
          if 1 \<le> idx then
            (case bind_res (py_index xs (idx - 1)) (\<lambda>_. coll_move xs idx (idx - 1)) of
               Inl e \<Rightarrow> Failed e sc
             | Inr xs' \<Rightarrow> Finished (sc\<lparr>ugx_subsets := xs', current_subset := current_subset sc - 1\<rparr>))
          else Finished sc
      | REMOVE \<Rightarrow>
          if length xs = 1 then Cancelled sc
          else
            (let sc1 = sc\<lparr>current_subset := (if current_subset sc = 0 then 0 else current_subset sc - 1)\<rparr>
             in case coll_remove xs idx of
                  Inl e \<Rightarrow> Failed e sc1
                | Inr xs' \<Rightarrow> Finished (sc1\<lparr>ugx_subsets := xs'\<rparr>))
      | ADD \<Rightarrow> Finished sc)"

definition list_action :: "list_act \<Rightarrow> pyfloat \<times> pyfloat \<times> pyfloat \<Rightarrow> scene \<Rightarrow> scene op_outcome" where
  "list_action act rgb sc =
     op_then (case py_pos (length (ugx_subsets sc)) (active_subset sc) of
                None \<Rightarrow> Finished sc
              | Some _ \<Rightarrow> move_or_remove act sc)
             (\<lambda>sc'. if act = ADD then add_item rgb sc' else Finished sc')"

subsection \<open>\<open>UGXSubsetsAdditions\<close>\<close>

datatype elem_kind = VERTICES | EDGES | FACES

text \<open>\<open>for v in elems: if v.select: layer[v.index] = a\<close>.\<close>

definition paint :: "bool list \<Rightarrow> int \<Rightarrow> int list \<Rightarrow> int list" where
  "paint sel a l = fold (\<lambda>i l. if sel ! i then l[i := a] else l) [0..<length sel] l"

definition no_layers :: "mesh \<Rightarrow> bool" where
  "no_layers m \<longleftrightarrow> vertex_subset m = None \<and> edge_subset m = None \<and> face_subset m = None"

text \<open>The call \<open>drawing.draw_faces(obj)\<close> of the FACES branch only changes
  materials, which the mesh model does not hold.\<close>

definition additions :: "elem_kind \<Rightarrow> scene \<Rightarrow> mesh option \<Rightarrow> (scene \<times> mesh option) op_outcome" where
  "additions k sc obj =
     (if ugx_subsets sc = [] then Cancelled (sc, obj)
      else case obj of
        None \<Rightarrow> Failed AttributeError (sc, obj)
      | Some m \<Rightarrow>
          if no_layers m then Cancelled (sc, obj)
          else
            (let m1 = m\<lparr>in_edit_mode := True\<rparr>; a = active_subset sc in
             case k of
               VERTICES \<Rightarrow> (case vertex_subset m of None \<Rightarrow> Failed KeyError (sc, Some m1)
                  | Some l \<Rightarrow> Finished (sc, Some (m1\<lparr>vertex_subset := Some (paint (map vselect (m_verts m)) a l)\<rparr>)))
             | EDGES \<Rightarrow> (case edge_subset m of None \<Rightarrow> Failed KeyError (sc, Some m1)
                  | Some l \<Rightarrow> Finished (sc, Some (m1\<lparr>edge_subset := Some (paint (map eselect (m_edges m)) a l)\<rparr>)))
             | FACES \<Rightarrow> (case face_subset m of None \<Rightarrow> Failed KeyError (sc, Some m1)
                  | Some l \<Rightarrow> Finished (sc, Some (m1\<lparr>face_subset := Some (paint (map pselect (m_polys m)) a l)\<rparr>)))))"

subsection \<open>\<open>UGXSubsetsIntitialize\<close>\<close>

definition layer_new :: "nat \<Rightarrow> int list option \<Rightarrow> int list option" where
  "layer_new n l = (case l of None \<Rightarrow> Some (replicate n 0) | Some l' \<Rightarrow> Some l')"

text \<open>\<open>item.id = ...\<close> sets an attribute \<open>UGXSubset\<close> does not have:
  AttributeError, after \<open>add()\<close> appended a subset with the defaults.\<close>

definition initialize :: "scene \<Rightarrow> mesh option \<Rightarrow> (scene \<times> mesh option) op_outcome" where
  "initialize sc obj =
     (case obj of
        None \<Rightarrow> Cancelled (sc, obj)
      | Some m \<Rightarrow>
          if vertex_subset m \<noteq> None \<and> edge_subset m \<noteq> None \<and> face_subset m \<noteq> None then Cancelled (sc, obj)
          else
            (let m1 = m\<lparr>in_edit_mode := True,
                        vertex_subset := layer_new (length (m_verts m)) (vertex_subset m),
                        edge_subset := layer_new (length (m_edges m)) (edge_subset m),
                        face_subset := layer_new (length (m_polys m)) (face_subset m)\<rparr>
             in if ugx_subsets sc = []
                then Failed AttributeError (sc\<lparr>ugx_subsets := [default_subset]\<rparr>, Some m1)
                else Finished (sc, Some m1)))"

subsection \<open>The interface as a state machine\<close>

text \<open>The state the operators act on: the scene and the active object's
  mesh.  A step is one operator run from the panel (its outcome's state is
  kept whether it finished, was cancelled or raised), a click on a row of
  the subset list, which sets \<open>active_subset\<close> to that row, or a change of
  the selection in the viewport.  The run starts from the registered
  defaults and an object without subset layers.\<close>

type_synonym ui = "scene \<times> mesh option"

definition reselect :: "mesh \<Rightarrow> bool list \<Rightarrow> bool list \<Rightarrow> bool list \<Rightarrow> mesh" where
  "reselect m vs es fs = m\<lparr>m_verts := map2 (\<lambda>v b. v\<lparr>vselect := b\<rparr>) (m_verts m) vs,
                          m_edges := map2 (\<lambda>e b. e\<lparr>eselect := b\<rparr>) (m_edges m) es,
                          m_polys := map2 (\<lambda>f b. f\<lparr>pselect := b\<rparr>) (m_polys m) fs\<rparr>"

inductive ui_step :: "ui \<Rightarrow> ui \<Rightarrow> bool" where
  list_act: "ui_step (sc, ob) (op_state (list_action a rgb sc), ob)"
| init: "ui_step (sc, ob) (op_state (initialize sc ob))"
| paint: "ui_step (sc, ob) (op_state (additions k sc ob))"
| click: "p < length (ugx_subsets sc) \<Longrightarrow> ui_step (sc, ob) (sc\<lparr>active_subset := int p\<rparr>, ob)"
| select: "length vs = length (m_verts m) \<Longrightarrow> length es = length (m_edges m) \<Longrightarrow>
           length fs = length (m_polys m) \<Longrightarrow> ui_step (sc, Some m) (sc, Some (reselect m vs es fs))"

inductive ui_reach :: "ui \<Rightarrow> bool" where
  start: "ui_reach (registered_scene objs, None)"
| start_obj: "no_layers m \<Longrightarrow> ui_reach (registered_scene objs, Some m)"
| step: "ui_reach s \<Longrightarrow> ui_step s t \<Longrightarrow> ui_reach t"

text \<open>What the reachable states keep: every layer of the active mesh has one
  value per element, and every subset's index is non-negative.\<close>

definition layer_fits :: "int list option \<Rightarrow> nat \<Rightarrow> bool" where
  "layer_fits l n \<longleftrightarrow> (case l of None \<Rightarrow> True | Some l' \<Rightarrow> length l' = n)"

definition layers_fit :: "mesh \<Rightarrow> bool" where
  "layers_fit m \<longleftrightarrow> layer_fits (vertex_subset m) (length (m_verts m))
                    \<and> layer_fits (edge_subset m) (length (m_edges m))
                    \<and> layer_fits (face_subset m) (length (m_polys m))"

definition ui_ok :: "ui \<Rightarrow> bool" where
  "ui_ok s \<longleftrightarrow> list_all (\<lambda>x. 0 \<le> s_index x) (ugx_subsets (fst s))
              \<and> (case snd s of None \<Rightarrow> True | Some m \<Rightarrow> layers_fit m)"

text \<open>Layers: the active mesh has no subset layer or all three, and once it
  has them the scene has a subset.\<close>

definition layer_shape :: "mesh \<Rightarrow> bool \<times> bool \<times> bool" where
  "layer_shape m = (vertex_subset m = None, edge_subset m = None, face_subset m = None)"

definition layers_ready :: "ui \<Rightarrow> bool" where
  "layers_ready s \<longleftrightarrow> (case snd s of None \<Rightarrow> True
     | Some m \<Rightarrow> layer_shape m = (True, True, True)
                 \<or> (layer_shape m = (False, False, False) \<and> ugx_subsets (fst s) \<noteq> []))"

inductive_cases ui_step_cases: "ui_step s t"

subsection \<open>Collection operations, painting and the operators' effects\<close>

lemma split_at_pair:
  "Suc i < length xs \<Longrightarrow> xs = take i xs @ xs ! i # xs ! Suc i # drop (Suc (Suc i)) xs"
  by (simp add: Cons_nth_drop_Suc)

lemma coll_move_down:
  assumes "Suc i < length xs"
  shows "coll_move xs (int i) (int i + 1) = Inr (xs[i := xs ! Suc i, Suc i := xs ! i])"
proof -
  define ys a b zs where "ys = take i xs" "a = xs ! i" "b = xs ! Suc i" "zs = drop (Suc (Suc i)) xs"
  have xs: "xs = ys @ a # b # zs" "length ys = i"
    using split_at_pair [OF assms] assms by (simp_all add: ys_a_b_zs_def)
  have n: "nat (int i + 1) = Suc i" by simp
  show ?thesis
    unfolding xs(1) using xs(2) by (simp add: coll_move_def n nth_append list_update_append)
qed


lemma coll_move_up:
  assumes "Suc i < length xs"
  shows "coll_move xs (int i + 1) (int i) = Inr (xs[i := xs ! Suc i, Suc i := xs ! i])"
proof -
  define ys a b zs where "ys = take i xs" "a = xs ! i" "b = xs ! Suc i" "zs = drop (Suc (Suc i)) xs"
  have xs: "xs = ys @ a # b # zs" "length ys = i"
    using split_at_pair [OF assms] assms by (simp_all add: ys_a_b_zs_def)
  have n: "nat (int i + 1) = Suc i" by simp
  show ?thesis
    unfolding xs(1) using xs(2) by (simp add: coll_move_def n nth_append list_update_append)
qed

lemma mset_insert_at: "mset (take j r @ x # drop j r) = add_mset x (mset r)"
proof -
  have "mset (take j r @ x # drop j r) = add_mset x (mset (take j r) + mset (drop j r))"
    by simp
  also have "mset (take j r) + mset (drop j r) = mset r"
    by (simp only: mset_append [symmetric] append_take_drop_id)
  finally show ?thesis .
qed

lemma mset_remove_nth:
  assumes "i < length xs"
  shows "add_mset (xs ! i) (mset (take i xs @ drop (Suc i) xs)) = mset xs"
proof -
  have "xs = take i xs @ xs ! i # drop (Suc i) xs"
    using assms by (rule id_take_nth_drop)
  then have "mset xs = mset (take i xs @ xs ! i # drop (Suc i) xs)"
    by simp
  then show ?thesis
    by simp
qed

lemma coll_move_mset: "coll_move xs i j = Inr ys \<Longrightarrow> mset ys = mset xs"
proof -
  assume m: "coll_move xs i j = Inr ys"
  define r where "r = take (nat i) xs @ drop (Suc (nat i)) xs"
  have ok: "0 \<le> i \<and> i < int (length xs) \<and> 0 \<le> j \<and> j < int (length xs)"
    using m by (auto simp: coll_move_def split: if_splits)
  then have ys: "ys = take (nat j) r @ xs ! nat i # drop (nat j) r"
    using m unfolding coll_move_def Let_def r_def [symmetric] by simp
  have "mset ys = add_mset (xs ! nat i) (mset r)"
    unfolding ys by (rule mset_insert_at)
  also have "\<dots> = mset xs"
    unfolding r_def using ok by (intro mset_remove_nth) (simp add: nat_less_iff)
  finally show ?thesis .
qed

lemma coll_move_length: "coll_move xs i j = Inr ys \<Longrightarrow> length ys = length xs"
  by (drule coll_move_mset) (metis size_mset)

lemma coll_move_set: "coll_move xs i j = Inr ys \<Longrightarrow> set ys = set xs"
  by (drule coll_move_mset) (metis set_mset_mset)

lemma coll_remove_length:
  "coll_remove xs i = Inr ys \<Longrightarrow> Suc (length ys) = length xs"
  by (auto simp: coll_remove_def split: if_splits)

lemma coll_remove_set: "coll_remove xs i = Inr ys \<Longrightarrow> set ys \<subseteq> set xs"
  by (auto simp: coll_remove_def split: if_splits dest: in_set_takeD in_set_dropD)

lemma op_then_simps [simp]:
  "op_then (Finished s) f = f s" "op_then (Cancelled s) f = Cancelled s" "op_then (Failed e s) f = Failed e s"
  by (simp_all add: op_then_def)

lemma fold_paint:
  "fold (\<lambda>i l. if sel ! i then l[i := a] else l) [0..<n] l
   = map (\<lambda>j. if j < n \<and> sel ! j then a else l ! j) [0..<length l]"
proof (induction n)
  case 0
  then show ?case by (simp add: map_nth)
next
  case (Suc n)
  let ?M = "map (\<lambda>j. if j < n \<and> sel ! j then a else l ! j) [0..<length l]"
  have "fold (\<lambda>i l. if sel ! i then l[i := a] else l) [0..<Suc n] l = (if sel ! n then ?M[n := a] else ?M)"
    using Suc.IH by simp
  also have "\<dots> = map (\<lambda>j. if j < Suc n \<and> sel ! j then a else l ! j) [0..<length l]"
  proof (rule nth_equalityI)
    fix j assume "j < length (if sel ! n then ?M[n := a] else ?M)"
    then have j: "j < length l" by (simp split: if_splits)
    show "(if sel ! n then ?M[n := a] else ?M) ! j = map (\<lambda>j. if j < Suc n \<and> sel ! j then a else l ! j) [0..<length l] ! j"
      using j by (cases "j = n") (simp_all add: less_Suc_eq)
  qed simp
  finally show ?case .
qed

lemma paint_nth:
  "length (paint sel a l) = length l \<and>
   (\<forall>j<length l. paint sel a l ! j = (if j < length sel \<and> sel ! j then a else l ! j))"
  by (simp add: paint_def fold_paint)

lemma random_color_simps [simp]:
  "random_color (r, g, b) = [r, g, b, Fin 1 0]"
  "length (random_color rgb) = 4"
  by (simp_all add: random_color_def)

lemma add_item_subsets:
  "\<exists>x. ugx_subsets (op_state (add_item rgb sc)) = ugx_subsets sc @ [x]
       \<and> s_index x = int (length (ugx_subsets sc))"
  by (auto simp: add_item_def Let_def set_color_def split: sum.split)

lemma add_item_nonempty [simp]: "ugx_subsets (op_state (add_item rgb sc)) \<noteq> []"
  using add_item_subsets [of rgb sc] by auto

lemma move_or_remove_nonempty:
  "ugx_subsets sc \<noteq> [] \<Longrightarrow> ugx_subsets (op_state (move_or_remove act sc)) \<noteq> []"
proof (cases act)
  case REMOVE
  assume ne: "ugx_subsets sc \<noteq> []"
  show ?thesis
  proof (cases "coll_remove (ugx_subsets sc) (active_subset sc)")
    case (Inr ys)
    then have "Suc (length ys) = length (ugx_subsets sc)"
      by (rule coll_remove_length)
    with Inr REMOVE ne show ?thesis
      by (auto simp: move_or_remove_def Let_def)
  qed (use REMOVE ne in \<open>simp add: move_or_remove_def Let_def\<close>)
qed (auto simp: move_or_remove_def Let_def bind_res_eq_Inr dest: coll_move_length split: sum.split)

lemma list_action_nonempty:
  "ugx_subsets sc \<noteq> [] \<Longrightarrow> ugx_subsets (op_state (list_action a rgb sc)) \<noteq> []"
  using move_or_remove_nonempty [of sc a]
  by (cases "move_or_remove a sc"; cases "py_pos (length (ugx_subsets sc)) (active_subset sc)")
     (auto simp: list_action_def)

lemma additions_scene [simp]: "fst (op_state (additions k sc ob)) = sc"
  by (auto simp: additions_def Let_def split: option.split elem_kind.split)

lemma initialize_scene:
  "fst (op_state (initialize sc ob)) = sc \<or>
   (ugx_subsets sc = [] \<and> fst (op_state (initialize sc ob)) = sc\<lparr>ugx_subsets := [default_subset]\<rparr>)"
  by (auto simp: initialize_def Let_def split: option.split)

text \<open>C13: once the scene has a subset, no step of the interface empties the collection: REMOVE on the last subset is cancelled (the code's \<open>At least one subset must be defined\<close>), and no other operator removes one.\<close>

theorem ui_step_keeps_subsets:
  "ui_step s t \<Longrightarrow> ugx_subsets (fst s) \<noteq> [] \<Longrightarrow> ugx_subsets (fst t) \<noteq> []"
proof (induction rule: ui_step.induct)
  case (list_act sc ob a rgb)
  then show ?case by (simp add: list_action_nonempty)
next
  case (init sc ob)
  then show ?case using initialize_scene [of sc ob] by auto
qed simp_all

lemma layer_fits_paint:
  "layer_fits (Some l) n \<Longrightarrow> layer_fits (Some (paint sel a l)) n"
  using paint_nth [of sel a l] by (simp add: layer_fits_def)

lemma layer_fits_new: "layer_fits l n \<Longrightarrow> layer_fits (layer_new n l) n"
  by (simp add: layer_fits_def layer_new_def split: option.splits)

lemma layers_fit_additions:
  "(case ob of None \<Rightarrow> True | Some m \<Rightarrow> layers_fit m) \<Longrightarrow>
   (case snd (op_state (additions k sc ob)) of None \<Rightarrow> True | Some m \<Rightarrow> layers_fit m)"
  by (auto simp: additions_def Let_def layers_fit_def layer_fits_paint layer_fits_def [of None]
           split: option.splits elem_kind.split)

lemma layers_fit_initialize:
  "(case ob of None \<Rightarrow> True | Some m \<Rightarrow> layers_fit m) \<Longrightarrow>
   (case snd (op_state (initialize sc ob)) of None \<Rightarrow> True | Some m \<Rightarrow> layers_fit m)"
  by (auto simp: initialize_def Let_def layers_fit_def layer_fits_new split: option.splits)

lemma layers_fit_reselect:
  "length vs = length (m_verts m) \<Longrightarrow> length es = length (m_edges m) \<Longrightarrow> length fs = length (m_polys m) \<Longrightarrow>
   layers_fit m \<Longrightarrow> layers_fit (reselect m vs es fs)"
  by (simp add: reselect_def layers_fit_def)



lemma move_or_remove_set:
  "set (ugx_subsets (op_state (move_or_remove act sc))) \<subseteq> set (ugx_subsets sc)"
  by (cases act)
     (auto simp: move_or_remove_def Let_def bind_res_eq_Inr dest: coll_move_set coll_remove_set
           split: sum.split)

lemma add_item_indices:
  "list_all (\<lambda>x. 0 \<le> s_index x) (ugx_subsets sc) \<Longrightarrow>
   list_all (\<lambda>x. 0 \<le> s_index x) (ugx_subsets (op_state (add_item rgb sc)))"
  using add_item_subsets [of rgb sc] by auto

lemma list_action_list_all:
  assumes "list_all P (ugx_subsets sc)"
    and add: "\<And>sc'. list_all P (ugx_subsets sc') \<Longrightarrow> list_all P (ugx_subsets (op_state (add_item rgb sc')))"
  shows "list_all P (ugx_subsets (op_state (list_action a rgb sc)))"
proof -
  define r where "r = (case py_pos (length (ugx_subsets sc)) (active_subset sc) of
                         None \<Rightarrow> Finished sc | Some _ \<Rightarrow> move_or_remove a sc)"
  have r: "list_all P (ugx_subsets (op_state r))"
    using assms(1) move_or_remove_set [of a sc]
    by (auto simp: r_def list_all_iff split: option.split)
  show ?thesis
    using r add [OF r]
    by (cases r) (auto simp: list_action_def r_def [symmetric] add)
qed

lemma list_action_indices:
  "list_all (\<lambda>x. 0 \<le> s_index x) (ugx_subsets sc) \<Longrightarrow>
   list_all (\<lambda>x. 0 \<le> s_index x) (ugx_subsets (op_state (list_action a rgb sc)))"
  by (rule list_action_list_all [OF _ add_item_indices])

lemma no_layers_shape: "no_layers m \<longleftrightarrow> layer_shape m = (True, True, True)"
  by (simp add: no_layers_def layer_shape_def)

lemma additions_layer_shape:
  "map_option layer_shape (snd (op_state (additions k sc ob))) = map_option layer_shape ob"
  by (auto simp: additions_def Let_def layer_shape_def split: option.split elem_kind.split)

lemma additions_finished:
  "ugx_subsets sc \<noteq> [] \<Longrightarrow> layer_shape m = (False, False, False) \<Longrightarrow> \<exists>u. additions k sc (Some m) = Finished u"
  by (cases k) (auto simp: additions_def no_layers_def layer_shape_def Let_def)

lemma initialize_ready:
  assumes "no_layers m"
  shows "ugx_subsets (fst (op_state (initialize sc (Some m)))) \<noteq> []
         \<and> map_option layer_shape (snd (op_state (initialize sc (Some m)))) = Some (False, False, False)"
  using assms by (simp add: initialize_def no_layers_def layer_shape_def layer_new_def Let_def)

lemma layers_ready_step: "ui_step s t \<Longrightarrow> layers_ready s \<Longrightarrow> layers_ready t"
proof (induction rule: ui_step.induct)
  case (list_act sc ob a rgb)
  then show ?case by (auto simp: layers_ready_def list_action_nonempty split: option.splits)
next
  case (init sc ob)
  show ?case
  proof (cases ob)
    case None
    then show ?thesis using init.prems by (simp add: layers_ready_def initialize_def)
  next
    case (Some m)
    show ?thesis
    proof (cases "no_layers m")
      case True
      then show ?thesis
        using initialize_ready [OF True, of sc] Some by (auto simp: layers_ready_def split: option.splits)
    next
      case False
      with init.prems Some have "layer_shape m = (False, False, False)" "ugx_subsets sc \<noteq> []"
        by (auto simp: layers_ready_def no_layers_shape)
      then show ?thesis
        using Some by (simp add: layers_ready_def initialize_def layer_shape_def)
    qed
  qed
next
  case (paint sc ob k)
  then show ?case
    using additions_layer_shape [of k sc ob] additions_scene [of k sc ob]
    by (cases "op_state (additions k sc ob)") (auto simp: layers_ready_def split: option.splits)
next
  case (select vs m es fs sc)
  then show ?case by (simp add: layers_ready_def layer_shape_def reselect_def)
qed (auto simp: layers_ready_def split: option.splits)

lemma ui_reach_ready: "ui_reach s \<Longrightarrow> layers_ready s"
  by (induction rule: ui_reach.induct)
     (simp add: layers_ready_def, simp add: layers_ready_def no_layers_shape, blast intro: layers_ready_step)

text \<open>C12: every state the panel can reach from the registered defaults keeps two facts: every subset's index is non-negative, and every subset layer of the active mesh holds one value per element (what the exporter's membership loops and the painting loop rely on).\<close>

theorem ui_reach_ok: "ui_reach s \<Longrightarrow> ui_ok s"
proof (induction rule: ui_reach.induct)
  case (start objs)
  then show ?case by (simp add: ui_ok_def registered_scene_def)
next
  case (start_obj m objs)
  then show ?case by (simp add: ui_ok_def registered_scene_def no_layers_def layers_fit_def layer_fits_def)
next
  case (step s t)
  from step.hyps(2) step.IH show ?case
  proof (induction rule: ui_step.induct)
    case (list_act sc ob a rgb)
    then show ?case by (simp add: ui_ok_def list_action_indices)
  next
    case (init sc ob)
    then show ?case
      using initialize_scene [of sc ob] layers_fit_initialize [of ob sc]
      by (auto simp: ui_ok_def default_subset_def)
  next
    case (paint sc ob k)
    then show ?case
      using layers_fit_additions [of ob k sc] by (simp add: ui_ok_def)
  next
    case (click p sc ob)
    then show ?case by (simp add: ui_ok_def)
  next
    case (select vs m es fs sc)
    then show ?case by (simp add: ui_ok_def layers_fit_reselect)
  qed
qed

text \<open>C14: UP on an active row \<open>idx\<close> with \<open>1 \<le> idx < len\<close> swaps the subsets at \<open>idx - 1\<close> and \<open>idx\<close> and decrements \<open>current_subset\<close>; \<open>active_subset\<close> is left at \<open>idx\<close>, so the active row no longer shows the moved subset.\<close>

theorem list_action_up:
  assumes "1 \<le> active_subset sc" "active_subset sc < int (length (ugx_subsets sc))"
  shows "list_action UP rgb sc =
           Finished (sc\<lparr>ugx_subsets := (ugx_subsets sc)[nat (active_subset sc) - 1 := ugx_subsets sc ! nat (active_subset sc),
                                                       nat (active_subset sc) := ugx_subsets sc ! (nat (active_subset sc) - 1)],
                        current_subset := current_subset sc - 1\<rparr>)"
proof -
  define i where "i = nat (active_subset sc) - 1"
  have a: "active_subset sc = int i + 1" and l: "Suc i < length (ugx_subsets sc)"
    using assms by (simp_all add: i_def)
  have n: "nat (active_subset sc) = Suc i"
    using a by simp
  have p: "py_pos (length (ugx_subsets sc)) (active_subset sc) = Some (Suc i)"
    using a l by (simp add: py_pos_def)
  have b: "active_subset sc - 1 = int i"
    using a by simp
  have ix: "py_index (ugx_subsets sc) (active_subset sc - 1) = Inr (ugx_subsets sc ! i)"
    using b l by simp
  have mv: "coll_move (ugx_subsets sc) (active_subset sc) (active_subset sc - 1)
            = Inr ((ugx_subsets sc)[i := ugx_subsets sc ! Suc i, Suc i := ugx_subsets sc ! i])"
    unfolding a by (simp add: coll_move_up [OF l])
  show ?thesis
    using ix mv p assms(1) by (simp add: list_action_def move_or_remove_def Let_def n)
qed

text \<open>C15: DOWN on an active row \<open>idx\<close> with \<open>0 \<le> idx < len - 1\<close> swaps the subsets at \<open>idx\<close> and \<open>idx + 1\<close> and increments \<open>current_subset\<close>; \<open>active_subset\<close> is not changed.\<close>

theorem list_action_down:
  assumes "0 \<le> active_subset sc" "active_subset sc < int (length (ugx_subsets sc)) - 1"
  shows "list_action DOWN rgb sc =
           Finished (sc\<lparr>ugx_subsets := (ugx_subsets sc)[nat (active_subset sc) := ugx_subsets sc ! Suc (nat (active_subset sc)),
                                                       Suc (nat (active_subset sc)) := ugx_subsets sc ! nat (active_subset sc)],
                        current_subset := current_subset sc + 1\<rparr>)"
proof -
  define i where "i = nat (active_subset sc)"
  have a: "active_subset sc = int i" and l: "Suc i < length (ugx_subsets sc)"
    using assms by (simp_all add: i_def)
  have p: "py_pos (length (ugx_subsets sc)) (active_subset sc) = Some i"
    using a l by simp
  have "py_index (ugx_subsets sc) (active_subset sc + 1) = Inr (ugx_subsets sc ! Suc i)"
    using a l by (metis of_nat_Suc py_index_nat add.commute)
  then show ?thesis
    using coll_move_down [OF l] a p assms(2)
    by (simp add: list_action_def move_or_remove_def Let_def i_def [symmetric])
qed

text \<open>C16: REMOVE with a negative active row that Python's indexing accepts (\<open>scene.ugx_subsets[idx]\<close> counts from the end) reaches \<open>remove(idx)\<close>, which raises KeyError, after \<open>current_subset\<close> was already decremented.\<close>

theorem list_action_remove_negative:
  assumes "active_subset sc < 0" "py_pos (length (ugx_subsets sc)) (active_subset sc) \<noteq> None"
    and "length (ugx_subsets sc) \<noteq> 1"
  shows "list_action REMOVE rgb sc =
           Failed KeyError (sc\<lparr>current_subset := (if current_subset sc = 0 then 0 else current_subset sc - 1)\<rparr>)"
  using assms by (auto simp: list_action_def move_or_remove_def Let_def coll_remove_def)

lemma nth_map_guard: "(j < length xs \<and> map f xs ! j) \<longleftrightarrow> (j < length xs \<and> f (xs ! j))"
  by auto

text \<open>C17: painting vertices writes \<open>active_subset\<close> into the vertex layer at every selected vertex and leaves every other value, and finishes; the value written is the position of the active row, not the \<open>index\<close> of the subset there.\<close>

theorem additions_vertices:
  assumes "ugx_subsets sc \<noteq> []" "vertex_subset m = Some l"
  shows "\<exists>l'. additions VERTICES sc (Some m)
                = Finished (sc, Some (m\<lparr>in_edit_mode := True, vertex_subset := Some l'\<rparr>))
            \<and> length l' = length l
            \<and> (\<forall>j<length l. l' ! j = (if j < length (m_verts m) \<and> vselect (m_verts m ! j)
                                      then active_subset sc else l ! j))"
proof (rule exI [of _ "paint (map vselect (m_verts m)) (active_subset sc) l"])
  show "additions VERTICES sc (Some m)
          = Finished (sc, Some (m\<lparr>in_edit_mode := True, vertex_subset := Some (paint (map vselect (m_verts m)) (active_subset sc) l)\<rparr>))
        \<and> length (paint (map vselect (m_verts m)) (active_subset sc) l) = length l
        \<and> (\<forall>j<length l. paint (map vselect (m_verts m)) (active_subset sc) l ! j
               = (if j < length (m_verts m) \<and> vselect (m_verts m ! j) then active_subset sc else l ! j))"
    using assms paint_nth [of "map vselect (m_verts m)" "active_subset sc" l]
    by (simp add: additions_def no_layers_def nth_map_guard)
qed

lemma ui_reach_list_act:
  "ui_reach (sc, ob) \<Longrightarrow> list_action a rgb sc = Finished sc' \<Longrightarrow> ui_reach (sc', ob)"
  using ui_reach.step [OF _ ui_step.list_act [of sc ob a rgb]] by simp

lemma ui_reach_init:
  "ui_reach (sc, ob) \<Longrightarrow> initialize sc ob = r \<Longrightarrow> ui_reach (op_state r)"
  using ui_reach.step ui_step.init by blast

lemma ui_reach_paint:
  "ui_reach (sc, ob) \<Longrightarrow> additions k sc ob = r \<Longrightarrow> ui_reach (op_state r)"
  using ui_reach.step ui_step.paint by blast

lemma ui_reach_click:
  "ui_reach (sc, ob) \<Longrightarrow> p < length (ugx_subsets sc) \<Longrightarrow> ui_reach (sc\<lparr>active_subset := int p\<rparr>, ob)"
  using ui_reach.step ui_step.click by blast

text \<open>C18: subset indices are not kept distinct: ADD, ADD, a click on row 0, REMOVE, ADD reach a scene with two subsets both named \<open>Subset 1\<close> with index 1, because ADD sets \<open>index = len - 1\<close> after a removal.\<close>

theorem duplicate_index_reachable:
  "ui_reach (\<lparr>ugx_subsets =
       [\<lparr>s_name = ''Subset 1'', s_index = 1, s_color = [Fin 0 0, Fin 0 0, Fin 0 0, Fin 1 0]\<rparr>,
        \<lparr>s_name = ''Subset 1'', s_index = 1, s_color = [Fin 0 0, Fin 0 0, Fin 0 0, Fin 1 0]\<rparr>],
      active_subset = 0, current_subset = 1, view_check = False, scene_objects = []\<rparr>, None)
   \<and> \<not> distinct (map s_index
       [\<lparr>s_name = ''Subset 1'', s_index = 1, s_color = [Fin 0 0, Fin 0 0, Fin 0 0, Fin 1 0]\<rparr>,
        \<lparr>s_name = ''Subset 1'', s_index = 1, s_color = [Fin 0 0, Fin 0 0, Fin 0 0, Fin 1 0]\<rparr>])"
proof -
  let ?c = "[Fin 0 0, Fin 0 0, Fin 0 0, Fin 1 0]"
  let ?rgb = "(Fin 0 0, Fin 0 0, Fin 0 0)"
  let ?s0 = "\<lparr>s_name = ''Subset 0'', s_index = 0, s_color = ?c\<rparr>"
  let ?s1 = "\<lparr>s_name = ''Subset 1'', s_index = 1, s_color = ?c\<rparr>"
  have r0: "ui_reach (registered_scene [], None)"
    by (rule ui_reach.start)
  have e1: "list_action ADD ?rgb (registered_scene []) = Finished
      \<lparr>ugx_subsets = [?s0], active_subset = 1, current_subset = 0, view_check = False, scene_objects = []\<rparr>"
    by code_simp
  have e2: "list_action ADD ?rgb \<lparr>ugx_subsets = [?s0], active_subset = 1, current_subset = 0,
       view_check = False, scene_objects = []\<rparr> = Finished
      \<lparr>ugx_subsets = [?s0, ?s1], active_subset = 1, current_subset = 1, view_check = False, scene_objects = []\<rparr>"
    by code_simp
  have e4: "list_action REMOVE ?rgb \<lparr>ugx_subsets = [?s0, ?s1], active_subset = 0, current_subset = 1,
       view_check = False, scene_objects = []\<rparr> = Finished
      \<lparr>ugx_subsets = [?s1], active_subset = 0, current_subset = 0, view_check = False, scene_objects = []\<rparr>"
    by code_simp
  have e5: "list_action ADD ?rgb \<lparr>ugx_subsets = [?s1], active_subset = 0, current_subset = 0,
       view_check = False, scene_objects = []\<rparr> = Finished
      \<lparr>ugx_subsets = [?s1, ?s1], active_subset = 0, current_subset = 1, view_check = False, scene_objects = []\<rparr>"
    by code_simp
  have "ui_reach (\<lparr>ugx_subsets = [?s0, ?s1], active_subset = 1, current_subset = 1,
       view_check = False, scene_objects = []\<rparr>, None)"
    using ui_reach_list_act [OF ui_reach_list_act [OF r0 e1] e2] by simp
  then have "ui_reach (\<lparr>ugx_subsets = [?s0, ?s1], active_subset = 0, current_subset = 1,
       view_check = False, scene_objects = []\<rparr>, None)"
    using ui_reach_click [of _ None 0] by fastforce
  then have "ui_reach (\<lparr>ugx_subsets = [?s1, ?s1], active_subset = 0, current_subset = 1,
       view_check = False, scene_objects = []\<rparr>, None)"
    using ui_reach_list_act [OF ui_reach_list_act [OF _ e4] e5] by simp
  then show ?thesis
    by simp
qed

text \<open>C29: from every reachable state with an active object, painting
  (Add Selected Vertices, Edges or Faces) can be made to finish: at once when
  the object has its layers, after one Initialize Subsets otherwise (whose
  AttributeError leaves a subset and the layers behind).\<close>

theorem paint_eventually_enabled:
  assumes "ui_reach (sc, Some m)"
  shows "\<exists>t. ui_step\<^sup>*\<^sup>* (sc, Some m) t \<and> (\<exists>u. additions k (fst t) (snd t) = Finished u)"
proof (cases "no_layers m")
  case True
  define t where "t = op_state (initialize sc (Some m))"
  have st: "ui_step\<^sup>*\<^sup>* (sc, Some m) t"
    unfolding t_def by (rule r_into_rtranclp) (rule ui_step.init)
  obtain m1 where m1: "snd t = Some m1" "layer_shape m1 = (False, False, False)"
    using initialize_ready [OF True, of sc] unfolding t_def [symmetric] by auto
  have "ugx_subsets (fst t) \<noteq> []"
    using initialize_ready [OF True, of sc] unfolding t_def [symmetric] by simp
  with m1 have "\<exists>u. additions k (fst t) (snd t) = Finished u"
    using additions_finished [of "fst t" m1 k] by simp
  with st show ?thesis by blast
next
  case False
  with ui_reach_ready [OF assms] have "ugx_subsets sc \<noteq> []" "layer_shape m = (False, False, False)"
    by (auto simp: layers_ready_def no_layers_shape)
  then show ?thesis
    using additions_finished [of sc m k] by auto
qed

subsection \<open>Witnesses\<close>

theorem ui_reach_ok_witness:
  "ui_reach (registered_scene [], None) \<and> ui_ok (registered_scene [], None)"
  using ui_reach_ok [OF ui_reach.start [of "[]"]] ui_reach.start [of "[]"] by blast

theorem ui_step_keeps_subsets_witness:
  "ui_step (\<lparr>ugx_subsets = [default_subset], active_subset = 0, current_subset = 0, view_check = False, scene_objects = []\<rparr>, None)
           (op_state (list_action REMOVE (Fin 0 0, Fin 0 0, Fin 0 0)
              \<lparr>ugx_subsets = [default_subset], active_subset = 0, current_subset = 0, view_check = False, scene_objects = []\<rparr>), None)
   \<and> [default_subset] \<noteq> []
   \<and> ugx_subsets (op_state (list_action REMOVE (Fin 0 0, Fin 0 0, Fin 0 0)
              \<lparr>ugx_subsets = [default_subset], active_subset = 0, current_subset = 0, view_check = False, scene_objects = []\<rparr>)) \<noteq> []"
proof -
  have st: "ui_step (\<lparr>ugx_subsets = [default_subset], active_subset = 0, current_subset = 0, view_check = False, scene_objects = []\<rparr>, None)
           (op_state (list_action REMOVE (Fin 0 0, Fin 0 0, Fin 0 0)
              \<lparr>ugx_subsets = [default_subset], active_subset = 0, current_subset = 0, view_check = False, scene_objects = []\<rparr>), None)"
    by (rule ui_step.list_act)
  show ?thesis
    using ui_step_keeps_subsets [OF st] st by simp
qed

theorem list_action_up_witness:
  "1 \<le> active_subset \<lparr>ugx_subsets = [default_subset, default_subset\<lparr>s_index := 1\<rparr>], active_subset = 1, current_subset = 1, view_check = False, scene_objects = []\<rparr>
   \<and> list_action UP (Fin 0 0, Fin 0 0, Fin 0 0)
       \<lparr>ugx_subsets = [default_subset, default_subset\<lparr>s_index := 1\<rparr>], active_subset = 1, current_subset = 1, view_check = False, scene_objects = []\<rparr>
     = Finished \<lparr>ugx_subsets = [default_subset\<lparr>s_index := 1\<rparr>, default_subset], active_subset = 1, current_subset = 0,
                 view_check = False, scene_objects = []\<rparr>"
  using list_action_up [of "\<lparr>ugx_subsets = [default_subset, default_subset\<lparr>s_index := 1\<rparr>], active_subset = 1, current_subset = 1, view_check = False, scene_objects = []\<rparr>"
      "(Fin 0 0, Fin 0 0, Fin 0 0)"]
  by simp

theorem list_action_down_witness:
  "0 \<le> active_subset \<lparr>ugx_subsets = [default_subset, default_subset\<lparr>s_index := 1\<rparr>], active_subset = 0, current_subset = 0, view_check = False, scene_objects = []\<rparr>
   \<and> list_action DOWN (Fin 0 0, Fin 0 0, Fin 0 0)
       \<lparr>ugx_subsets = [default_subset, default_subset\<lparr>s_index := 1\<rparr>], active_subset = 0, current_subset = 0, view_check = False, scene_objects = []\<rparr>
     = Finished \<lparr>ugx_subsets = [default_subset\<lparr>s_index := 1\<rparr>, default_subset], active_subset = 0, current_subset = 1,
                 view_check = False, scene_objects = []\<rparr>"
  using list_action_down [of "\<lparr>ugx_subsets = [default_subset, default_subset\<lparr>s_index := 1\<rparr>], active_subset = 0, current_subset = 0, view_check = False, scene_objects = []\<rparr>"
      "(Fin 0 0, Fin 0 0, Fin 0 0)"]
  by simp

theorem list_action_remove_negative_witness:
  "active_subset \<lparr>ugx_subsets = [default_subset, default_subset], active_subset = -1, current_subset = 1, view_check = False, scene_objects = []\<rparr> < 0
   \<and> list_action REMOVE (Fin 0 0, Fin 0 0, Fin 0 0)
       \<lparr>ugx_subsets = [default_subset, default_subset], active_subset = -1, current_subset = 1, view_check = False, scene_objects = []\<rparr>
     = Failed KeyError \<lparr>ugx_subsets = [default_subset, default_subset], active_subset = -1, current_subset = 0,
                         view_check = False, scene_objects = []\<rparr>"
proof -
  have p: "py_pos (length (ugx_subsets \<lparr>ugx_subsets = [default_subset, default_subset], active_subset = -1,
              current_subset = 1, view_check = False, scene_objects = []\<rparr>)) (active_subset \<lparr>ugx_subsets = [default_subset, default_subset],
              active_subset = -1, current_subset = 1, view_check = False, scene_objects = []\<rparr>) \<noteq> None"
    by (simp add: py_pos_def)
  show ?thesis
    using list_action_remove_negative [OF _ p] by simp
qed

theorem additions_vertices_witness:
  "[default_subset] \<noteq> []
   \<and> vertex_subset \<lparr>m_verts = [\<lparr>co = [], vselect = True\<rparr>, \<lparr>co = [], vselect = False\<rparr>], m_edges = [], m_polys = [],
        vertex_subset = Some [0, 0], edge_subset = None, face_subset = None, in_edit_mode = False\<rparr> = Some [0, 0]
   \<and> additions VERTICES \<lparr>ugx_subsets = [default_subset], active_subset = 1, current_subset = 0, view_check = False, scene_objects = []\<rparr>
       (Some \<lparr>m_verts = [\<lparr>co = [], vselect = True\<rparr>, \<lparr>co = [], vselect = False\<rparr>], m_edges = [], m_polys = [],
        vertex_subset = Some [0, 0], edge_subset = None, face_subset = None, in_edit_mode = False\<rparr>)
     = Finished (\<lparr>ugx_subsets = [default_subset], active_subset = 1, current_subset = 0, view_check = False, scene_objects = []\<rparr>,
         Some \<lparr>m_verts = [\<lparr>co = [], vselect = True\<rparr>, \<lparr>co = [], vselect = False\<rparr>], m_edges = [], m_polys = [],
        vertex_subset = Some [1, 0], edge_subset = None, face_subset = None, in_edit_mode = True\<rparr>)"
proof -
  obtain l' where l': "additions VERTICES \<lparr>ugx_subsets = [default_subset], active_subset = 1, current_subset = 0, view_check = False, scene_objects = []\<rparr>
       (Some \<lparr>m_verts = [\<lparr>co = [], vselect = True\<rparr>, \<lparr>co = [], vselect = False\<rparr>], m_edges = [], m_polys = [],
        vertex_subset = Some [0, 0], edge_subset = None, face_subset = None, in_edit_mode = False\<rparr>)
     = Finished (\<lparr>ugx_subsets = [default_subset], active_subset = 1, current_subset = 0, view_check = False, scene_objects = []\<rparr>,
         Some \<lparr>m_verts = [\<lparr>co = [], vselect = True\<rparr>, \<lparr>co = [], vselect = False\<rparr>], m_edges = [], m_polys = [],
        vertex_subset = Some l', edge_subset = None, face_subset = None, in_edit_mode = True\<rparr>)"
    "length l' = 2" "l' ! 0 = 1" "l' ! 1 = 0"
    using additions_vertices [of "\<lparr>ugx_subsets = [default_subset], active_subset = 1, current_subset = 0, view_check = False, scene_objects = []\<rparr>"
        "\<lparr>m_verts = [\<lparr>co = [], vselect = True\<rparr>, \<lparr>co = [], vselect = False\<rparr>], m_edges = [], m_polys = [],
        vertex_subset = Some [0, 0], edge_subset = None, face_subset = None, in_edit_mode = False\<rparr>" "[0, 0]"]
    by fastforce
  have "l' = [1, 0]"
    using l'(2-4) by (simp add: list_eq_iff_nth_eq less_Suc_eq numeral_2_eq_2)
  then show ?thesis
    using l'(1) by simp
qed

theorem paint_eventually_enabled_witness:
  "\<exists>t. ui_step\<^sup>*\<^sup>* (registered_scene [], Some \<lparr>m_verts = [], m_edges = [], m_polys = [],
         vertex_subset = None, edge_subset = None, face_subset = None, in_edit_mode = False\<rparr>) t
     \<and> (\<exists>u. additions VERTICES (fst t) (snd t) = Finished u)"
  by (rule paint_eventually_enabled [OF ui_reach.start_obj]) (simp add: no_layers_def)

end
