(* ===== verification/Visualizer.thy ===== *)
theory Visualizer
  imports Blender "HOL-Library.AList"
begin

text \<open>
  \<open>ViewportDrawing\<close> of \<open>src/io_ugx/visualizer.py\<close>.  \<open>draw_vertices\<close> and
  \<open>draw_edges\<close> build a GPU batch of positions and colours; the model
  returns the two lists, or the exception raised while building them (the
  GPU calls that draw the batch are not modelled).  A colour is
  \<open>tuple(scene.ugx_subsets[k].color)\<close> for the layer value \<open>k\<close> of the
  element: the layer value is used as a position in the collection, with
  Python's negative indices.  \<open>draw_faces\<close> creates or reuses one material
  per subset, named as the subset (\<open>bpy.data.materials\<close> is an association
  list from names to diffuse colours), appends it to the object's material
  slots and sets each face's \<open>material_index\<close> to its layer value; the
  viewport shading switch and the local dictionary \<open>materials\<close>, which
  nothing reads, are not modelled.  \<open>face.material_index\<close> takes the values
  0 to 32766: the loop over the faces raises ValueError at the first layer
  value outside that range, after the faces before it got their index.
\<close>

definition subset_color :: "scene \<Rightarrow> int \<Rightarrow> pyfloat list res" where
  "subset_color sc k = bind_res (py_index (ugx_subsets sc) k) (\<lambda>s. Inr (s_color s))"

definition draw_vertices :: "scene \<Rightarrow> mesh \<Rightarrow> (pyfloat list list \<times> pyfloat list list) res" where
  "draw_vertices sc m =
     (case vertex_subset m of
        None \<Rightarrow> Inl KeyError
      | Some l \<Rightarrow> bind_res (map_res (subset_color sc) l) (\<lambda>col. Inr (map co (m_verts m), col)))"

fun edges_batch :: "scene \<Rightarrow> mvert list \<Rightarrow> (medge \<times> int) list \<Rightarrow> (pyfloat list list \<times> pyfloat list list) res" where
  "edges_batch sc vs [] = Inr ([], [])"
| "edges_batch sc vs ((e, k) # r) =
     bind_res (subset_color sc k) (\<lambda>c.
     bind_res (edges_batch sc vs r) (\<lambda>(ps, cs).
     Inr (co (vs ! fst (evertices e)) # co (vs ! snd (evertices e)) # ps, c # c # cs)))"

definition draw_edges :: "scene \<Rightarrow> mesh \<Rightarrow> (pyfloat list list \<times> pyfloat list list) res" where
  "draw_edges sc m =
     (case edge_subset m of
        None \<Rightarrow> Inl KeyError
      | Some l \<Rightarrow> edges_batch sc (m_verts m) (zip (m_edges m) l))"

record vis =
  vis_mats :: "(string \<times> pyfloat list) list"
  vis_slots :: "string list"
  vis_face_mat :: "int list"

text \<open>\<open>for s in scene.ugx_subsets\<close>: \<open>materials.get(s.name)\<close> or a new
  material of that name, its diffuse colour set to \<open>s.color\<close>, appended to
  the object's slots.\<close>

fun faces_materials :: "ugx_subset list \<Rightarrow> vis \<Rightarrow> vis" where
  "faces_materials [] v = v"
| "faces_materials (s # ss) v =
     faces_materials ss (v\<lparr>vis_mats := AList.update (s_name s) (s_color s) (vis_mats v),
                           vis_slots := vis_slots v @ [s_name s]\<rparr>)"

text \<open>The range of \<open>material_index\<close>, a short property of at most 32767
  material slots.\<close>

definition mat_index_ok :: "int \<Rightarrow> bool" where
  "mat_index_ok x \<longleftrightarrow> 0 \<le> x \<and> x \<le> 32766"

text \<open>\<open>for face in bm.faces: face.material_index = face[face_subset]\<close>, in
  face order: the faces up to the first value out of range get their layer
  value, the others keep the index they had.\<close>

definition draw_faces :: "scene \<Rightarrow> mesh \<Rightarrow> vis \<Rightarrow> vis outcome" where
  "draw_faces sc m v =
     (let v1 = faces_materials (ugx_subsets sc) v in
      case face_subset m of
        None \<Rightarrow> Raised KeyError v1
      | Some l \<Rightarrow>
          (if list_all mat_index_ok l then Ok (v1\<lparr>vis_face_mat := l\<rparr>)
           else (let ok = takeWhile mat_index_ok l in
                 Raised ValueError (v1\<lparr>vis_face_mat := ok @ drop (length ok) (vis_face_mat v)\<rparr>))))"

text \<open>The colour a face is shown in: the diffuse colour of the material in
  the slot its \<open>material_index\<close> names.\<close>

definition face_shown_color :: "vis \<Rightarrow> nat \<Rightarrow> pyfloat list option" where
  "face_shown_color v f =
     (if f < length (vis_face_mat v) \<and> 0 \<le> vis_face_mat v ! f \<and> nat (vis_face_mat v ! f) < length (vis_slots v)
      then map_of (vis_mats v) (vis_slots v ! nat (vis_face_mat v ! f)) else None)"

subsection \<open>Colours and materials\<close>

lemma map_res_Inl_member:
  "x \<in> set xs \<Longrightarrow> f x = Inl e \<Longrightarrow> \<exists>e'. map_res f xs = Inl e'"
  by (induction xs) (auto simp: bind_res_def split: sum.split)

lemma subset_color_Inl: "subset_color sc k = Inl e \<Longrightarrow> e = IndexError"
  by (auto simp: subset_color_def py_index_def bind_res_eq_Inl split: option.splits)

text \<open>C19: when every vertex layer value is a valid Python index of the subset collection, \<open>draw_vertices\<close> draws each vertex at its coordinate in the colour of the subset at that position (negative values counted from the end), not of the subset whose \<open>index\<close> is the value.\<close>

theorem draw_vertices_colors:
  assumes "vertex_subset m = Some l" "list_all (\<lambda>k. py_pos (length (ugx_subsets sc)) k \<noteq> None) l"
  shows "\<exists>cols. draw_vertices sc m = Inr (map co (m_verts m), cols)
           \<and> list_all2 (\<lambda>k c. \<exists>j. py_pos (length (ugx_subsets sc)) k = Some j \<and> c = s_color (ugx_subsets sc ! j)) l cols"
proof -
  have "\<exists>cols. map_res (subset_color sc) l = Inr cols
          \<and> list_all2 (\<lambda>k c. \<exists>j. py_pos (length (ugx_subsets sc)) k = Some j \<and> c = s_color (ugx_subsets sc ! j)) l cols"
    using assms(2)
  proof (induction l)
    case Nil
    then show ?case by simp
  next
    case (Cons k l)
    then obtain j where j: "py_pos (length (ugx_subsets sc)) k = Some j" by auto
    from Cons obtain cols where "map_res (subset_color sc) l = Inr cols"
      "list_all2 (\<lambda>k c. \<exists>j. py_pos (length (ugx_subsets sc)) k = Some j \<and> c = s_color (ugx_subsets sc ! j)) l cols"
      by auto
    moreover have "subset_color sc k = Inr (s_color (ugx_subsets sc ! j))"
      using j by (simp add: subset_color_def py_index_def)
    ultimately show ?case
      using j by (intro exI [of _ "s_color (ugx_subsets sc ! j) # cols"]) simp
  qed
  then show ?thesis
    using assms(1) by (auto simp: draw_vertices_def)
qed

text \<open>C20: a vertex layer value outside the collection (for instance the default \<open>active_subset = 1\<close> painted with a single subset) makes \<open>draw_vertices\<close> raise IndexError.\<close>

theorem draw_vertices_out_of_range:
  assumes "vertex_subset m = Some l" "k \<in> set l" "py_pos (length (ugx_subsets sc)) k = None"
  shows "draw_vertices sc m = Inl IndexError"
proof -
  have "subset_color sc k = Inl IndexError"
    using assms(3) by (simp add: subset_color_def py_index_def)
  then obtain e where e: "map_res (subset_color sc) l = Inl e"
    using map_res_Inl_member [OF assms(2)] by blast
  then have "e = IndexError"
    using map_res_Inl_same [of "subset_color sc" IndexError l e] subset_color_Inl by blast
  with e assms(1) show ?thesis
    by (simp add: draw_vertices_def)
qed

lemma faces_materials_slots: "vis_slots (faces_materials ss v) = vis_slots v @ map s_name ss"
  by (induction ss arbitrary: v) simp_all

lemma faces_materials_face_mat [simp]: "vis_face_mat (faces_materials ss v) = vis_face_mat v"
  by (induction ss arbitrary: v) simp_all

lemma faces_materials_other:
  "x \<notin> set (map s_name ss) \<Longrightarrow> map_of (vis_mats (faces_materials ss v)) x = map_of (vis_mats v) x"
  by (induction ss arbitrary: v) (simp_all add: update_conv')

lemma faces_materials_distinct:
  "distinct (map s_name ss) \<Longrightarrow> k < length ss \<Longrightarrow>
   map_of (vis_mats (faces_materials ss v)) (s_name (ss ! k)) = Some (s_color (ss ! k))"
proof (induction ss arbitrary: v k)
  case Nil
  then show ?case by simp
next
  case (Cons s ss)
  show ?case
  proof (cases k)
    case 0
    then show ?thesis
      using Cons.prems faces_materials_other [of "s_name s" ss] by (simp add: update_conv')
  next
    case (Suc k')
    then show ?thesis
      using Cons by simp
  qed
qed

lemma faces_materials_last:
  "n \<in> set (map s_name ss) \<Longrightarrow>
   map_of (vis_mats (faces_materials ss v)) n = Some (s_color (last (filter (\<lambda>s. s_name s = n) ss)))"
proof (induction ss arbitrary: v)
  case Nil
  then show ?case by simp
next
  case (Cons s ss)
  show ?case
  proof (cases "n \<in> set (map s_name ss)")
    case True
    then have "filter (\<lambda>s. s_name s = n) ss \<noteq> []"
      by (auto simp: filter_empty_conv)
    with True Cons.IH show ?thesis by simp
  next
    case False
    with Cons.prems have "n = s_name s" by simp
    moreover have "filter (\<lambda>s. s_name s = n) ss = []"
      using False by (auto simp: filter_empty_conv)
    ultimately show ?thesis
      using faces_materials_other [OF False] by (simp add: update_conv')
  qed
qed

lemma draw_faces_Ok:
  "face_subset m = Some l \<Longrightarrow> list_all mat_index_ok l \<Longrightarrow>
   draw_faces sc m v = Ok ((faces_materials (ugx_subsets sc) v)\<lparr>vis_face_mat := l\<rparr>)"
  by (simp add: draw_faces_def)


theorem draw_vertices_colors_witness:
  "vertex_subset \<lparr>m_verts = [\<lparr>co = [], vselect = False\<rparr>, \<lparr>co = [], vselect = False\<rparr>], m_edges = [], m_polys = [],
      vertex_subset = Some [1, -1], edge_subset = None, face_subset = None, in_edit_mode = True\<rparr> = Some [1, -1]
   \<and> (\<exists>cols. draw_vertices \<lparr>ugx_subsets = [default_subset, default_subset\<lparr>s_index := 1\<rparr>], active_subset = 0,
              current_subset = 0, view_check = False, scene_objects = []\<rparr>
            \<lparr>m_verts = [\<lparr>co = [], vselect = False\<rparr>, \<lparr>co = [], vselect = False\<rparr>], m_edges = [], m_polys = [],
             vertex_subset = Some [1, -1], edge_subset = None, face_subset = None, in_edit_mode = True\<rparr>
          = Inr ([[], []], cols))"
proof -
  have h: "list_all (\<lambda>k. py_pos (length (ugx_subsets \<lparr>ugx_subsets = [default_subset, default_subset\<lparr>s_index := 1\<rparr>],
              active_subset = 0, current_subset = 0, view_check = False, scene_objects = []\<rparr>)) k \<noteq> None) [1, -1]"
    by (simp add: py_pos_def)
  define M where "M = \<lparr>m_verts = [\<lparr>co = [], vselect = False\<rparr>, \<lparr>co = [], vselect = False\<rparr>], m_edges = [], m_polys = [],
             vertex_subset = Some [1, -1], edge_subset = None, face_subset = None, in_edit_mode = True\<rparr>"
  have v: "vertex_subset M = Some [1, -1]"
    by (simp add: M_def)
  obtain cols where "draw_vertices \<lparr>ugx_subsets = [default_subset, default_subset\<lparr>s_index := 1\<rparr>], active_subset = 0,
              current_subset = 0, view_check = False, scene_objects = []\<rparr> M = Inr (map co (m_verts M), cols)"
    using draw_vertices_colors [OF v h] by blast
  then show ?thesis
    by (auto simp: M_def)
qed

theorem draw_vertices_out_of_range_witness:
  "(1::int) \<in> set [1]
   \<and> py_pos (length [default_subset]) 1 = None
   \<and> draw_vertices \<lparr>ugx_subsets = [default_subset], active_subset = 1, current_subset = 0, view_check = False, scene_objects = []\<rparr>
       \<lparr>m_verts = [\<lparr>co = [], vselect = True\<rparr>], m_edges = [], m_polys = [],
        vertex_subset = Some [1], edge_subset = None, face_subset = None, in_edit_mode = True\<rparr> = Inl IndexError"
proof -
  have p: "py_pos (length (ugx_subsets \<lparr>ugx_subsets = [default_subset], active_subset = 1, current_subset = 0,
             view_check = False, scene_objects = []\<rparr>)) 1 = None"
    by (simp add: py_pos_def)
  show ?thesis
    using draw_vertices_out_of_range [OF _ _ p] p by simp
qed


text \<open>C22: \<open>materials.get(s.name)\<close> gives subsets of the same name one
  material, whose colour the last of them sets: with the face layer in the
  range of \<open>material_index\<close> and no slots before, a face whose layer value is
  the position of a subset is shown in the colour of the last subset that
  has that subset's name.  The scene of C18 reaches two subsets named
  \<open>Subset 1\<close>.\<close>

theorem draw_faces_duplicate_names:
  assumes "vis_slots v = []" "face_subset m = Some l" "list_all mat_index_ok l"
    and "f < length l" "nat (l ! f) < length (ugx_subsets sc)"
  shows "\<exists>v'. draw_faces sc m v = Ok v'
              \<and> face_shown_color v' f = Some (s_color (last (filter (\<lambda>s. s_name s = s_name (ugx_subsets sc ! nat (l ! f)))
                                                              (ugx_subsets sc))))"
proof -
  have "0 \<le> l ! f" using assms(3,4) by (simp add: list_all_length mat_index_ok_def)
  moreover have "s_name (ugx_subsets sc ! nat (l ! f)) \<in> set (map s_name (ugx_subsets sc))"
    using assms(5) by simp
  ultimately show ?thesis
    using draw_faces_Ok [OF assms(2,3)] faces_materials_last assms(1,4,5)
    by (simp add: face_shown_color_def faces_materials_slots)
qed

theorem draw_faces_duplicate_names_witness:
  "vis_slots \<lparr>vis_mats = [], vis_slots = [], vis_face_mat = []\<rparr> = []
   \<and> list_all mat_index_ok [0]
   \<and> (\<exists>v'. draw_faces \<lparr>ugx_subsets = [\<lparr>s_name = ''Subset 1'', s_index = 1, s_color = [Fin 1 0, Fin 0 0, Fin 0 0, Fin 1 0]\<rparr>,
                                     \<lparr>s_name = ''Subset 1'', s_index = 1, s_color = [Fin 0 0, Fin 0 0, Fin 1 0, Fin 1 0]\<rparr>],
                      active_subset = 0, current_subset = 0, view_check = False, scene_objects = []\<rparr>
            \<lparr>m_verts = [], m_edges = [], m_polys = [], vertex_subset = None, edge_subset = None,
             face_subset = Some [0], in_edit_mode = True\<rparr>
            \<lparr>vis_mats = [], vis_slots = [], vis_face_mat = []\<rparr> = Ok v'
          \<and> face_shown_color v' 0 = Some [Fin 0 0, Fin 0 0, Fin 1 0, Fin 1 0])"
  using draw_faces_duplicate_names [of "\<lparr>vis_mats = [], vis_slots = [], vis_face_mat = []\<rparr>"
      "\<lparr>m_verts = [], m_edges = [], m_polys = [], vertex_subset = None, edge_subset = None,
             face_subset = Some [0], in_edit_mode = True\<rparr>" "[0]" 0
      "\<lparr>ugx_subsets = [\<lparr>s_name = ''Subset 1'', s_index = 1, s_color = [Fin 1 0, Fin 0 0, Fin 0 0, Fin 1 0]\<rparr>,
                     \<lparr>s_name = ''Subset 1'', s_index = 1, s_color = [Fin 0 0, Fin 0 0, Fin 1 0, Fin 1 0]\<rparr>],
       active_subset = 0, current_subset = 0, view_check = False, scene_objects = []\<rparr>"]
  by (simp add: mat_index_ok_def)

end
