(* ===== verification/Panel.thy ===== *)
theory Panel
  imports Prelude "HOL-Library.While_Combinator"
begin

text \<open>
  Who owns the viewport draw handlers.  \<open>ViewportDrawing\<close>
  (\<open>src/io_ugx/visualizer.py\<close>) keeps the handles it registered with
  \<open>SpaceView3D.draw_handler_add\<close> in its list \<open>draw_handler\<close>.  Two places
  create an instance: \<open>subsets.py\<close>, when it is imported, reuses
  \<open>driver_namespace["viewport_drawing"]\<close> or stores a new one there and
  keeps it in its global \<open>drawing\<close>; \<open>register()\<close> in \<open>__init__.py\<close>
  stores another new one.  The panel's \<open>draw\<close> adds and removes handlers
  through \<open>drawing\<close>; \<open>unregister()\<close> removes those of the namespace's
  instance.  The state records the instances' handle lists (instances and
  handles are numbered as they are created), which instance each name refers
  to, and the handles registered with the viewport, each with the object it
  draws.  The drawing calls themselves are the theory \<open>Visualizer\<close>.
  \<open>bpy.context.space_data\<close> in a panel of the Properties editor is a
  \<open>SpaceProperties\<close>, which has no \<open>shading\<close>: setting
  \<open>space_data.shading.type\<close> raises AttributeError.
\<close>

record addon =
  next_id :: nat
  dns_drawing :: "nat option"
  subsets_drawing :: "nat option"
  vd_handlers :: "nat \<Rightarrow> nat list"
  space_handlers :: "(nat \<times> string) list"

definition addon_init :: addon where
  "addon_init = \<lparr>next_id = 0, dns_drawing = None, subsets_drawing = None,
                 vd_handlers = (\<lambda>_. []), space_handlers = []\<rparr>"

text \<open>\<open>ViewportDrawing()\<close>: a new instance with an empty handler list (the
  shader and GPU state calls are not modelled).\<close>

definition new_drawing :: "addon \<Rightarrow> nat \<times> addon" where
  "new_drawing a = (next_id a, a\<lparr>next_id := Suc (next_id a), vd_handlers := (vd_handlers a)(next_id a := [])\<rparr>)"

text \<open>The module body of \<open>subsets.py\<close>: \<open>try: drawing = dns["viewport_drawing"]\<close>,
  \<open>except KeyError\<close> a new instance stored in both.\<close>

definition import_subsets :: "addon \<Rightarrow> addon" where
  "import_subsets a =
     (case dns_drawing a of
        Some k \<Rightarrow> a\<lparr>subsets_drawing := Some k\<rparr>
      | None \<Rightarrow> (let (k, a1) = new_drawing a in a1\<lparr>dns_drawing := Some k, subsets_drawing := Some k\<rparr>))"

definition register_addon :: "addon \<Rightarrow> addon" where
  "register_addon a = (let (k, a1) = new_drawing a in a1\<lparr>dns_drawing := Some k\<rparr>)"

text \<open>\<open>create_draw_handler(obj)\<close>: two handles, for \<open>draw_vertices\<close> and
  \<open>draw_edges\<close> of \<open>obj\<close>, registered and appended to the instance.\<close>

definition create_draw_handler :: "nat \<Rightarrow> string \<Rightarrow> addon \<Rightarrow> addon" where
  "create_draw_handler k obj a =
     (let h = next_id a in
      a\<lparr>next_id := h + 2, vd_handlers := (vd_handlers a)(k := vd_handlers a k @ [h, Suc h]),
        space_handlers := space_handlers a @ [(h, obj), (Suc h, obj)]\<rparr>)"

definition remove_handlers :: "nat list \<Rightarrow> addon \<Rightarrow> addon" where
  "remove_handlers hs a = a\<lparr>space_handlers := filter (\<lambda>p. fst p \<notin> set hs) (space_handlers a)\<rparr>"

text \<open>The visualisation part of \<open>UGXSubsetsPanel.draw\<close>: \<open>obj\<close> is the
  active object's name and whether its mesh has a \<open>vertex_subset\<close>
  attribute; no active object raises AttributeError at \<open>obj.data\<close>.\<close>

definition panel_draw :: "bool \<Rightarrow> (string \<times> bool) option \<Rightarrow> addon \<Rightarrow> addon outcome" where
  "panel_draw view_check obj a =
     (case subsets_drawing a of
        None \<Rightarrow> Ok a
      | Some k \<Rightarrow>
          if view_check then
            (if vd_handlers a k = [] then
               (case obj of
                  None \<Rightarrow> Raised AttributeError a
                | Some (nm, has_layer) \<Rightarrow> Ok (if has_layer then create_draw_handler k nm a else a))
             else Ok a)
          else if vd_handlers a k \<noteq> [] then
            Raised AttributeError ((remove_handlers (vd_handlers a k) a)\<lparr>vd_handlers := (vd_handlers a)(k := [])\<rparr>)
          else Ok a)"

text \<open>The last loop of \<open>unregister()\<close>; class, menu and property
  unregistration are host calls.\<close>

definition unregister_addon :: "addon \<Rightarrow> addon" where
  "unregister_addon a =
     (case dns_drawing a of None \<Rightarrow> a | Some k \<Rightarrow> remove_handlers (vd_handlers a k) a)"

text \<open>Enabling the add-on the first time: \<open>__init__.py\<close> imports
  \<open>subsets\<close> (module body), then Blender calls \<open>register()\<close>.\<close>

definition enable_addon :: "addon \<Rightarrow> addon" where
  "enable_addon a = register_addon (import_subsets a)"

text \<open>\<open>UGXSubsetsPanel.poll\<close>: Blender draws the panel only while
  \<open>context.object is not None\<close>; in the Properties editor that is the
  active object the draw reads.\<close>

definition panel_poll :: "(string \<times> bool) option \<Rightarrow> bool" where
  "panel_poll obj \<longleftrightarrow> obj \<noteq> None"

inductive addon_reach :: "addon \<Rightarrow> bool" where
  enabled: "addon_reach (enable_addon addon_init)"
| draw: "addon_reach a \<Longrightarrow> panel_poll obj \<Longrightarrow> addon_reach (state_of (panel_draw v obj a))"

text \<open>Blender redraws the panel again and again, with the toggle and the
  active object of the moment; \<open>redraw_until_stable\<close> redraws until a
  redraw no longer changes the add-on state, and is None if that never
  happens.\<close>

definition redraw_until_stable :: "bool \<Rightarrow> (string \<times> bool) option \<Rightarrow> addon \<Rightarrow> addon option" where
  "redraw_until_stable view_check obj =
     while_option (\<lambda>a. state_of (panel_draw view_check obj a) \<noteq> a) (\<lambda>a. state_of (panel_draw view_check obj a))"

text \<open>What the reachable states keep.  The viewport's handles are exactly
  the list of the panel's instance, and they are either none or the pair one
  \<open>create_draw_handler\<close> registered, both drawing the same object.  The
  namespace's instance, the one \<open>unregister()\<close> reads, is another instance
  and never has a handle.\<close>

fun handler_pair :: "(nat \<times> string) list \<Rightarrow> bool" where
  "handler_pair [] = True"
| "handler_pair [(h, nm), (h', nm')] = (h' = Suc h \<and> nm' = nm)"
| "handler_pair _ = False"

definition handlers_in_sync :: "addon \<Rightarrow> bool" where
  "handlers_in_sync a \<longleftrightarrow> (case subsets_drawing a of None \<Rightarrow> False
     | Some k \<Rightarrow> map fst (space_handlers a) = vd_handlers a k \<and> handler_pair (space_handlers a))"

definition dns_idle :: "addon \<Rightarrow> bool" where
  "dns_idle a \<longleftrightarrow> (case (dns_drawing a, subsets_drawing a) of
     (Some d, Some k) \<Rightarrow> d \<noteq> k \<and> vd_handlers a d = [] | _ \<Rightarrow> False)"

text \<open>The abstract view: the object whose subsets the viewport shows, if
  any.  \<open>show_spec\<close> is what the panel's toggle promises: ticked, it keeps
  the object it shows, or starts showing the active object when that has
  subset layers; unticked, nothing is shown.\<close>

definition shown_object :: "addon \<Rightarrow> string option" where
  "shown_object a = (case space_handlers a of [] \<Rightarrow> None | p # _ \<Rightarrow> Some (snd p))"

definition show_spec :: "bool \<Rightarrow> (string \<times> bool) option \<Rightarrow> string option \<Rightarrow> string option" where
  "show_spec view_check obj shown =
     (if view_check then
        (case shown of Some nm \<Rightarrow> Some nm
         | None \<Rightarrow> (case obj of Some (nm, True) \<Rightarrow> Some nm | _ \<Rightarrow> None))
      else None)"

subsection \<open>Lemmas\<close>

lemma enable_addon_init:
  "enable_addon addon_init = \<lparr>next_id = 2, dns_drawing = Some 1, subsets_drawing = Some 0,
      vd_handlers = (\<lambda>_. [])(0 := [], 1 := []), space_handlers = []\<rparr>"
  by (simp add: enable_addon_def register_addon_def import_subsets_def new_drawing_def addon_init_def)

lemma remove_handlers_fields [simp]:
  "next_id (remove_handlers hs a) = next_id a"
  "dns_drawing (remove_handlers hs a) = dns_drawing a"
  "subsets_drawing (remove_handlers hs a) = subsets_drawing a"
  "vd_handlers (remove_handlers hs a) = vd_handlers a"
  by (simp_all add: remove_handlers_def)

lemma remove_all_handlers:
  "map fst (space_handlers a) = hs \<Longrightarrow> space_handlers (remove_handlers hs a) = []"
  unfolding remove_handlers_def by (force simp: filter_empty_conv)

lemma panel_draw_subsets_drawing [simp]:
  "subsets_drawing (state_of (panel_draw v obj a)) = subsets_drawing a"
  by (simp add: panel_draw_def create_draw_handler_def Let_def split: option.split)

lemma panel_draw_sync: "handlers_in_sync a \<Longrightarrow> handlers_in_sync (state_of (panel_draw v obj a))"
  by (auto simp: handlers_in_sync_def panel_draw_def create_draw_handler_def remove_all_handlers Let_def
           split: option.splits if_splits)

lemma panel_draw_dns_idle: "dns_idle a \<Longrightarrow> dns_idle (state_of (panel_draw v obj a))"
  by (auto simp: dns_idle_def panel_draw_def create_draw_handler_def Let_def
           split: option.splits if_splits)

lemma addon_reach_dns_idle: "addon_reach a \<Longrightarrow> dns_idle a"
  by (induction rule: addon_reach.induct)
     (simp add: enable_addon_init dns_idle_def, simp add: panel_draw_dns_idle)

lemma addon_reach_sync: "addon_reach a \<Longrightarrow> handlers_in_sync a"
  by (induction rule: addon_reach.induct)
     (simp add: enable_addon_init handlers_in_sync_def, simp add: panel_draw_sync)

lemma reach_draw_cube:
  "addon_reach (state_of (panel_draw True (Some (''Cube'', True)) (enable_addon addon_init)))"
  by (intro addon_reach.draw addon_reach.enabled) (simp add: panel_poll_def)

lemma draw_cube_state:
  "state_of (panel_draw True (Some (''Cube'', True)) (enable_addon addon_init)) =
   \<lparr>next_id = 4, dns_drawing = Some 1, subsets_drawing = Some 0,
    vd_handlers = (\<lambda>_. [])(0 := [2, 3], 1 := []), space_handlers = [(2, ''Cube''), (3, ''Cube'')]\<rparr>"
  by (simp add: enable_addon_init panel_draw_def create_draw_handler_def fun_upd_twist)

lemma panel_draw_idem:
  "state_of (panel_draw v obj (state_of (panel_draw v obj a))) = state_of (panel_draw v obj a)"
  by (auto simp: panel_draw_def create_draw_handler_def Let_def split: option.splits if_splits)

subsection \<open>Properties\<close>

text \<open>C25: in every state reached by enabling the add-on and redrawing the
  panel, the viewport's draw handlers are exactly the handle list of the
  instance the panel draws with, none or one pair for one object, and the
  namespace's instance is a different instance with no handle.\<close>

theorem addon_reach_invariant: "addon_reach a \<Longrightarrow> handlers_in_sync a \<and> dns_idle a"
  by (simp add: addon_reach_sync addon_reach_dns_idle)

theorem addon_reach_invariant_witness:
  "handlers_in_sync (state_of (panel_draw True (Some (''Cube'', True)) (enable_addon addon_init)))
   \<and> dns_idle (state_of (panel_draw True (Some (''Cube'', True)) (enable_addon addon_init)))
   \<and> vd_handlers (state_of (panel_draw True (Some (''Cube'', True)) (enable_addon addon_init))) 0 = [2, 3]"
  using addon_reach_invariant [OF reach_draw_cube] by (simp add: draw_cube_state)

text \<open>C26: redrawing the panel refines the toggle's abstract
  specification: the object shown after a redraw is \<open>show_spec\<close> of the
  toggle, the active object and the object shown before.\<close>

theorem panel_draw_refines_show:
  assumes "addon_reach a"
  shows "shown_object (state_of (panel_draw v obj a)) = show_spec v obj (shown_object a)"
proof -
  have "handlers_in_sync a" using assms by (rule addon_reach_sync)
  then obtain k where k: "subsets_drawing a = Some k"
    and fst: "map fst (space_handlers a) = vd_handlers a k"
    by (auto simp: handlers_in_sync_def split: option.splits)
  have none: "(vd_handlers a k = []) = (space_handlers a = [])"
    using fst by auto
  show ?thesis
    using k none remove_all_handlers [OF fst]
    by (auto simp: panel_draw_def show_spec_def shown_object_def create_draw_handler_def Let_def
             split: option.splits list.splits if_splits)
qed

theorem panel_draw_refines_show_witness:
  "shown_object (state_of (panel_draw True (Some (''Sphere'', True))
      (state_of (panel_draw True (Some (''Cube'', True)) (enable_addon addon_init))))) = Some ''Cube''"
  using panel_draw_refines_show [OF reach_draw_cube, of True "Some (''Sphere'', True)"]
  by (simp add: draw_cube_state show_spec_def shown_object_def)

text \<open>C27: \<open>unregister()\<close> removes no draw handler from the viewport in
  any reachable state: it walks the handle list of the namespace's instance,
  which \<open>register()\<close> created after \<open>subsets.py\<close> had bound its own, so the
  handlers the panel registered stay after the add-on is disabled.\<close>

theorem unregister_removes_nothing: "addon_reach a \<Longrightarrow> unregister_addon a = a"
proof -
  assume "addon_reach a"
  then have "dns_idle a" by (rule addon_reach_dns_idle)
  then show ?thesis
    by (auto simp: dns_idle_def unregister_addon_def remove_handlers_def split: option.splits)
qed

theorem unregister_removes_nothing_witness:
  "space_handlers (unregister_addon (state_of (panel_draw True (Some (''Cube'', True)) (enable_addon addon_init))))
   = [(2, ''Cube''), (3, ''Cube'')]"
  using unregister_removes_nothing [OF reach_draw_cube] by (simp add: draw_cube_state)

text \<open>C28: unticking Show Subsets while subsets are shown removes the
  handlers and clears the list, then raises AttributeError at
  \<open>space_data.shading\<close> (the panel's space is the Properties editor).\<close>

theorem hide_subsets_raises:
  assumes "addon_reach a" and "space_handlers a \<noteq> []"
  shows "\<exists>a'. panel_draw False obj a = Raised AttributeError a' \<and> space_handlers a' = []
              \<and> subsets_drawing a' = subsets_drawing a"
proof -
  have "handlers_in_sync a" using assms(1) by (rule addon_reach_sync)
  then obtain k where k: "subsets_drawing a = Some k"
    and fst: "map fst (space_handlers a) = vd_handlers a k"
    by (auto simp: handlers_in_sync_def split: option.splits)
  then have "vd_handlers a k \<noteq> []" using assms(2) by auto
  with k show ?thesis
    using remove_all_handlers [OF fst] by (simp add: panel_draw_def)
qed

theorem hide_subsets_raises_witness:
  "\<exists>a'. panel_draw False (Some (''Cube'', True))
          (state_of (panel_draw True (Some (''Cube'', True)) (enable_addon addon_init)))
        = Raised AttributeError a' \<and> space_handlers a' = []
        \<and> subsets_drawing a' = subsets_drawing (state_of (panel_draw True (Some (''Cube'', True)) (enable_addon addon_init)))"
  by (rule hide_subsets_raises [OF reach_draw_cube]) (simp add: draw_cube_state)

text \<open>C31: redrawing terminates: for any state, toggle and active object,
  repeated redraws stop changing the add-on state, already after the first
  redraw.  The \<open>len(drawing.draw_handler) == 0\<close> guard is what keeps a
  ticked panel from registering a new pair of handlers on every redraw.\<close>

theorem panel_redraws_terminate:
  "redraw_until_stable v obj a = Some (state_of (panel_draw v obj a))"
proof (cases "state_of (panel_draw v obj a) = a")
  case True
  then show ?thesis
    by (subst redraw_until_stable_def, subst while_option_unfold) (simp add: True)
next
  case False
  then show ?thesis
    unfolding redraw_until_stable_def
    by (subst while_option_unfold, simp, subst while_option_unfold) (simp add: panel_draw_idem)
qed

end
