(* ===== verification/Lifecycle.thy ===== *)
theory Lifecycle
  imports Panel
begin

text \<open>
  The add-on across Blender's Reload Scripts.  Reloading calls the add-on's
  \<open>unregister()\<close>, executes \<open>__init__.py\<close> again in the module's old
  namespace, where \<open>bpy\<close> is bound, so its first block reloads
  \<open>ugx_io\<close>, \<open>visualizer\<close> and \<open>subsets\<close> (\<open>importlib.reload\<close> runs a
  module body again), and calls \<open>register()\<close>.  The reloaded \<open>subsets.py\<close>
  finds \<open>driver_namespace["viewport_drawing"]\<close>, the instance the previous
  \<open>register()\<close> stored, and binds it; \<open>register()\<close> then stores another
  new one.  The handlers the old \<open>drawing\<close> had registered are in no list
  the code reads any more.  A run of the add-on is enabling it and then any
  sequence of panel redraws and reloads (\<open>life_step\<close>).
\<close>

text \<open>Reload Scripts: \<open>unregister()\<close>, the reload block of \<open>__init__.py\<close>
  (of the three modules only \<open>subsets\<close> has state at module level), then
  \<open>register()\<close>.\<close>

definition reload_addon :: "addon \<Rightarrow> addon" where
  "reload_addon a = register_addon (import_subsets (unregister_addon a))"

inductive life_step :: "addon \<Rightarrow> addon \<Rightarrow> bool" where
  draw: "panel_poll obj \<Longrightarrow> life_step a (state_of (panel_draw v obj a))"
| reload: "life_step a (reload_addon a)"

inductive life_reach :: "addon \<Rightarrow> bool" where
  enabled: "life_reach (enable_addon addon_init)"
| step: "life_reach a \<Longrightarrow> life_step a b \<Longrightarrow> life_reach b"

text \<open>What a run keeps: every handle in the viewport is below the next
  number to be given out, and the namespace has an instance numbered below
  it.  A handle is orphaned when the viewport has it and neither instance a
  name refers to lists it: no code path can remove it then, and a reload
  orphans every handle the viewport has.\<close>

definition fresh_handles :: "addon \<Rightarrow> bool" where
  "fresh_handles a \<longleftrightarrow> list_all (\<lambda>p. fst p < next_id a) (space_handlers a)"

definition life_ok :: "addon \<Rightarrow> bool" where
  "life_ok a \<longleftrightarrow> fresh_handles a \<and> (case dns_drawing a of None \<Rightarrow> False | Some d \<Rightarrow> d < next_id a)"

definition orphan :: "nat \<Rightarrow> addon \<Rightarrow> bool" where
  "orphan h a \<longleftrightarrow> h \<in> set (map fst (space_handlers a))
     \<and> (case subsets_drawing a of None \<Rightarrow> True | Some k \<Rightarrow> h \<notin> set (vd_handlers a k))
     \<and> (case dns_drawing a of None \<Rightarrow> True | Some d \<Rightarrow> h \<notin> set (vd_handlers a d))"

subsection \<open>Lemmas\<close>

lemma reload_addon_fields:
  assumes "dns_drawing a = Some d"
  shows "next_id (reload_addon a) = Suc (next_id a)"
  "subsets_drawing (reload_addon a) = Some d"
  "dns_drawing (reload_addon a) = Some (next_id a)"
  "vd_handlers (reload_addon a) = (vd_handlers a)(next_id a := [])"
  "space_handlers (reload_addon a) = space_handlers (remove_handlers (vd_handlers a d) a)"
  using assms by (simp_all add: reload_addon_def register_addon_def import_subsets_def new_drawing_def
                    unregister_addon_def split: option.split)

lemma panel_draw_fields [simp]:
  "dns_drawing (state_of (panel_draw v obj a)) = dns_drawing a"
  by (simp add: panel_draw_def create_draw_handler_def Let_def split: option.split)

lemma panel_draw_next_id: "next_id a \<le> next_id (state_of (panel_draw v obj a))"
  by (simp add: panel_draw_def create_draw_handler_def Let_def split: option.split)

lemma panel_draw_fresh: "fresh_handles a \<Longrightarrow> fresh_handles (state_of (panel_draw v obj a))"
  by (auto simp: fresh_handles_def list_all_iff panel_draw_def create_draw_handler_def remove_handlers_def
           Let_def split: option.splits if_splits)

lemma reload_fresh: "dns_drawing a = Some d \<Longrightarrow> fresh_handles a \<Longrightarrow> fresh_handles (reload_addon a)"
  by (auto simp: fresh_handles_def list_all_iff reload_addon_fields remove_handlers_def)

lemma life_step_ok: "life_step a b \<Longrightarrow> life_ok a \<Longrightarrow> life_ok b"
  by (induction rule: life_step.induct)
     (auto simp: life_ok_def panel_draw_fresh reload_fresh reload_addon_fields
           intro: order_less_le_trans [OF _ panel_draw_next_id] split: option.splits)

lemma life_reach_ok: "life_reach a \<Longrightarrow> life_ok a"
  by (induction rule: life_reach.induct)
     (simp add: life_ok_def fresh_handles_def enable_addon_init, blast intro: life_step_ok)

lemma orphan_draw:
  assumes "fresh_handles a" and "orphan h a"
  shows "orphan h (state_of (panel_draw v obj a))"
proof -
  have "h < next_id a"
    using assms by (auto simp: fresh_handles_def orphan_def list_all_iff)
  then show ?thesis
    using assms(2)
    by (auto simp: orphan_def panel_draw_def create_draw_handler_def remove_handlers_def Let_def
             split: option.splits if_splits)
qed

lemma orphan_reload:
  assumes "dns_drawing a = Some d" and "orphan h a"
  shows "orphan h (reload_addon a)"
  using assms by (auto simp: orphan_def reload_addon_fields [OF assms(1)] remove_handlers_def)

lemma orphan_step: "life_step a b \<Longrightarrow> life_ok a \<Longrightarrow> orphan h a \<Longrightarrow> orphan h b"
  by (induction rule: life_step.induct) (auto simp: life_ok_def orphan_draw orphan_reload split: option.splits)

lemma life_reach_steps: "life_step\<^sup>*\<^sup>* a b \<Longrightarrow> life_reach a \<Longrightarrow> life_reach b"
  by (induction rule: rtranclp_induct) (auto intro: life_reach.step)

lemma reload_dns_idle: "dns_idle a \<Longrightarrow> life_ok a \<Longrightarrow> dns_idle (reload_addon a)"
  by (auto simp: dns_idle_def life_ok_def reload_addon_fields split: option.splits prod.splits)

lemma life_step_idle: "life_step a b \<Longrightarrow> dns_idle a \<Longrightarrow> life_ok a \<Longrightarrow> dns_idle b"
  by (induction rule: life_step.induct) (simp_all add: panel_draw_dns_idle reload_dns_idle)

lemma life_reach_idle: "life_reach a \<Longrightarrow> dns_idle a"
proof (induction rule: life_reach.induct)
  case enabled
  show ?case by (simp add: enable_addon_init dns_idle_def)
next
  case (step a b)
  then show ?case
    using life_reach_ok [OF step.hyps(1)] by (blast intro: life_step_idle)
qed

lemma reload_orphans:
  assumes "dns_idle a" and "h \<in> set (map fst (space_handlers a))"
  shows "orphan h (reload_addon a)"
proof -
  obtain d k where dk: "dns_drawing a = Some d" "subsets_drawing a = Some k" "d \<noteq> k" "vd_handlers a d = []"
    using assms(1) by (auto simp: dns_idle_def split: option.splits)
  then show ?thesis
    using assms(2) by (auto simp: orphan_def reload_addon_fields [OF dk(1)] remove_handlers_def)
qed

subsection \<open>Properties\<close>

lemma orphans_persist:
  assumes "life_reach a" and "orphan h a" and "life_step\<^sup>*\<^sup>* a b"
  shows "orphan h b"
  using assms(3,1,2)
proof (induction rule: rtranclp_induct)
  case (step b c)
  have "life_ok b"
    using life_reach_steps [OF step.hyps(1) step.prems(1)] by (rule life_reach_ok)
  with step show ?case
    by (blast intro: orphan_step)
qed simp

text \<open>C32: Reload Scripts leaks the handlers shown before it: every draw
  handler in the viewport before a reload is still there after any later
  sequence of redraws (whatever the toggle and the active object) and
  reloads.  \<open>unregister()\<close> walks the namespace's instance, which holds none
  of them, and the reloaded \<open>subsets.py\<close> binds that instance, so no later
  removal reads their handles.\<close>

theorem reload_keeps_handlers:
  assumes "life_reach a" and "h \<in> set (map fst (space_handlers a))"
    and "life_step\<^sup>*\<^sup>* (reload_addon a) b"
  shows "h \<in> set (map fst (space_handlers b))"
proof -
  have r: "life_reach (reload_addon a)"
    using assms(1) by (rule life_reach.step) (rule life_step.reload)
  have "orphan h (reload_addon a)"
    using reload_orphans [OF life_reach_idle [OF assms(1)] assms(2)] .
  then have "orphan h b"
    using orphans_persist [OF r _ assms(3)] by blast
  then show ?thesis by (simp add: orphan_def)
qed

text \<open>C33: after Reload Scripts, a redraw with Show Subsets ticked and an
  active object with subset layers registers a second pair of handlers
  beside the old ones, and unticking then removes only that pair.\<close>

theorem reload_adds_second_pair:
  assumes "life_reach a"
  shows "space_handlers (state_of (panel_draw True (Some (nm, True)) (reload_addon a)))
           = space_handlers a @ [(Suc (next_id a), nm), (Suc (Suc (next_id a)), nm)]
         \<and> space_handlers (state_of (panel_draw False obj
             (state_of (panel_draw True (Some (nm, True)) (reload_addon a))))) = space_handlers a"
proof -
  obtain d k where dk: "dns_drawing a = Some d" "subsets_drawing a = Some k" "d \<noteq> k" "vd_handlers a d = []"
    using life_reach_idle [OF assms] by (auto simp: dns_idle_def split: option.splits)
  have fresh: "\<forall>p\<in>set (space_handlers a). fst p < next_id a"
    using life_reach_ok [OF assms] by (simp add: life_ok_def fresh_handles_def list_all_iff)
  have keep: "filter (\<lambda>p. fst p \<notin> set [Suc (next_id a), Suc (Suc (next_id a))]) (space_handlers a) = space_handlers a"
    using fresh by (auto simp: filter_id_conv)
  show ?thesis
    using dk keep
    by (simp add: reload_addon_fields [OF dk(1)] panel_draw_def create_draw_handler_def remove_handlers_def)
qed

subsection \<open>Witnesses\<close>

lemma reach_draw_cube_life:
  "life_reach (state_of (panel_draw True (Some (''Cube'', True)) (enable_addon addon_init)))"
  by (intro life_reach.step [OF _ life_step.draw] life_reach.enabled) (simp add: panel_poll_def)

theorem reload_keeps_handlers_witness:
  "2 \<in> set (map fst (space_handlers (state_of (panel_draw True (Some (''Cube'', True)) (enable_addon addon_init)))))
   \<and> 2 \<in> set (map fst (space_handlers (state_of (panel_draw False (Some (''Cube'', True))
      (state_of (panel_draw True (Some (''Cube'', True))
        (reload_addon (state_of (panel_draw True (Some (''Cube'', True)) (enable_addon addon_init))))))))))"
proof -
  have p: "panel_poll (Some (''Cube'', True))" by (simp add: panel_poll_def)
  have h: "2 \<in> set (map fst (space_handlers (state_of (panel_draw True (Some (''Cube'', True)) (enable_addon addon_init)))))"
    by (simp add: draw_cube_state)
  let ?a = "reload_addon (state_of (panel_draw True (Some (''Cube'', True)) (enable_addon addon_init)))"
  have s1: "life_step ?a (state_of (panel_draw True (Some (''Cube'', True)) ?a))"
    using p by (rule life_step.draw)
  have s2: "life_step (state_of (panel_draw True (Some (''Cube'', True)) ?a))
      (state_of (panel_draw False (Some (''Cube'', True)) (state_of (panel_draw True (Some (''Cube'', True)) ?a))))"
    using p by (rule life_step.draw)
  have s: "life_step\<^sup>*\<^sup>* ?a
      (state_of (panel_draw False (Some (''Cube'', True)) (state_of (panel_draw True (Some (''Cube'', True)) ?a))))"
    using s1 s2 by (rule converse_rtranclp_into_rtranclp [OF _ r_into_rtranclp])
  show ?thesis
    using h reload_keeps_handlers [OF reach_draw_cube_life h s] by blast
qed

theorem reload_adds_second_pair_witness:
  "space_handlers (state_of (panel_draw True (Some (''Cube'', True))
      (reload_addon (state_of (panel_draw True (Some (''Cube'', True)) (enable_addon addon_init))))))
     = [(2, ''Cube''), (3, ''Cube''), (5, ''Cube''), (6, ''Cube'')]
   \<and> space_handlers (state_of (panel_draw False (Some (''Cube'', True))
      (state_of (panel_draw True (Some (''Cube'', True))
        (reload_addon (state_of (panel_draw True (Some (''Cube'', True)) (enable_addon addon_init))))))))
     = [(2, ''Cube''), (3, ''Cube'')]"
  using reload_adds_second_pair [OF reach_draw_cube_life, of "''Cube''" "Some (''Cube'', True)"]
  by (simp add: draw_cube_state)

end
