(* ===== verification/Painting.thy ===== *)
theory Painting
  imports Subsets Visualizer
begin

text \<open>
  \<open>UGXSubsetsAdditions.invoke\<close> with the call \<open>drawing.draw_faces(obj)\<close>
  of its FACES branch: the operator of \<open>Subsets\<close> paints the layer, then
  \<open>draw_faces\<close> of \<open>Visualizer\<close> reads the painted layer from the same edit
  BMesh and assigns the materials of the object.  The state is the scene,
  the active mesh and the object's materials.
\<close>

text \<open>The operator's result with the object's materials added to its state.\<close>

definition op_map :: "('a \<Rightarrow> 'b) \<Rightarrow> 'a op_outcome \<Rightarrow> 'b op_outcome" where
  "op_map f r = (case r of Finished s \<Rightarrow> Finished (f s) | Cancelled s \<Rightarrow> Cancelled (f s)
                 | Failed e s \<Rightarrow> Failed e (f s))"

text \<open>The whole operator: for FACES, after the loop, \<open>draw_faces\<close> runs on
  the painted mesh; its KeyError, for a missing face layer, would be raised
  after the painting.\<close>

definition subset_action :: "elem_kind \<Rightarrow> scene \<Rightarrow> mesh option \<Rightarrow> vis \<Rightarrow> (scene \<times> mesh option \<times> vis) op_outcome" where
  "subset_action k sc obj v =
     (case additions k sc obj of
        Finished (sc', Some m') \<Rightarrow>
          (if k = FACES then
             (case draw_faces sc' m' v of
                Ok v' \<Rightarrow> Finished (sc', Some m', v')
              | Raised e v' \<Rightarrow> Failed e (sc', Some m', v'))
           else Finished (sc', Some m', v))
      | r \<Rightarrow> op_map (\<lambda>(s, ob). (s, ob, v)) r)"

subsection \<open>Lemmas\<close>

lemma additions_faces_Finished:
  assumes "ugx_subsets sc \<noteq> []" "face_subset m = Some l"
  shows "additions FACES sc (Some m) =
           Finished (sc, Some (m\<lparr>in_edit_mode := True,
                                 face_subset := Some (paint (map pselect (m_polys m)) (active_subset sc) l)\<rparr>))"
  using assms by (simp add: additions_def no_layers_def Let_def)

lemma paint_list_all: "list_all P l \<Longrightarrow> P a \<Longrightarrow> list_all P (paint sel a l)"
  using paint_nth [of sel a l] by (auto simp: list_all_length)

lemma subset_action_faces:
  assumes "ugx_subsets sc \<noteq> []" "face_subset m = Some l"
    and "list_all mat_index_ok l" "mat_index_ok (active_subset sc)"
  shows "subset_action FACES sc (Some m) v =
           Finished (sc, Some (m\<lparr>in_edit_mode := True,
                                  face_subset := Some (paint (map pselect (m_polys m)) (active_subset sc) l)\<rparr>),
                     (faces_materials (ugx_subsets sc) v)\<lparr>vis_face_mat := paint (map pselect (m_polys m)) (active_subset sc) l\<rparr>)"
  using additions_faces_Finished [OF assms(1,2)] draw_faces_Ok paint_list_all [OF assms(3,4)]
  by (simp add: subset_action_def)

lemma painted_face:
  assumes "active_subset sc = int p" "face_subset m = Some l" "length l = length (m_polys m)"
    and "f < length (m_polys m)" "pselect (m_polys m ! f)"
  shows "paint (map pselect (m_polys m)) (active_subset sc) l ! f = int p"
    "length (paint (map pselect (m_polys m)) (active_subset sc) l) = length (m_polys m)"
  using assms by (simp_all add: paint_nth)

subsection \<open>Properties\<close>

text \<open>C34: painting faces, composed with the visualisation it triggers: for
  an object without material slots and subsets of distinct names, Add
  Selected Faces with a valid active row \<open>p\<close> finishes, writes \<open>p\<close> into
  the face layer at every selected face, and the viewport then shows each
  selected face in the colour of the subset at row \<open>p\<close>, provided the face
  layer and \<open>p\<close> are in the range of \<open>material_index\<close>.\<close>

theorem subset_action_faces_shown:
  assumes names: "distinct (map s_name (ugx_subsets sc))" and slots: "vis_slots v = []"
    and act: "active_subset sc = int p" "p < length (ugx_subsets sc)"
    and lay: "face_subset m = Some l" "length l = length (m_polys m)"
    and rng: "list_all mat_index_ok l" "mat_index_ok (int p)"
    and sel: "f < length (m_polys m)" "pselect (m_polys m ! f)"
  shows "\<exists>m' v'. subset_action FACES sc (Some m) v = Finished (sc, Some m', v')
                \<and> face_subset m' = Some (paint (map pselect (m_polys m)) (int p) l)
                \<and> face_shown_color v' f = Some (s_color (ugx_subsets sc ! p))"
proof -
  have ne: "ugx_subsets sc \<noteq> []" using act(2) by auto
  have f: "paint (map pselect (m_polys m)) (active_subset sc) l ! f = int p"
      "length (paint (map pselect (m_polys m)) (active_subset sc) l) = length (m_polys m)"
    using painted_face [OF act(1) lay sel] .
  show ?thesis
    using subset_action_faces [OF ne lay(1) rng(1) rng(2) [folded act(1)], of v] faces_materials_distinct [OF names act(2), of v] f sel(1) act slots
    by (simp add: face_shown_color_def faces_materials_slots)
qed

text \<open>C35: \<open>draw_faces\<close> appends the subsets' materials after the slots the
  object has and sets \<open>material_index\<close> to the layer value, a subset
  position, not a slot position.  When slot \<open>p\<close> of the object already holds
  a material that is not a subset's (Blender's default cube has
  \<open>Material\<close>), a face painted with row \<open>p\<close> is shown in that material's
  colour, not the subset's (the face layer and \<open>p\<close> in the range of
  \<open>material_index\<close>); and every call appends all the subsets' materials
  again.\<close>

theorem subset_action_existing_slot:
  assumes act: "active_subset sc = int p" "p < length (ugx_subsets sc)"
    and lay: "face_subset m = Some l" "length l = length (m_polys m)"
    and rng: "list_all mat_index_ok l" "mat_index_ok (int p)"
    and sel: "f < length (m_polys m)" "pselect (m_polys m ! f)"
    and old: "p < length (vis_slots v)" "vis_slots v ! p \<notin> set (map s_name (ugx_subsets sc))"
  shows "\<exists>m' v'. subset_action FACES sc (Some m) v = Finished (sc, Some m', v')
                \<and> vis_slots v' = vis_slots v @ map s_name (ugx_subsets sc)
                \<and> face_shown_color v' f = map_of (vis_mats v) (vis_slots v ! p)"
proof -
  have ne: "ugx_subsets sc \<noteq> []" using act(2) by auto
  have f: "paint (map pselect (m_polys m)) (active_subset sc) l ! f = int p"
      "length (paint (map pselect (m_polys m)) (active_subset sc) l) = length (m_polys m)"
    using painted_face [OF act(1) lay sel] .
  show ?thesis
    using subset_action_faces [OF ne lay(1) rng(1) rng(2) [folded act(1)], of v] faces_materials_other [OF old(2), of v] f sel(1) old(1)
    by (simp add: face_shown_color_def faces_materials_slots nth_append)
qed

text \<open>C36: painting faces with an active row outside the range of
  \<open>material_index\<close> (a negative one, as in C16) writes the row into the face
  layer and appends the subsets' materials, then \<open>draw_faces\<close> raises
  ValueError at the first painted face: the operator fails with the layer
  already written.\<close>

theorem subset_action_faces_bad_row:
  assumes "ugx_subsets sc \<noteq> []" and lay: "face_subset m = Some l" "length l = length (m_polys m)"
    and sel: "f < length (m_polys m)" "pselect (m_polys m ! f)"
    and bad: "\<not> mat_index_ok (active_subset sc)"
  shows "\<exists>m' v'. subset_action FACES sc (Some m) v = Failed ValueError (sc, Some m', v')
                \<and> face_subset m' = Some (paint (map pselect (m_polys m)) (active_subset sc) l)
                \<and> vis_slots v' = vis_slots v @ map s_name (ugx_subsets sc)"
proof -
  have "paint (map pselect (m_polys m)) (active_subset sc) l ! f = active_subset sc"
      "length (paint (map pselect (m_polys m)) (active_subset sc) l) = length (m_polys m)"
    using lay sel by (simp_all add: paint_nth)
  then have "\<not> list_all mat_index_ok (paint (map pselect (m_polys m)) (active_subset sc) l)"
    using bad sel(1) by (auto simp: list_all_length)
  then show ?thesis
    using additions_faces_Finished [OF assms(1) lay(1)]
    by (simp add: subset_action_def draw_faces_def faces_materials_slots Let_def)
qed

subsection \<open>Witnesses\<close>

theorem subset_action_faces_shown_witness:
  "\<exists>m' v'. subset_action FACES
       \<lparr>ugx_subsets = [\<lparr>s_name = ''Subset 0'', s_index = 0, s_color = [Fin 1 0, Fin 0 0, Fin 0 0, Fin 1 0]\<rparr>],
        active_subset = 0, current_subset = 0, view_check = False, scene_objects = []\<rparr>
       (Some \<lparr>m_verts = [], m_edges = [], m_polys = [\<lparr>pvertices = [0, 1, 2], pselect = True\<rparr>],
              vertex_subset = Some [], edge_subset = Some [], face_subset = Some [0], in_edit_mode = False\<rparr>)
       \<lparr>vis_mats = [], vis_slots = [], vis_face_mat = []\<rparr>
     = Finished (\<lparr>ugx_subsets = [\<lparr>s_name = ''Subset 0'', s_index = 0, s_color = [Fin 1 0, Fin 0 0, Fin 0 0, Fin 1 0]\<rparr>],
        active_subset = 0, current_subset = 0, view_check = False, scene_objects = []\<rparr>, Some m', v')
     \<and> face_subset m' = Some (paint [True] 0 [0])
     \<and> face_shown_color v' 0 = Some [Fin 1 0, Fin 0 0, Fin 0 0, Fin 1 0]"
  using subset_action_faces_shown [of "\<lparr>ugx_subsets = [\<lparr>s_name = ''Subset 0'', s_index = 0, s_color = [Fin 1 0, Fin 0 0, Fin 0 0, Fin 1 0]\<rparr>],
        active_subset = 0, current_subset = 0, view_check = False, scene_objects = []\<rparr>"
      "\<lparr>vis_mats = [], vis_slots = [], vis_face_mat = []\<rparr>" 0
      "\<lparr>m_verts = [], m_edges = [], m_polys = [\<lparr>pvertices = [0, 1, 2], pselect = True\<rparr>],
              vertex_subset = Some [], edge_subset = Some [], face_subset = Some [0], in_edit_mode = False\<rparr>" "[0]" 0]
  by (simp add: mat_index_ok_def)

theorem subset_action_existing_slot_witness:
  "\<exists>m' v'. subset_action FACES
       \<lparr>ugx_subsets = [\<lparr>s_name = ''Subset 0'', s_index = 0, s_color = [Fin 1 0, Fin 0 0, Fin 0 0, Fin 1 0]\<rparr>],
        active_subset = 0, current_subset = 0, view_check = False, scene_objects = []\<rparr>
       (Some \<lparr>m_verts = [], m_edges = [], m_polys = [\<lparr>pvertices = [0, 1, 2], pselect = True\<rparr>],
              vertex_subset = Some [], edge_subset = Some [], face_subset = Some [0], in_edit_mode = False\<rparr>)
       \<lparr>vis_mats = [(''Material'', [Fin 8 (-1), Fin 8 (-1), Fin 8 (-1), Fin 1 0])], vis_slots = [''Material''], vis_face_mat = []\<rparr>
     = Finished (\<lparr>ugx_subsets = [\<lparr>s_name = ''Subset 0'', s_index = 0, s_color = [Fin 1 0, Fin 0 0, Fin 0 0, Fin 1 0]\<rparr>],
        active_subset = 0, current_subset = 0, view_check = False, scene_objects = []\<rparr>, Some m', v')
     \<and> vis_slots v' = [''Material'', ''Subset 0'']
     \<and> face_shown_color v' 0 = Some [Fin 8 (-1), Fin 8 (-1), Fin 8 (-1), Fin 1 0]"
  using subset_action_existing_slot [of "\<lparr>ugx_subsets = [\<lparr>s_name = ''Subset 0'', s_index = 0, s_color = [Fin 1 0, Fin 0 0, Fin 0 0, Fin 1 0]\<rparr>],
        active_subset = 0, current_subset = 0, view_check = False, scene_objects = []\<rparr>" 0
      "\<lparr>m_verts = [], m_edges = [], m_polys = [\<lparr>pvertices = [0, 1, 2], pselect = True\<rparr>],
              vertex_subset = Some [], edge_subset = Some [], face_subset = Some [0], in_edit_mode = False\<rparr>" "[0]" 0
      "\<lparr>vis_mats = [(''Material'', [Fin 8 (-1), Fin 8 (-1), Fin 8 (-1), Fin 1 0])], vis_slots = [''Material''], vis_face_mat = []\<rparr>"]
  by (simp add: mat_index_ok_def)

theorem subset_action_faces_bad_row_witness:
  "\<exists>m' v'. subset_action FACES
       \<lparr>ugx_subsets = [default_subset, default_subset], active_subset = -1, current_subset = 0,
        view_check = False, scene_objects = []\<rparr>
       (Some \<lparr>m_verts = [], m_edges = [], m_polys = [\<lparr>pvertices = [0, 1, 2], pselect = True\<rparr>],
              vertex_subset = Some [], edge_subset = Some [], face_subset = Some [0], in_edit_mode = False\<rparr>)
       \<lparr>vis_mats = [], vis_slots = [], vis_face_mat = []\<rparr>
     = Failed ValueError (\<lparr>ugx_subsets = [default_subset, default_subset], active_subset = -1, current_subset = 0,
        view_check = False, scene_objects = []\<rparr>, Some m', v')
     \<and> face_subset m' = Some (paint [True] (-1) [0])
     \<and> vis_slots v' = [[], []]"
  using subset_action_faces_bad_row [of "\<lparr>ugx_subsets = [default_subset, default_subset], active_subset = -1, current_subset = 0,
        view_check = False, scene_objects = []\<rparr>"
      "\<lparr>m_verts = [], m_edges = [], m_polys = [\<lparr>pvertices = [0, 1, 2], pselect = True\<rparr>],
              vertex_subset = Some [], edge_subset = Some [], face_subset = Some [0], in_edit_mode = False\<rparr>" "[0]" 0
      "\<lparr>vis_mats = [], vis_slots = [], vis_face_mat = []\<rparr>"]
  by (simp add: mat_index_ok_def default_subset_def)

end
