(* ===== verification/Spec2Isabelle.thy ===== *)
theory Spec2Isabelle
  imports Exporter Importer Subsets Visualizer Panel Lifecycle Painting
begin

text \<open>
  A verification development for the Blender add-on \<open>io_ugx\<close>
  (\<open>src/io_ugx\<close>), which exports a mesh to the UG4 grid format (UGX, an XML
  file), imports such a file, and lets the user define named, coloured
  subsets of vertices, edges and faces.

  \<^bold>\<open>Parts of the program and how they interact.\<close>
  \<^item> \<open>ugx_io.py\<close>, \<open>UGXExporter\<close>: builds an XML tree from the active mesh
    (vertices, edges, triangles/quads, the subset handler read from the
    mesh's integer attributes \<open>vertex_subset\<close>, \<open>edge_subset\<close>,
    \<open>face_subset\<close> and the scene's subset collection, a mark subset handler,
    the selector, the projection handler) and writes it.
  \<^item> \<open>ugx_io.py\<close>, \<open>UGXImporter\<close>: reads such a tree back into a new BMesh,
    appends one scene subset per subset element and writes the members into
    the BMesh layers.
  \<^item> \<open>subsets.py\<close>: the subset collection (\<open>UGXSubset\<close>), the operators that
    add, remove and reorder subsets, paint the selection into the layers and
    initialise the layers, and the panel.
  \<^item> \<open>visualizer.py\<close>: colours vertices, edges and faces by subset.
  \<^item> \<open>__init__.py\<close>: registration and the scene properties' defaults.
  Exporter and importer meet in the file: what the exporter writes is what
  the importer is meant to read.  Both meet the subset operators in the mesh
  layers and the scene's subset collection.

  \<^bold>\<open>Theories.\<close>
  \<^item> \<open>Prelude\<close>: Python exceptions as values (\<open>pyexc\<close>, \<open>'a res\<close>,
    \<open>bind_res\<close>), effects that survive an exception (\<open>'s outcome\<close>),
    comprehensions that may raise (\<open>map_res\<close>), Python indexing with negative
    indices (\<open>py_pos\<close>, \<open>py_index\<close>, \<open>py_setitem\<close>) and the writers'
    space-terminated accumulation (\<open>spaced\<close>).
  \<^item> \<open>PyStr\<close>: the built-ins the codec relies on: \<open>str.split(" ")\<close>,
    \<open>str.strip\<close>, \<open>int()\<close> and \<open>float()\<close> on strings, \<open>str()\<close> of an
    int, \<open>repr\<close> of a float (CPython's shortest round-trip form) and
    \<open>float.is_integer\<close>.  Floats are decimal values \<open>Fin m e\<close> = m * 10^e
    with the three special values; the theorems \<open>py_float_repr\<close>,
    \<open>py_float_str_int\<close> and \<open>py_int_str_int\<close> are the round trips.
  \<^item> \<open>Xml\<close>: the part of lxml's element API the code uses.
  \<^item> \<open>Blender\<close>: the host data (mesh, subset, scene, BMesh) and the BMesh
    operations with their errors.
  \<^item> \<open>Exporter\<close>: one definition per method of \<open>UGXExporter\<close>:
    \<open>add_vertices\<close>, \<open>add_edges\<close>, \<open>add_faces\<close> (\<open>faces_loop\<close>),
    \<open>add_subsets\<close> (\<open>subset_mains\<close>, \<open>add_members\<close>, \<open>layer_loop\<close>),
    \<open>add_mark_subset_handler\<close>, \<open>add_selector\<close>, \<open>add_projection_handler\<close>,
    \<open>export_execute\<close>; then the specification of the subset handler
    (\<open>subset_elem\<close>) and the invariant of the subsets dictionary
    (\<open>dict_ok\<close>) that the membership loops keep.
  \<^item> \<open>Importer\<close>: one definition per method of \<open>UGXImporter\<close>:
    \<open>get_vertices\<close>, \<open>get_edges\<close>, \<open>get_triangles\<close>, \<open>get_quads\<close> (each with
    its loop), \<open>get_subsets\<close> (\<open>subset_step\<close>, \<open>subsets_loop\<close>,
    \<open>member_loop\<close>), \<open>import_execute\<close>.
  \<^item> \<open>Subsets\<close>: the operators of \<open>subsets.py\<close> on the scene and the
    active mesh: \<open>list_action\<close> (\<open>UGXSubsetsListActions.invoke\<close>: the
    \<open>try\<close> on the active row, then \<open>move_or_remove\<close> for UP, DOWN and
    REMOVE and \<open>add_item\<close> for ADD, over the collection's \<open>coll_move\<close> and
    \<open>coll_remove\<close>), \<open>additions\<close> (\<open>UGXSubsetsAdditions.invoke\<close>, with the
    selection loop \<open>paint\<close>), \<open>initialize\<close> (\<open>UGXSubsetsIntitialize.execute\<close>,
    \<open>layer_new\<close>); the panel as the step relation \<open>ui_step\<close> (run an
    operator, click a row, change the selection) from \<open>registered_scene\<close>,
    the defaults \<open>register()\<close> sets, with its reachable states \<open>ui_reach\<close>.
    An operator's result is \<open>Finished\<close>, \<open>Cancelled\<close> or \<open>Failed e\<close>, each
    with the state left behind.
  \<^item> \<open>Visualizer\<close>: the colour lookups of \<open>ViewportDrawing.draw_vertices\<close>
    and \<open>draw_edges\<close> (\<open>subset_color\<close>, \<open>edges_batch\<close>) and the material
    assignment of \<open>draw_faces\<close> (\<open>faces_materials\<close>, over an association
    list of material names).
  \<^item> \<open>Panel\<close>: who owns the draw handlers: the \<open>ViewportDrawing\<close> instances
    (\<open>new_drawing\<close>), the one \<open>subsets.py\<close> binds when imported
    (\<open>import_subsets\<close>), the one \<open>register()\<close> stores in the driver
    namespace (\<open>register_addon\<close>), the panel's Show Subsets block
    (\<open>panel_draw\<close>, \<open>create_draw_handler\<close>, \<open>remove_handlers\<close>) and
    \<open>unregister()\<close>'s loop (\<open>unregister_addon\<close>); \<open>addon_reach\<close> is
    enabling the add-on followed by any number of panel redraws;
    \<open>redraw_until_stable\<close> is Blender's repeated redrawing as a
    \<open>while_option\<close>.
  \<^item> \<open>Lifecycle\<close>: Reload Scripts (\<open>reload_addon\<close>: \<open>unregister()\<close>, the
    reload block of \<open>__init__.py\<close>, \<open>register()\<close>) and runs of redraws and
    reloads (\<open>life_step\<close>, \<open>life_reach\<close>).
  \<^item> \<open>Painting\<close>: the whole \<open>UGXSubsetsAdditions\<close> operator
    (\<open>subset_action\<close>): the painting of \<open>Subsets\<close> and, for faces, the
    call of \<open>draw_faces\<close> of \<open>Visualizer\<close> on the painted mesh.
  \<^item> This theory: the properties that span the components.

  \<^bold>\<open>What is proved.\<close>  The number formatting of the exporter reads back
  exactly (C1); \<open>add_subsets\<close> builds the subset handler the spec
  describes (C3); both operators always raise, the exporter at the call
  \<open>add_mark_subset_handler(obj, grid)\<close> (C2), the importer at
  \<open>get_selector(grid, bm)\<close>, leaving a linked empty object and the subsets
  appended so far (C4); the importer's readers: the ValueError on an empty
  or space-terminated text (C5), the \<open>len // 3\<close> loop (C6), the member
  loop with negative indices (C7), the subsets it appends (C8).  Across the
  two: the importer rejects every vertices text the exporter writes (C9),
  while the same text without its last space reads back as the mesh's
  vertices (C10); face subsets are written under \<open>faces\<close> and read from
  \<open>triangles\<close>/\<open>quads\<close>, so they are lost (C11); the selector the
  exporter writes is what \<open>get_selector\<close> finds (C30).
  The interface: every reachable state keeps non-negative subset indices
  and layers of the right length (C12), and once there is a subset no step
  removes the last one (C13); UP and DOWN swap neighbours (C14, C15),
  leaving \<open>active_subset\<close> behind; REMOVE with a negative active row raises
  after decrementing \<open>current_subset\<close> (C16); painting writes the active
  row's position into the selected elements (C17) and is at most one
  Initialize away from every reachable state (C29); ADD after a REMOVE
  repeats an index (C18).  The viewport: the colours and errors of
  \<open>draw_vertices\<close> (C19, C20) and the materials of \<open>draw_faces\<close>, one per
  name, so that subsets of one name show the last one's colour (C21, C22).
  The draw handlers: the panel's instance and the viewport agree, the
  namespace's instance stays empty (C25); the visualisation refines the
  toggle's abstract specification, sticking to the first object shown
  (C26); \<open>unregister()\<close> removes nothing (C27); unticking raises
  AttributeError (C28); repeated redraws settle after one (C31, the
  termination of the redraw loop); Reload Scripts leaks every handler shown
  before it for the rest of the run (C32) and a ticked redraw adds a second
  pair (C33).  Painting faces shows them in the active subset's colour on an
  object without materials (C34) and in an existing material's colour
  otherwise (C35), and with a row outside the range of \<open>material_index\<close> it
  fails with ValueError after writing the layer (C36).  Across components:
  the registered defaults make the first export after Initialize and
  painting raise (C23), and painting after a reorder files elements under
  another subset's index (C24).

  \<^bold>\<open>Modelling choices.\<close>  Every loop of the code is a structural recursion
  or a \<open>fold\<close> over a finite range; no fuel is needed, and every operator
  is a total function, so each returns.  A raise is a value \<open>Inl e\<close> of
  \<open>'a res\<close>, or \<open>Raised e s\<close> / \<open>Failed e s\<close> where the state changed
  before the raise persists.  Numbers are kept as exact decimals: Blender
  stores coordinates and colours in single precision, which the model does
  not round; the round-trip statements are about the value Python holds.
  A float is its shortest decimal, so \<open>int(c)\<close> of an integral value above
  2^53 is the truncated decimal, not the exact binary integer Python
  prints, and -0.0 is not represented; the round trip is unaffected.
  Materials are identified by their names; Blender's renaming of an empty
  or over-long name in \<open>materials.new\<close> is not modelled.
  lxml's serialisation and parsing are not modelled: the exporter is
  modelled up to the tree it builds and the importer from the tree it is
  given, the same tree for the cross-component theorems.  The importer
  parses a fixed path; the model takes the root element as a parameter.
  The three numbers \<open>random_color()\<close> draws are a parameter of ADD.  The
  panel is drawn only when its \<open>poll\<close> holds (\<open>panel_poll\<close>, a premise of
  every redraw in \<open>addon_reach\<close> and \<open>life_step\<close>).  Draw
  handlers and instances are numbered in creation order; a handler records
  the object it draws.  Blender's repeated redrawing of the panel is the one
  loop without a bound in the code's own terms: it is a \<open>while_option\<close>
  (\<open>redraw_until_stable\<close>), and C31 proves that it returns.  Reload Scripts
  is taken to call \<open>unregister()\<close>, execute \<open>__init__.py\<close> again in its
  module namespace and call \<open>register()\<close>, in that order; the scene
  properties keep their values across it.  The object's material slots and
  \<open>bpy.data.materials\<close> are a state of their own (\<open>vis\<close>), beside the mesh.

  \<^bold>\<open>Not modelled.\<close>  Reports and prints; the layout calls of the panel
  and \<open>UGXSUBSETS_UL_Items.draw_item\<close>, which only draw widgets; the GPU
  shader, batches and point/line sizes, which the program never reads back;
  the shading switch of \<open>draw_faces\<close>, which changes how the viewport
  renders and not the colour a face is shown in (its material's diffuse
  colour, in solid and in material preview mode); class,
  menu and property (un)registration, which are host calls; \<open>bl_info\<close> and
  the operators' class attributes, which are declarations.
  The call of \<open>draw_faces\<close> the panel has commented out is not code.
\<close>

section \<open>Exporter and importer together\<close>

text \<open>C9: the importer cannot read the vertices the exporter writes: the
  exporter ends every coordinate with a space, so the text of \<open>vertices\<close>
  is empty or ends with a space, and \<open>get_vertices\<close> raises ValueError on
  it, for every mesh.\<close>

theorem import_rejects_exported_vertices:
  assumes "\<not> has_child ''vertices'' g"
  shows "get_vertices (add_vertices m g) bm = Inl ValueError"
  using get_vertices_bad_text [OF findtext_add_vertices [OF assms] vertices_text_shape] .

theorem import_rejects_exported_vertices_witness:
  "\<not> has_child ''vertices'' grid_root
   \<and> get_vertices (add_vertices \<lparr>m_verts = [\<lparr>co = [Fin 1 0, Fin 25 (-1), Fin 0 0], vselect = False\<rparr>],
        m_edges = [], m_polys = [], vertex_subset = None, edge_subset = None, face_subset = None,
        in_edit_mode = True\<rparr> grid_root) bmesh_new = Inl ValueError"
proof -
  have h: "\<not> has_child ''vertices'' grid_root"
    by (simp add: grid_root_def has_child_def)
  show ?thesis
    using import_rejects_exported_vertices [OF h] h by blast
qed

text \<open>C10: what the exporter means to write is right: with its trailing
  space removed, the vertices text of a mesh whose coordinates are three
  canonical numbers per vertex is read back by \<open>get_vertices\<close> as exactly
  the mesh's vertex coordinates, in order.\<close>

theorem vertices_roundtrip_trimmed:
  assumes shape: "\<forall>v\<in>set (m_verts m). length (co v) = 3 \<and> list_all pf_canon (co v)"
    and ne: "m_verts m \<noteq> []"
  shows "\<exists>w. findtext ''vertices'' (add_vertices m grid_root) = Some (w @ '' '')
           \<and> (\<exists>bm'. get_vertices (XElem ''grid'' [] None [leaf ''vertices'' [] w]) bm = Inr bm'
                   \<and> bm_verts bm' = bm_verts bm @ map co (m_verts m))"
proof -
  let ?xs = "concat (map co (m_verts m))"
  have e: "concat (map (\<lambda>v. spaced fmt_coord (co v)) (m_verts m)) = spaced fmt_coord ?xs"
    using spaced_concat [of fmt_coord "map co (m_verts m)"] by (simp add: comp_def)
  have xs_ne: "?xs \<noteq> []"
    using ne shape by (cases "m_verts m") auto
  define w where "w = butlast (spaced fmt_coord ?xs)"
  have w: "spaced fmt_coord ?xs = w @ '' ''" "py_split CHR '' '' w = map fmt_coord ?xs"
    using py_split_spaced_trimmed [OF fmt_coord_no_space xs_ne] by (simp_all add: w_def)
  have ft: "findtext ''vertices'' (add_vertices m grid_root) = Some (w @ '' '')"
    using findtext_add_vertices [of grid_root m] e w(1) by (simp add: grid_root_def has_child_def)
  have canon: "pf_canon c" if "c \<in> set ?xs" for c
    using that shape by (auto simp: list_all_iff)
  have "map_res py_float (map fmt_coord ys) = Inr ys" if "\<forall>c\<in>set ys. pf_canon c" for ys
    using that by (induction ys) (simp_all add: py_float_fmt_coord)
  then have parse: "map_res py_float (map fmt_coord ?xs) = Inr ?xs"
    using canon by blast
  have "bm_verts (verts_loop ?xs bm) = bm_verts bm @ map co (m_verts m)"
    using verts_loop_triples [of "map co (m_verts m)" bm] shape by auto
  moreover have "get_vertices (XElem ''grid'' [] None [leaf ''vertices'' [] w]) bm = Inr (verts_loop ?xs bm)"
    using w(2) parse by (simp add: get_vertices_def text_tokens_def findtext_def find_child_def)
  ultimately show ?thesis
    using ft by blast
qed

theorem vertices_roundtrip_trimmed_witness:
  "length [Fin 1 0, Fin 25 (-1), Fin 0 0] = 3 \<and> list_all pf_canon [Fin 1 0, Fin 25 (-1), Fin 0 0]
   \<and> [\<lparr>co = [Fin 1 0, Fin 25 (-1), Fin 0 0], vselect = False\<rparr>] \<noteq> []
   \<and> (\<exists>w. findtext ''vertices'' (add_vertices \<lparr>m_verts = [\<lparr>co = [Fin 1 0, Fin 25 (-1), Fin 0 0], vselect = False\<rparr>],
              m_edges = [], m_polys = [], vertex_subset = None, edge_subset = None, face_subset = None,
              in_edit_mode = True\<rparr> grid_root) = Some (w @ '' '')
        \<and> (\<exists>bm'. get_vertices (XElem ''grid'' [] None [leaf ''vertices'' [] w]) bmesh_new = Inr bm'
                 \<and> bm_verts bm' = [[Fin 1 0, Fin 25 (-1), Fin 0 0]]))"
proof -
  have a: "\<forall>v\<in>set (m_verts \<lparr>m_verts = [\<lparr>co = [Fin 1 0, Fin 25 (-1), Fin 0 0], vselect = False\<rparr>],
              m_edges = [], m_polys = [], vertex_subset = None, edge_subset = None, face_subset = None,
              in_edit_mode = True\<rparr>). length (co v) = 3 \<and> list_all pf_canon (co v)"
    by simp
  show ?thesis
    using vertices_roundtrip_trimmed [OF a, of bmesh_new] by (simp add: bmesh_new_def)
qed

text \<open>C11: the face subsets the exporter writes are lost on import: every
  subset element of the handler \<open>add_subsets\<close> appends has only
  \<open>vertices\<close>, \<open>edges\<close> and \<open>faces\<close> children, while the importer reads
  face members from \<open>triangles\<close> and \<open>quads\<close>; both reads leave the face
  layer as it was.\<close>

theorem exported_face_members_not_read:
  assumes "add_subsets ss m grid = Inr g'"
  shows "\<exists>h. echildren g' = echildren grid @ [h]
           \<and> (\<forall>s\<in>set (findall ''subset'' h). \<forall>i l.
                 read_members ''triangles'' s i l = Inr l \<and> read_members ''quads'' s i l = Inr l)"
proof -
  obtain hs where hs: "g' = append_child (XElem ''subset_handler'' [(''name'', ''defSH'')] None hs) grid"
    "\<forall>e\<in>set hs. etag e = ''subset'' \<and> set (map etag (echildren e)) \<subseteq> {''vertices'', ''edges'', ''faces''}"
    using add_subsets_handler [OF assms] by blast
  have "findtext t s = None" if "s \<in> set hs" "t \<notin> {''vertices'', ''edges'', ''faces''}" for s t
    using hs(2) that by (auto simp: findtext_None_iff has_child_iff_tags)
  then have "read_members ''triangles'' s i l = Inr l \<and> read_members ''quads'' s i l = Inr l"
    if "s \<in> set hs" for s i l
    using that by (simp add: read_members_def)
  then show ?thesis
    using hs(1) by (auto simp: findall_def)
qed

theorem exported_face_members_not_read_witness:
  "add_subsets [\<lparr>s_name = ''a'', s_index = 0, s_color = []\<rparr>]
     \<lparr>m_verts = [], m_edges = [], m_polys = [], vertex_subset = Some [],
      edge_subset = Some [], face_subset = Some [0], in_edit_mode = True\<rparr> grid_root
   = Inr (append_child (XElem ''subset_handler'' [(''name'', ''defSH'')] None
       [XElem ''subset'' [(''name'', ''a''), (''color'', []), (''state'', ''393216'')] None
          [leaf ''faces'' [] ''0 '']]) grid_root)
   \<and> read_members ''triangles''
       (XElem ''subset'' [(''name'', ''a''), (''color'', []), (''state'', ''393216'')] None
          [leaf ''faces'' [] ''0 '']) 0 [5] = Inr [5]"
proof -
  have ok: "add_subsets [\<lparr>s_name = ''a'', s_index = 0, s_color = []\<rparr>]
     \<lparr>m_verts = [], m_edges = [], m_polys = [], vertex_subset = Some [],
      edge_subset = Some [], face_subset = Some [0], in_edit_mode = True\<rparr> grid_root
   = Inr (append_child (XElem ''subset_handler'' [(''name'', ''defSH'')] None
       [XElem ''subset'' [(''name'', ''a''), (''color'', []), (''state'', ''393216'')] None
          [leaf ''faces'' [] ''0 '']]) grid_root)"
    by code_simp
  show ?thesis
    using exported_face_members_not_read [OF ok] ok by (auto simp: findall_def grid_root_def)
qed

section \<open>The subset panel, the exporter and the viewport together\<close>

text \<open>C23: the defaults registered in \<open>__init__.py\<close> break the export of a
  painted mesh: \<open>active_subset\<close> starts at 1; Initialize appends one subset
  with index 0 (and then raises on \<open>item.id\<close>); painting a selected vertex
  writes 1 into its layer; \<open>add_subsets\<close> then raises KeyError on
  \<open>subsets[1]\<close>, and \<open>draw_vertices\<close> raises IndexError on
  \<open>ugx_subsets[1]\<close>.\<close>

theorem panel_defaults_break_export:
  "ui_reach (\<lparr>ugx_subsets = [default_subset], active_subset = 1, current_subset = 0, view_check = False, scene_objects = []\<rparr>,
             Some \<lparr>m_verts = [\<lparr>co = [Fin 0 0, Fin 0 0, Fin 0 0], vselect = True\<rparr>], m_edges = [], m_polys = [],
                   vertex_subset = Some [1], edge_subset = Some [], face_subset = Some [], in_edit_mode = True\<rparr>)
   \<and> add_subsets [default_subset]
       \<lparr>m_verts = [\<lparr>co = [Fin 0 0, Fin 0 0, Fin 0 0], vselect = True\<rparr>], m_edges = [], m_polys = [],
        vertex_subset = Some [1], edge_subset = Some [], face_subset = Some [], in_edit_mode = True\<rparr> grid_root
     = Inl KeyError
   \<and> draw_vertices \<lparr>ugx_subsets = [default_subset], active_subset = 1, current_subset = 0, view_check = False, scene_objects = []\<rparr>
       \<lparr>m_verts = [\<lparr>co = [Fin 0 0, Fin 0 0, Fin 0 0], vselect = True\<rparr>], m_edges = [], m_polys = [],
        vertex_subset = Some [1], edge_subset = Some [], face_subset = Some [], in_edit_mode = True\<rparr>
     = Inl IndexError"
proof -
  let ?m0 = "\<lparr>m_verts = [\<lparr>co = [Fin 0 0, Fin 0 0, Fin 0 0], vselect = True\<rparr>], m_edges = [], m_polys = [],
              vertex_subset = None, edge_subset = None, face_subset = None, in_edit_mode = False\<rparr>"
  let ?m1 = "\<lparr>m_verts = [\<lparr>co = [Fin 0 0, Fin 0 0, Fin 0 0], vselect = True\<rparr>], m_edges = [], m_polys = [],
              vertex_subset = Some [0], edge_subset = Some [], face_subset = Some [], in_edit_mode = True\<rparr>"
  let ?s = "\<lparr>ugx_subsets = [default_subset], active_subset = 1, current_subset = 0, view_check = False, scene_objects = []\<rparr>"
  have r0: "ui_reach (registered_scene [], Some ?m0)"
    by (rule ui_reach.start_obj) (simp add: no_layers_def)
  have i: "initialize (registered_scene []) (Some ?m0) = Failed AttributeError (?s, Some ?m1)"
    by code_simp
  have p: "additions VERTICES ?s (Some ?m1) = Finished (?s, Some (?m1\<lparr>vertex_subset := Some [1]\<rparr>))"
    by code_simp
  have "ui_reach (?s, Some (?m1\<lparr>vertex_subset := Some [1]\<rparr>))"
    using ui_reach_paint [OF ui_reach_init [OF r0 i, simplified] p] by simp
  moreover have "add_subsets [default_subset] (?m1\<lparr>vertex_subset := Some [1]\<rparr>) grid_root = Inl KeyError"
    by code_simp
  moreover have "draw_vertices ?s (?m1\<lparr>vertex_subset := Some [1]\<rparr>) = Inl IndexError"
    by code_simp
  ultimately show ?thesis
    by simp
qed

text \<open>C24: painting records list positions, the exporter looks subsets up by
  index: after ADD and UP the active row 1 shows the default subset (index
  0), painting writes 1, and the exporter files the painted vertex under
  \<open>Subset 1\<close>, the subset whose index is 1, leaving the subset of the
  active row empty.\<close>

theorem painting_after_reorder_misfiles:
  "ui_reach (\<lparr>ugx_subsets = [\<lparr>s_name = ''Subset 1'', s_index = 1, s_color = [Fin 1 0, Fin 0 0, Fin 0 0, Fin 1 0]\<rparr>, default_subset],
               active_subset = 1, current_subset = 0, view_check = False, scene_objects = []\<rparr>,
             Some \<lparr>m_verts = [\<lparr>co = [Fin 0 0, Fin 0 0, Fin 0 0], vselect = True\<rparr>], m_edges = [], m_polys = [],
                   vertex_subset = Some [1], edge_subset = Some [], face_subset = Some [], in_edit_mode = True\<rparr>)
   \<and> add_subsets [\<lparr>s_name = ''Subset 1'', s_index = 1, s_color = [Fin 1 0, Fin 0 0, Fin 0 0, Fin 1 0]\<rparr>, default_subset]
       \<lparr>m_verts = [\<lparr>co = [Fin 0 0, Fin 0 0, Fin 0 0], vselect = True\<rparr>], m_edges = [], m_polys = [],
        vertex_subset = Some [1], edge_subset = Some [], face_subset = Some [], in_edit_mode = True\<rparr> grid_root
     = Inr (append_child (XElem ''subset_handler'' [(''name'', ''defSH'')] None
          [XElem ''subset'' [(''name'', ''Subset 1''), (''color'', ''1 0 0 1 ''), (''state'', ''393216'')] None
             [leaf ''vertices'' [] ''0 ''],
           XElem ''subset'' [(''name'', []), (''color'', ''0 0 0 1 ''), (''state'', ''393216'')] None []]) grid_root)"
proof -
  let ?m0 = "\<lparr>m_verts = [\<lparr>co = [Fin 0 0, Fin 0 0, Fin 0 0], vselect = True\<rparr>], m_edges = [], m_polys = [],
              vertex_subset = None, edge_subset = None, face_subset = None, in_edit_mode = False\<rparr>"
  let ?m1 = "\<lparr>m_verts = [\<lparr>co = [Fin 0 0, Fin 0 0, Fin 0 0], vselect = True\<rparr>], m_edges = [], m_polys = [],
              vertex_subset = Some [0], edge_subset = Some [], face_subset = Some [], in_edit_mode = True\<rparr>"
  let ?t = "\<lparr>s_name = ''Subset 1'', s_index = 1, s_color = [Fin 1 0, Fin 0 0, Fin 0 0, Fin 1 0]\<rparr>"
  let ?s1 = "\<lparr>ugx_subsets = [default_subset], active_subset = 1, current_subset = 0, view_check = False, scene_objects = []\<rparr>"
  let ?s2 = "\<lparr>ugx_subsets = [default_subset, ?t], active_subset = 1, current_subset = 1, view_check = False, scene_objects = []\<rparr>"
  let ?s3 = "\<lparr>ugx_subsets = [?t, default_subset], active_subset = 1, current_subset = 0, view_check = False, scene_objects = []\<rparr>"
  have r0: "ui_reach (registered_scene [], Some ?m0)"
    by (rule ui_reach.start_obj) (simp add: no_layers_def)
  have i: "initialize (registered_scene []) (Some ?m0) = Failed AttributeError (?s1, Some ?m1)"
    by code_simp
  have a: "list_action ADD (Fin 1 0, Fin 0 0, Fin 0 0) ?s1 = Finished ?s2"
    by code_simp
  have u: "list_action UP (Fin 1 0, Fin 0 0, Fin 0 0) ?s2 = Finished ?s3"
    by code_simp
  have p: "additions VERTICES ?s3 (Some ?m1) = Finished (?s3, Some (?m1\<lparr>vertex_subset := Some [1]\<rparr>))"
    by code_simp
  have r1: "ui_reach (?s1, Some ?m1)"
    using ui_reach_init [OF r0 i] by simp
  have "ui_reach (?s3, Some (?m1\<lparr>vertex_subset := Some [1]\<rparr>))"
    using ui_reach_paint [OF ui_reach_list_act [OF ui_reach_list_act [OF r1 a] u] p] by simp
  moreover have "add_subsets [?t, default_subset] (?m1\<lparr>vertex_subset := Some [1]\<rparr>) grid_root
     = Inr (append_child (XElem ''subset_handler'' [(''name'', ''defSH'')] None
          [XElem ''subset'' [(''name'', ''Subset 1''), (''color'', ''1 0 0 1 ''), (''state'', ''393216'')] None
             [leaf ''vertices'' [] ''0 ''],
           XElem ''subset'' [(''name'', []), (''color'', ''0 0 0 1 ''), (''state'', ''393216'')] None []]) grid_root)"
    by code_simp
  ultimately show ?thesis
    by simp
qed

section \<open>The selection, written and read\<close>

lemma findtext_add_if_nonempty:
  "findtext t (add_if_nonempty u s e) =
     (if findtext t e = None \<and> u = t \<and> s \<noteq> [] then Some s else findtext t e)"
  by (auto simp: add_if_nonempty_def findtext_def leaf_def split: option.split)

lemma etag_add_if_nonempty [simp]: "etag (add_if_nonempty u s e) = etag e"
  by (simp add: add_if_nonempty_def)

text \<open>C30: the importer's \<open>get_selector\<close> reads back what the exporter's
  \<open>add_selector\<close> writes: on a grid without a selector yet, the three
  texts it finds are the exporter's selected-index texts, and None for a
  kind with nothing selected, whose element the exporter omits.  (The
  exporter's \<open>execute\<close> raises before it reaches \<open>add_selector\<close>, C2, and
  the importer's \<open>execute\<close> calls \<open>get_selector\<close> with one argument too
  many, C4; the round trip is between the two methods.)\<close>

theorem selector_roundtrip:
  assumes "\<not> has_child ''selector'' g"
  shows "get_selector (add_selector m g) =
           Inr (let t = selected_text (map vselect (m_verts m)) in if t = [] then None else Some t,
                let t = selected_text (map eselect (m_edges m)) in if t = [] then None else Some t,
                let t = selected_text (map pselect (m_polys m)) in if t = [] then None else Some t)"
proof -
  have "find_child ''selector'' g = None" using assms by (simp add: find_child_None_iff)
  then show ?thesis
    by (simp add: get_selector_def add_selector_def findtext_add_if_nonempty Let_def)
qed

theorem selector_roundtrip_witness:
  "\<not> has_child ''selector'' grid_root
   \<and> get_selector (add_selector \<lparr>m_verts = [\<lparr>co = [], vselect = False\<rparr>, \<lparr>co = [], vselect = True\<rparr>],
        m_edges = [], m_polys = [], vertex_subset = None, edge_subset = None, face_subset = None,
        in_edit_mode = True\<rparr> grid_root) = Inr (Some ''1 '', None, None)"
proof -
  have h: "\<not> has_child ''selector'' grid_root"
    by (simp add: grid_root_def has_child_def)
  have v: "selected_text (map vselect [\<lparr>co = [], vselect = False\<rparr>, \<lparr>co = [], vselect = True\<rparr>]) = ''1 ''"
    by code_simp
  have e: "selected_text [] = []"
    by (simp add: selected_text_def)
  show ?thesis
    using selector_roundtrip [OF h, of "\<lparr>m_verts = [\<lparr>co = [], vselect = False\<rparr>, \<lparr>co = [], vselect = True\<rparr>],
        m_edges = [], m_polys = [], vertex_subset = None, edge_subset = None, face_subset = None,
        in_edit_mode = True\<rparr>"] h v e
    by (simp only: mesh.select_convs list.map Let_def) simp
qed

end
